(* ===== verification/Prelude.thy ===== *)
theory Prelude
  imports Main "HOL-Library.AList" "HOL-Library.Char_ord" "HOL-Library.List_Lexorder"
    "HOL-Library.Sublist"
begin

section \<open>Shared definitions: Python strings, dictionaries, exceptions\<close>

text \<open>
  What every component of the bridge uses of Python itself.

  A \<^typ>\<open>string\<close> is a list of ASCII characters; the methods the source calls on \<^verbatim>\<open>str\<close>
  (\<^verbatim>\<open>strip\<close>, \<^verbatim>\<open>upper\<close>, \<^verbatim>\<open>lower\<close>, \<^verbatim>\<open>split\<close>, \<^verbatim>\<open>join\<close>, \<^verbatim>\<open>startswith\<close>, formatting of an integer) are
  the functions of the first sections.  A \<^verbatim>\<open>dict\<close> is an association list in insertion order:
  \<^verbatim>\<open>d[k] = v\<close> is \<open>AList.update k v d\<close>, which overwrites in place or appends, and \<^verbatim>\<open>d.get(k)\<close>
  is \<open>map_of d k\<close>.  An exception is a value of \<open>exn\<close>; a function that may raise has a result in
  \<open>exn + 'a\<close>.

  The collection \<open>str_eval\<close> holds the equations that evaluate string operations on literals,
  \<open>dict_simps\<close> the laws of dictionaries, and \<open>inv_intros\<close> the preservation lemmas of the
  components' invariants.
\<close>

named_theorems str_eval
named_theorems dict_simps
named_theorems inv_intros

subsection \<open>Exceptions\<close>

text \<open>
  The exception classes the source raises or catches.  The subclass relation the handlers rely
  on: \<^verbatim>\<open>TopicError\<close> and \<^verbatim>\<open>DiscoveryError\<close> are subclasses of \<^verbatim>\<open>ValueError\<close>, \<^verbatim>\<open>ConnectionError\<close> is a
  subclass of \<^verbatim>\<open>OSError\<close>; \<^verbatim>\<open>ConfigError\<close>, \<^verbatim>\<open>ConfigFileWriteError\<close>,
  \<^verbatim>\<open>DiscoveryRegistryError\<close>, \<^verbatim>\<open>MqttTlsError\<close>, \<^verbatim>\<open>RuntimeError\<close> and \<^verbatim>\<open>AttributeError\<close> are neither.
\<close>

datatype exn =
    ValueError string
  | TopicError string
  | DiscoveryError string
  | ConfigError string
  | ConfigFileWriteError string
  | DiscoveryRegistryError string
  | ConnectionError string
  | OSError string
  | TypeError string
  | KeyError string
  | IndexError string
  | MqttTlsError string
  | RuntimeError string
  | AttributeError string

type_synonym 'a result = "exn + 'a"

fun is_ValueError :: "exn \<Rightarrow> bool" where
  "is_ValueError (ValueError _) = True"
| "is_ValueError (TopicError _) = True"
| "is_ValueError (DiscoveryError _) = True"
| "is_ValueError _ = False"

fun is_OSError :: "exn \<Rightarrow> bool" where
  "is_OSError (OSError _) = True"
| "is_OSError (ConnectionError _) = True"
| "is_OSError _ = False"

text \<open>\<^verbatim>\<open>str(exc)\<close>\<close>

fun exn_text :: "exn \<Rightarrow> string" where
  "exn_text (ValueError s) = s"
| "exn_text (TopicError s) = s"
| "exn_text (DiscoveryError s) = s"
| "exn_text (ConfigError s) = s"
| "exn_text (ConfigFileWriteError s) = s"
| "exn_text (DiscoveryRegistryError s) = s"
| "exn_text (ConnectionError s) = s"
| "exn_text (OSError s) = s"
| "exn_text (TypeError s) = s"
| "exn_text (KeyError s) = s"
| "exn_text (IndexError s) = s"
| "exn_text (MqttTlsError s) = s"
| "exn_text (RuntimeError s) = s"
| "exn_text (AttributeError s) = s"

definition rbind :: "'a result \<Rightarrow> ('a \<Rightarrow> 'b result) \<Rightarrow> 'b result" where
  "rbind r f = (case r of Inl e \<Rightarrow> Inl e | Inr a \<Rightarrow> f a)"

lemma rbind_simps [simp]:
  "rbind (Inl e) f = Inl e" "rbind (Inr a) f = f a"
  by (simp_all add: rbind_def)

lemma rbind_eq_Inr: "rbind r f = Inr b \<longleftrightarrow> (\<exists>a. r = Inr a \<and> f a = Inr b)"
  by (cases r) auto

fun map_result :: "('a \<Rightarrow> 'b result) \<Rightarrow> 'a list \<Rightarrow> 'b list result" where
  "map_result f [] = Inr []"
| "map_result f (x # xs) =
     rbind (f x) (\<lambda>y. rbind (map_result f xs) (\<lambda>ys. Inr (y # ys)))"

lemma map_result_total:
  "(\<And>x. x \<in> set xs \<Longrightarrow> f x = Inr (g x)) \<Longrightarrow> map_result f xs = Inr (map g xs)"
  by (induction xs) auto

subsection \<open>Characters\<close>

definition is_space :: "char \<Rightarrow> bool" where
  "is_space c \<longleftrightarrow> c \<in> set [CHR '' '', CHR 0x09, CHR 0x0A, CHR 0x0B, CHR 0x0C, CHR 0x0D,
                        CHR 0x1C, CHR 0x1D, CHR 0x1E, CHR 0x1F]"

definition is_digit :: "char \<Rightarrow> bool" where
  "is_digit c \<longleftrightarrow> CHR ''0'' \<le> c \<and> c \<le> CHR ''9''"

definition is_lower :: "char \<Rightarrow> bool" where
  "is_lower c \<longleftrightarrow> CHR ''a'' \<le> c \<and> c \<le> CHR ''z''"

definition is_upper :: "char \<Rightarrow> bool" where
  "is_upper c \<longleftrightarrow> CHR ''A'' \<le> c \<and> c \<le> CHR ''Z''"

text \<open>Upper and lower case of an ASCII letter differ in bit 5.\<close>

definition upper_char :: "char \<Rightarrow> char" where
  "upper_char c = (if is_lower c then
     (case c of Char b0 b1 b2 b3 b4 b5 b6 b7 \<Rightarrow> Char b0 b1 b2 b3 b4 False b6 b7) else c)"

definition lower_char :: "char \<Rightarrow> char" where
  "lower_char c = (if is_upper c then
     (case c of Char b0 b1 b2 b3 b4 b5 b6 b7 \<Rightarrow> Char b0 b1 b2 b3 b4 True b6 b7) else c)"

lemmas char_defs = is_space_def is_digit_def is_lower_def is_upper_def
  upper_char_def lower_char_def less_eq_char_def less_char_def
declare char_defs [str_eval]

lemma char_eq_code: "c = d \<longleftrightarrow> (of_char c :: nat) = of_char d"
  by (simp add: of_char_eq_iff)

lemma of_char_Char:
  "of_char (Char b0 b1 b2 b3 b4 b5 b6 b7) =
     (of_bool b0 + of_bool b1 * 2 + of_bool b2 * 4 + of_bool b3 * 8 + of_bool b4 * 16 +
      of_bool b5 * 32 + of_bool b6 * 64 + of_bool b7 * 128 :: nat)"
  by (simp add: of_char_def ac_simps)

lemma upper_char_code:
  "(of_char (upper_char c) :: nat) =
     (if 97 \<le> (of_char c :: nat) \<and> (of_char c :: nat) \<le> 122 then of_char c - 32 else of_char c)"
proof (cases c)
  case (Char b0 b1 b2 b3 b4 b5 b6 b7)
  then show ?thesis
    by (cases b7; cases b6; cases b5)
       (simp_all add: upper_char_def is_lower_def less_eq_char_def of_char_Char)
qed

lemma lower_char_code:
  "(of_char (lower_char c) :: nat) =
     (if 65 \<le> (of_char c :: nat) \<and> (of_char c :: nat) \<le> 90 then of_char c + 32 else of_char c)"
proof (cases c)
  case (Char b0 b1 b2 b3 b4 b5 b6 b7)
  then show ?thesis
    by (cases b7; cases b6; cases b5)
       (simp_all add: lower_char_def is_upper_def less_eq_char_def of_char_Char)
qed

lemma upper_upper_char [simp]: "upper_char (upper_char c) = upper_char c"
  by (auto simp: char_eq_code upper_char_code)

lemma lower_lower_char [simp]: "lower_char (lower_char c) = lower_char c"
  by (auto simp: char_eq_code lower_char_code)

lemma is_space_code:
  "is_space c \<longleftrightarrow> (of_char c :: nat) \<in> {9, 10, 11, 12, 13, 28, 29, 30, 31, 32}"
  by (auto simp: is_space_def char_eq_code)

lemma is_space_upper_char [simp]: "is_space (upper_char c) = is_space c"
  by (auto simp: is_space_code upper_char_code)

lemma is_space_lower_char [simp]: "is_space (lower_char c) = is_space c"
  by (auto simp: is_space_code lower_char_code)

lemma upper_char_id: "\<not> is_lower c \<Longrightarrow> upper_char c = c"
  by (simp add: upper_char_def)

lemma lower_char_id: "\<not> is_upper c \<Longrightarrow> lower_char c = c"
  by (simp add: lower_char_def)


subsection \<open>Strings\<close>

definition upper :: "string \<Rightarrow> string" where
  "upper s = map upper_char s"

definition lower :: "string \<Rightarrow> string" where
  "lower s = map lower_char s"

text \<open>\<^verbatim>\<open>s.strip(chars)\<close>, \<^verbatim>\<open>s.lstrip\<close> and \<^verbatim>\<open>s.rstrip(chars)\<close> for a predicate on characters.\<close>

definition lstrip_by :: "(char \<Rightarrow> bool) \<Rightarrow> string \<Rightarrow> string" where
  "lstrip_by P s = dropWhile P s"

definition rstrip_by :: "(char \<Rightarrow> bool) \<Rightarrow> string \<Rightarrow> string" where
  "rstrip_by P s = rev (dropWhile P (rev s))"

definition strip_by :: "(char \<Rightarrow> bool) \<Rightarrow> string \<Rightarrow> string" where
  "strip_by P s = rstrip_by P (lstrip_by P s)"

definition strip :: "string \<Rightarrow> string" where
  "strip s = strip_by is_space s"

text \<open>\<^verbatim>\<open>s.split(c)\<close> for a one-character separator, and \<^verbatim>\<open>s.split()\<close> on runs of white space.\<close>

fun split_by :: "(char \<Rightarrow> bool) \<Rightarrow> string \<Rightarrow> string list" where
  "split_by P [] = [[]]"
| "split_by P (c # cs) =
     (if P c then [] # split_by P cs
      else (case split_by P cs of [] \<Rightarrow> [[c]] | t # ts \<Rightarrow> (c # t) # ts))"

definition split_on :: "char \<Rightarrow> string \<Rightarrow> string list" where
  "split_on c s = split_by (\<lambda>d. d = c) s"

definition split_ws :: "string \<Rightarrow> string list" where
  "split_ws s = filter (\<lambda>t. t \<noteq> []) (split_by is_space s)"

fun join :: "string \<Rightarrow> string list \<Rightarrow> string" where
  "join sep [] = []"
| "join sep [t] = t"
| "join sep (t # u # ts) = t @ sep @ join sep (u # ts)"

definition startswith :: "string \<Rightarrow> string \<Rightarrow> bool" where
  "startswith s p \<longleftrightarrow> take (length p) s = p"

lemmas str_defs = upper_def lower_def lstrip_by_def rstrip_by_def strip_by_def strip_def
  split_on_def split_ws_def startswith_def
declare str_defs [str_eval]

lemma startswith_prefix: "startswith s p \<longleftrightarrow> prefix p s"
  by (metis append_eq_conv_conj prefix_def startswith_def)

text \<open>A value between apostrophes, as the f-strings of the error messages have it.\<close>

definition quoted :: "string \<Rightarrow> string" where
  "quoted s = [CHR 0x27] @ s @ [CHR 0x27]"

subsubsection \<open>Stripping\<close>

lemma lstrip_by_id: "s = [] \<or> \<not> P (hd s) \<Longrightarrow> lstrip_by P s = s"
  by (cases s) (auto simp: lstrip_by_def)

lemma rstrip_by_id: "s = [] \<or> \<not> P (last s) \<Longrightarrow> rstrip_by P s = s"
  by (cases s rule: rev_cases) (auto simp: rstrip_by_def)

lemma strip_by_id: "s = [] \<or> \<not> P (hd s) \<and> \<not> P (last s) \<Longrightarrow> strip_by P s = s"
  by (auto simp: strip_by_def lstrip_by_id rstrip_by_id)

lemma last_rstrip_by: "rstrip_by P s \<noteq> [] \<Longrightarrow> \<not> P (last (rstrip_by P s))"
  by (metis hd_dropWhile last_rev rev_is_Nil_conv rstrip_by_def)

lemma hd_lstrip_by: "lstrip_by P s \<noteq> [] \<Longrightarrow> \<not> P (hd (lstrip_by P s))"
  by (simp add: hd_dropWhile lstrip_by_def)

lemma rstrip_by_prefix: "prefix (rstrip_by P s) s"
  by (metis rev_rev_ident rstrip_by_def suffix_dropWhile suffix_to_prefix)

lemma lstrip_by_suffix: "suffix (lstrip_by P s) s"
  by (simp add: lstrip_by_def suffix_dropWhile)

lemma hd_strip_by: "strip_by P s \<noteq> [] \<Longrightarrow> \<not> P (hd (strip_by P s))"
proof -
  assume ne: "strip_by P s \<noteq> []"
  obtain t where t: "lstrip_by P s = strip_by P s @ t"
    using rstrip_by_prefix [of P "lstrip_by P s"] by (auto simp: strip_by_def prefix_def)
  then show ?thesis using ne hd_lstrip_by [of P s] by auto
qed

lemma last_strip_by: "strip_by P s \<noteq> [] \<Longrightarrow> \<not> P (last (strip_by P s))"
  by (simp add: last_rstrip_by strip_by_def)

lemma strip_by_idem [simp]: "strip_by P (strip_by P s) = strip_by P s"
  by (rule strip_by_id) (auto dest: hd_strip_by last_strip_by)

lemma strip_idem [simp]: "strip (strip s) = strip s"
  by (simp add: strip_def)

lemma strip_id: "s = [] \<or> \<not> is_space (hd s) \<and> \<not> is_space (last s) \<Longrightarrow> strip s = s"
  by (simp add: strip_def strip_by_id)

lemma strip_no_space: "\<forall>c \<in> set s. \<not> is_space c \<Longrightarrow> strip s = s"
  by (cases "s = []") (auto intro!: strip_id)

lemma set_strip_by: "set (strip_by P s) \<subseteq> set s"
proof -
  have "set (strip_by P s) \<subseteq> set (lstrip_by P s)"
    unfolding strip_by_def by (rule set_mono_prefix [OF rstrip_by_prefix])
  also have "\<dots> \<subseteq> set s"
    by (rule set_mono_suffix [OF lstrip_by_suffix])
  finally show ?thesis .
qed

lemma dropWhile_map_pres: "(\<And>c. P (f c) = P c) \<Longrightarrow> dropWhile P (map f s) = map f (dropWhile P s)"
  by (induction s) auto

lemma strip_by_map_pres: "(\<And>c. P (f c) = P c) \<Longrightarrow> strip_by P (map f s) = map f (strip_by P s)"
  by (simp add: strip_by_def lstrip_by_def rstrip_by_def dropWhile_map_pres rev_map)

lemma strip_upper: "strip (upper s) = upper (strip s)"
  by (simp add: strip_def upper_def strip_by_map_pres)

lemma strip_lower: "strip (lower s) = lower (strip s)"
  by (simp add: strip_def lower_def strip_by_map_pres)

lemma upper_idem [simp]: "upper (upper s) = upper s"
  by (simp add: upper_def)

lemma lower_idem [simp]: "lower (lower s) = lower s"
  by (simp add: lower_def)

lemma upper_Nil [simp]: "upper s = [] \<longleftrightarrow> s = []"
  by (simp add: upper_def)

lemma upper_append [simp]: "upper (s @ t) = upper s @ upper t"
  by (simp add: upper_def)

text \<open>\<^verbatim>\<open>s.strip().upper()\<close>, the normal form of every address and house code.\<close>

abbreviation canon :: "string \<Rightarrow> string" where
  "canon s \<equiv> upper (strip s)"

lemma canon_idem [simp]: "canon (canon s) = canon s"
  by (simp add: strip_upper)

subsubsection \<open>Splitting and joining\<close>

lemma split_by_ne [simp]: "split_by P s \<noteq> []"
  by (induction s) (auto split: list.splits)

lemma split_on_ne [simp]: "split_on c s \<noteq> []"
  by (simp add: split_on_def)

lemma split_by_append:
  "split_by P (s @ c # t) = split_by P s @ split_by P t" if "P c"
  using that by (induction s) (auto split: list.splits)

lemma split_by_none: "\<forall>c \<in> set s. \<not> P c \<Longrightarrow> split_by P s = [s]"
  by (induction s) auto

lemma split_on_none: "c \<notin> set s \<Longrightarrow> split_on c s = [s]"
  by (auto simp: split_on_def intro!: split_by_none)

lemma split_on_append: "split_on c (s @ c # t) = split_on c s @ split_on c t"
  by (simp add: split_on_def split_by_append)

lemma split_by_parts: "t \<in> set (split_by P s) \<Longrightarrow> \<forall>c \<in> set t. \<not> P c"
proof (induction s arbitrary: t)
  case (Cons x s)
  then show ?case
    by (cases "split_by P s") (fastforce split: if_splits)+
qed simp

lemma split_on_parts: "t \<in> set (split_on c s) \<Longrightarrow> c \<notin> set t"
  using split_by_parts [of t "\<lambda>d. d = c" s] by (auto simp: split_on_def)

lemma join_Cons: "ts \<noteq> [] \<Longrightarrow> join sep (t # ts) = t @ sep @ join sep ts"
  by (cases ts) auto

lemma join_split_on: "join [c] (split_on c s) = s"
proof (induction s)
  case Nil
  then show ?case by (simp add: split_on_def)
next
  case (Cons x s)
  obtain t ts where ts: "split_by (\<lambda>d. d = c) s = t # ts"
    by (cases "split_by (\<lambda>d. d = c) s") auto
  with Cons show ?case
    by (cases ts) (auto simp: split_on_def)
qed

lemma split_on_join:
  "ts \<noteq> [] \<Longrightarrow> \<forall>t \<in> set ts. c \<notin> set t \<Longrightarrow> split_on c (join [c] ts) = ts"
proof (induction ts)
  case (Cons t ts)
  then show ?case
    by (cases ts) (auto simp: split_on_append split_on_none)
qed simp

lemma length_split_by: "length (split_by P s) = Suc (length (filter P s))"
  by (induction s) (auto split: list.splits)

lemma length_split_on: "length (split_on c s) = Suc (count_list s c)"
  by (induction s) (auto simp: split_on_def split: list.splits)

subsubsection \<open>Decimal numerals\<close>

definition digit_char :: "nat \<Rightarrow> char" where
  "digit_char n = ''0123456789'' ! (n mod 10)"

fun nat_str :: "nat \<Rightarrow> string" where
  "nat_str n = (if n < 10 then [digit_char n] else nat_str (n div 10) @ [digit_char n])"

declare nat_str.simps [simp del]

definition int_str :: "int \<Rightarrow> string" where
  "int_str i = (if i < 0 then CHR ''-'' # nat_str (nat (- i)) else nat_str (nat i))"

definition digit_val :: "char \<Rightarrow> nat" where
  "digit_val c = of_char c - 48"

definition digits_val :: "string \<Rightarrow> nat" where
  "digits_val s = foldl (\<lambda>n c. 10 * n + digit_val c) 0 s"

lemma digit_char_cases:
  "n < 10 \<Longrightarrow> (of_char (digit_char n) :: nat) = 48 + n"
proof -
  have "\<forall>n \<in> set [0..<10]. (of_char (digit_char n) :: nat) = 48 + n"
    by code_simp
  then show "n < 10 \<Longrightarrow> ?thesis" by simp
qed

lemma digit_char_mod: "digit_char n = digit_char (n mod 10)"
  by (simp add: digit_char_def)

lemma is_digit_code: "is_digit c \<longleftrightarrow> 48 \<le> (of_char c :: nat) \<and> (of_char c :: nat) \<le> 57"
  by (simp add: is_digit_def less_eq_char_def)

lemma is_digit_digit_char [simp]: "is_digit (digit_char n)"
  by (subst digit_char_mod) (simp add: is_digit_code digit_char_cases)

lemma digit_val_digit_char [simp]: "digit_val (digit_char n) = n mod 10"
  by (subst digit_char_mod) (simp add: digit_val_def digit_char_cases)

lemma nat_str_digits: "\<forall>c \<in> set (nat_str n). is_digit c"
proof (induction n rule: nat_str.induct)
  case (1 n)
  then show ?case by (cases "n < 10") (auto simp: nat_str.simps [of n])
qed

lemma nat_str_ne [simp]: "nat_str n \<noteq> []"
  by (subst nat_str.simps) simp

lemma digits_val_snoc: "digits_val (s @ [c]) = 10 * digits_val s + digit_val c"
  by (simp add: digits_val_def)

lemma digits_val_nat_str [simp]: "digits_val (nat_str n) = n"
proof (induction n rule: nat_str.induct)
  case (1 n)
  then show ?case
    by (cases "n < 10") (auto simp: nat_str.simps [of n] digits_val_snoc digits_val_def)
qed

lemma nat_str_inj: "nat_str m = nat_str n \<longleftrightarrow> m = n"
  by (metis digits_val_nat_str)

lemma digit_not_space: "is_digit c \<Longrightarrow> \<not> is_space c"
  by (auto simp: is_digit_code is_space_code)

lemma upper_char_digit: "is_digit c \<Longrightarrow> upper_char c = c"
  by (auto simp: char_eq_code upper_char_code is_digit_code)

lemma upper_nat_str [simp]: "upper (nat_str n) = nat_str n"
  using nat_str_digits [of n] by (auto simp: upper_def upper_char_digit intro!: map_idI)

subsection \<open>Dictionaries\<close>

text \<open>
  The contract the components rely on when they keep a table keyed by an address or a topic, as
  a locale: a representation with a lookup, an update, its keys in insertion order.  It is
  interpreted on association lists, the representation of every \<^verbatim>\<open>dict\<close> of the source.
\<close>

locale ordered_dict =
  fixes get :: "'d \<Rightarrow> 'k \<Rightarrow> 'v option"
    and put :: "'k \<Rightarrow> 'v \<Rightarrow> 'd \<Rightarrow> 'd"
    and keys :: "'d \<Rightarrow> 'k list"
    and ok :: "'d \<Rightarrow> bool"
  assumes get_put: "get (put k v d) j = (if j = k then Some v else get d j)"
    and keys_put: "keys (put k v d) = (if k \<in> set (keys d) then keys d else keys d @ [k])"
    and get_keys: "ok d \<Longrightarrow> get d k = None \<longleftrightarrow> k \<notin> set (keys d)"
    and ok_put: "ok d \<Longrightarrow> ok (put k v d)"
    and ok_distinct: "ok d \<Longrightarrow> distinct (keys d)"
begin

lemma put_fold_get:
  "k \<notin> fst ` set kvs \<Longrightarrow> get (fold (\<lambda>(k, v). put k v) kvs d) k = get d k"
  by (induction kvs arbitrary: d) (auto simp: get_put)

lemma put_fold_last:
  "get (fold (\<lambda>(k, v). put k v) kvs d) k =
     (case map_of (rev kvs) k of Some v \<Rightarrow> Some v | None \<Rightarrow> get d k)"
proof (induction kvs arbitrary: d)
  case (Cons kv kvs)
  then show ?case
    by (cases kv) (auto simp: get_put map_add_def split: option.splits)
qed simp

lemma put_fold_ok: "ok d \<Longrightarrow> ok (fold (\<lambda>(k, v). put k v) kvs d)"
  by (induction kvs arbitrary: d) (auto intro: ok_put)

lemma keys_fold_distinct: "ok d \<Longrightarrow> distinct (keys (fold (\<lambda>(k, v). put k v) kvs d))"
  by (rule ok_distinct [OF put_fold_ok])

end

interpretation dict: ordered_dict map_of AList.update "map fst" "\<lambda>d. distinct (map fst d)"
  by unfold_locales
     (auto simp: update_conv update_keys distinct_update map_of_eq_None_iff)

lemma map_of_update [dict_simps, simp]:
  "map_of (AList.update k v d) j = (if j = k then Some v else map_of d j)"
  by (rule dict.get_put)

lemma distinct_keys_update [inv_intros]:
  "distinct (map fst d) \<Longrightarrow> distinct (map fst (AList.update k v d))"
  by (rule dict.ok_put)

text \<open>Changing the value stored under a key in place, as a mutation of the object it holds.\<close>

definition dict_modify :: "'k \<Rightarrow> ('v \<Rightarrow> 'v) \<Rightarrow> ('k \<times> 'v) list \<Rightarrow> ('k \<times> 'v) list" where
  "dict_modify k f d = map (\<lambda>(j, v). (j, if j = k then f v else v)) d"

lemma map_of_dict_modify [dict_simps, simp]:
  "map_of (dict_modify k f d) j = (if j = k then map_option f (map_of d j) else map_of d j)"
  by (induction d) (auto simp: dict_modify_def)

lemma keys_dict_modify [dict_simps, simp]: "map fst (dict_modify k f d) = map fst d"
  by (auto simp: dict_modify_def)

lemma length_dict_modify [simp]: "length (dict_modify k f d) = length d"
  by (simp add: dict_modify_def)

lemma set_dict_modify:
  "set (dict_modify k f d) = (\<lambda>(j, v). (j, if j = k then f v else v)) ` set d"
  by (simp add: dict_modify_def)

text \<open>For a dictionary (distinct keys) it is the update of the stored value.\<close>

lemma dict_modify_update:
  "distinct (map fst d) \<Longrightarrow> map_of d k = Some v \<Longrightarrow> dict_modify k f d = AList.update k (f v) d"
proof (induction d)
  case (Cons p d)
  then show ?case
    by (cases p) (auto simp: dict_modify_def intro!: map_idI split: if_splits; force)
qed simp

subsection \<open>Systems that emit actions\<close>

text \<open>
  Several components are state machines whose steps emit a list of actions.  \<open>trace\<close> is a finite run
  with the actions it emits.  The locale is the contract between such a machine and an observer who
  sees only its actions: if every step keeps an invariant and moves the abstract state the way the
  emitted actions do, then after any run the observer's state is the machine's.
\<close>

inductive trace :: "('s \<Rightarrow> 'a list \<Rightarrow> 's \<Rightarrow> bool) \<Rightarrow> 's \<Rightarrow> 'a list \<Rightarrow> 's \<Rightarrow> bool" for step where
  trace_refl: "trace step s [] s"
| trace_step: "trace step s as s' \<Longrightarrow> step s' bs s'' \<Longrightarrow> trace step s (as @ bs) s''"

locale observed_system =
  fixes step :: "'s \<Rightarrow> 'a list \<Rightarrow> 's \<Rightarrow> bool"
    and inv :: "'s \<Rightarrow> bool"
    and abs :: "'s \<Rightarrow> 'v"
    and observe :: "'a \<Rightarrow> 'v \<Rightarrow> 'v"
    and permitted :: "'s \<Rightarrow> 'a \<Rightarrow> bool"
  assumes step_inv: "inv s \<Longrightarrow> step s as s' \<Longrightarrow> inv s'"
    and step_abs: "inv s \<Longrightarrow> step s as s' \<Longrightarrow> abs s' = fold observe as (abs s)"
    and step_permitted: "inv s \<Longrightarrow> step s as s' \<Longrightarrow> list_all (permitted s) as"
    and permitted_stable: "inv s \<Longrightarrow> step s as s' \<Longrightarrow> permitted s' = permitted s"
begin

lemma trace_inv: "trace step s as s' \<Longrightarrow> inv s \<Longrightarrow> inv s'"
  by (induction rule: trace.induct) (auto intro: step_inv)

lemma trace_abs: "trace step s as s' \<Longrightarrow> inv s \<Longrightarrow> abs s' = fold observe as (abs s)"
proof (induction rule: trace.induct)
  case (trace_step s as s' bs s'')
  then show ?case using trace_inv [OF trace_step(1)] step_abs [of s' bs s''] by simp
qed simp

lemma trace_permitted:
  "trace step s as s' \<Longrightarrow> inv s \<Longrightarrow> list_all (permitted s) as \<and> permitted s' = permitted s"
proof (induction rule: trace.induct)
  case (trace_step s as s' bs s'')
  then have "inv s'" by (auto dest: trace_inv)
  with trace_step show ?case
    using step_permitted [of s' bs s''] permitted_stable [of s' bs s''] by auto
qed simp

end

lemma set_update_entry: "(a, x) \<in> set (AList.update k v d) \<Longrightarrow> (a, x) = (k, v) \<or> (a, x) \<in> set d"
  by (induction d) (auto split: if_splits)

end
