(* ===== verification/Json.thy ===== *)
theory Json
  imports Prelude
begin

section \<open>JSON values\<close>

text \<open>
  The payloads the bridge publishes and the documents it reads are Python dictionaries, lists,
  strings, numbers, booleans and \<^verbatim>\<open>None\<close>: values of \<open>json\<close>.  An object keeps its keys in
  insertion order.  A floating-point number is kept as the text \<^verbatim>\<open>repr\<close> gives it; the source never
  computes with the floats of a document.
\<close>

datatype json =
    JNull
  | JBool bool
  | JInt int
  | JFloat string
  | JStr string
  | JArr "json list"
  | JObj "(string \<times> json) list"

fun is_JObj :: "json \<Rightarrow> bool" where
  "is_JObj (JObj _) = True"
| "is_JObj _ = False"

fun obj_fields :: "json \<Rightarrow> (string \<times> json) list" where
  "obj_fields (JObj kvs) = kvs"
| "obj_fields _ = []"

text \<open>\<^verbatim>\<open>payload.get(k)\<close>: \<^verbatim>\<open>None\<close> for a missing key.\<close>

definition obj_get :: "(string \<times> json) list \<Rightarrow> string \<Rightarrow> json" where
  "obj_get kvs k = (case map_of kvs k of None \<Rightarrow> JNull | Some v \<Rightarrow> v)"

definition jbool_opt :: "bool option \<Rightarrow> json" where
  "jbool_opt b = (case b of None \<Rightarrow> JNull | Some b \<Rightarrow> JBool b)"

definition jstr_opt :: "string option \<Rightarrow> json" where
  "jstr_opt s = (case s of None \<Rightarrow> JNull | Some s \<Rightarrow> JStr s)"

text \<open>\<^verbatim>\<open>d.update(e)\<close>: the entries of the second dictionary win.\<close>

definition obj_update :: "(string \<times> json) list \<Rightarrow> (string \<times> json) list \<Rightarrow> (string \<times> json) list" where
  "obj_update d e = fold (\<lambda>(k, v). AList.update k v) e d"

lemma map_of_obj_update:
  "map_of (obj_update d e) k = (case map_of (rev e) k of Some v \<Rightarrow> Some v | None \<Rightarrow> map_of d k)"
  unfolding obj_update_def by (rule dict.put_fold_last)

end
