(* ===== verification/Models.thy ===== *)
theory Models
  imports Json
begin

section \<open>Data models (\<^verbatim>\<open>models.py\<close>)\<close>

text \<open>
  The enumerations, the frozen and mutable data classes and the actions of \<^verbatim>\<open>models.py\<close>.  A member
  of an enumeration keeps its name, with a prefix where two enumerations share one.  A \<^verbatim>\<open>datetime\<close>
  is only stored and printed by the source, so it is represented by the text of its
  \<^verbatim>\<open>isoformat()\<close>; a time stamp of \<^verbatim>\<open>time.time()\<close> by the text of the float.
\<close>

type_synonym datetime = string
type_synonym address = string

subsection \<open>Enumerations\<close>

datatype direction = RX | TX

datatype transport = RF | PL | RFSEC | RFCAM | TRANSPORT_UNKNOWN

datatype command =
    ON | OFF | DIM | BRIGHT
  | ALL_LIGHTS_ON | ALL_LIGHTS_OFF | ALL_UNITS_OFF
  | STATUS_REQUEST | STATUS_ON | STATUS_OFF
  | UNKNOWN

datatype device_type = SWITCH | LIGHT | CHIME

datatype device_capability =
  CAP_ACTION | CAP_ON_OFF | CAP_DIM | CAP_STATUS | CAP_ALL_LIGHTS | CAP_ALL_UNITS

datatype operation_mode =
  MODE_CONTINUOUS | MODE_MOMENTARY | MODE_ACTION | MODE_SENSOR | MODE_ALARM_SEQUENCE

datatype channel_kind =
    CH_MOTION | CH_DUSK_DAWN | CH_SENSOR | CH_FLOODLIGHT | CH_INTERNAL_OUTLET
  | CH_GROUPED_ADDRESS | CH_SECURITY_RF

datatype rf_identity = ID_STANDARD | ID_SECURITY

datatype bridge_command =
  BC_STATUS | BC_SYNC | BC_REDISCOVER | BC_PRUNE_DISCOVERY | BC_RESET_DISCOVERY | BC_PING

fun direction_name :: "direction \<Rightarrow> string" where
  "direction_name RX = ''RX''"
| "direction_name TX = ''TX''"

fun transport_name :: "transport \<Rightarrow> string" where
  "transport_name RF = ''RF''"
| "transport_name PL = ''PL''"
| "transport_name RFSEC = ''RFSEC''"
| "transport_name RFCAM = ''RFCAM''"
| "transport_name TRANSPORT_UNKNOWN = ''UNKNOWN''"

fun command_name :: "command \<Rightarrow> string" where
  "command_name ON = ''ON''"
| "command_name OFF = ''OFF''"
| "command_name DIM = ''DIM''"
| "command_name BRIGHT = ''BRIGHT''"
| "command_name ALL_LIGHTS_ON = ''ALL_LIGHTS_ON''"
| "command_name ALL_LIGHTS_OFF = ''ALL_LIGHTS_OFF''"
| "command_name ALL_UNITS_OFF = ''ALL_UNITS_OFF''"
| "command_name STATUS_REQUEST = ''STATUS_REQUEST''"
| "command_name STATUS_ON = ''STATUS_ON''"
| "command_name STATUS_OFF = ''STATUS_OFF''"
| "command_name UNKNOWN = ''UNKNOWN''"

fun device_type_name :: "device_type \<Rightarrow> string" where
  "device_type_name SWITCH = ''SWITCH''"
| "device_type_name LIGHT = ''LIGHT''"
| "device_type_name CHIME = ''CHIME''"

fun bridge_command_name :: "bridge_command \<Rightarrow> string" where
  "bridge_command_name BC_STATUS = ''STATUS''"
| "bridge_command_name BC_SYNC = ''SYNC''"
| "bridge_command_name BC_REDISCOVER = ''REDISCOVER''"
| "bridge_command_name BC_PRUNE_DISCOVERY = ''PRUNE_DISCOVERY''"
| "bridge_command_name BC_RESET_DISCOVERY = ''RESET_DISCOVERY''"
| "bridge_command_name BC_PING = ''PING''"

subsection \<open>Configuration\<close>

record secondary_channel =
  sc_kind :: channel_kind
  sc_offset :: int
  sc_description :: string
  sc_enabled_by_default :: bool

record command_sequence =
  cs_name :: string
  cs_commands :: "command list"
  cs_repeatable :: bool
  cs_description :: string

record device_config =
  dc_address :: address
  dc_name :: string
  dc_entity_type :: device_type
  dc_profile :: "string option"
  dc_capabilities :: "device_capability set"
  dc_command_repeats :: int
  dc_command_repeat_delay_ms :: int
  dc_supported_commands :: "command set"
  dc_stateful :: bool
  dc_repeatable_actions :: "command set"
  dc_all_lights_on_response :: bool
  dc_all_lights_off_response :: bool
  dc_all_units_off_response :: bool
  dc_learned_addressing :: bool
  dc_secondary_channels :: "secondary_channel list"
  dc_exclusive_groups :: "string set"
  dc_operation_mode :: operation_mode
  dc_command_sequences :: "command_sequence list"
  dc_rf_identity :: rf_identity

text \<open>The field defaults of \<^verbatim>\<open>DeviceConfig\<close>, then its \<^verbatim>\<open>__post_init__\<close>.\<close>

definition device_config_defaults :: "address \<Rightarrow> string \<Rightarrow> device_config" where
  "device_config_defaults a n =
     \<lparr>dc_address = a, dc_name = n, dc_entity_type = SWITCH, dc_profile = None,
      dc_capabilities = {CAP_ON_OFF}, dc_command_repeats = 1, dc_command_repeat_delay_ms = 150,
      dc_supported_commands = {}, dc_stateful = True, dc_repeatable_actions = {},
      dc_all_lights_on_response = False, dc_all_lights_off_response = False,
      dc_all_units_off_response = True, dc_learned_addressing = False,
      dc_secondary_channels = [], dc_exclusive_groups = {},
      dc_operation_mode = MODE_CONTINUOUS, dc_command_sequences = [],
      dc_rf_identity = ID_STANDARD\<rparr>"

definition post_init :: "device_config \<Rightarrow> device_config" where
  "post_init d =
     (if dc_entity_type d = CHIME \<and> dc_supported_commands d = {} then
        d\<lparr>dc_capabilities := {CAP_ACTION}, dc_supported_commands := {ON},
          dc_stateful := False, dc_repeatable_actions := {ON},
          dc_operation_mode := MODE_ACTION\<rparr>
      else if dc_supported_commands d \<noteq> {} then d
      else if dc_entity_type d = LIGHT then
        d\<lparr>dc_supported_commands := {ON, OFF, DIM, BRIGHT},
          dc_capabilities := {CAP_ON_OFF, CAP_DIM},
          dc_all_lights_on_response := True, dc_all_lights_off_response := True\<rparr>
      else
        d\<lparr>dc_supported_commands := {ON, OFF}, dc_capabilities := {CAP_ON_OFF},
          dc_all_lights_on_response := False, dc_all_lights_off_response := False\<rparr>)"

text \<open>\<^verbatim>\<open>DeviceConfig(address=..., name=...)\<close>, the device of an unconfigured address.\<close>

definition default_device :: "address \<Rightarrow> string \<Rightarrow> device_config" where
  "default_device a n = post_init (device_config_defaults a n)"

subsection \<open>Runtime state\<close>

record device_state =
  ds_address :: address
  ds_current_state :: "command option"
  ds_previous_state :: "command option"
  ds_last_seen :: "datetime option"
  ds_last_changed :: "datetime option"
  ds_pending_command :: "command option"
  ds_discovered :: bool
  ds_available :: bool

definition new_device_state :: "address \<Rightarrow> device_state" where
  "new_device_state a =
     \<lparr>ds_address = a, ds_current_state = None, ds_previous_state = None, ds_last_seen = None,
      ds_last_changed = None, ds_pending_command = None, ds_discovered = False,
      ds_available = False\<rparr>"

subsection \<open>Events\<close>

record device_event =
  de_timestamp :: datetime
  de_direction :: direction
  de_transport :: transport
  de_command :: command
  de_address :: address

record house_event =
  he_timestamp :: datetime
  he_direction :: direction
  he_transport :: transport
  he_command :: command
  he_house :: string

record unknown_event =
  ue_timestamp :: datetime
  ue_raw :: string

record status_snapshot =
  ss_devices :: "(address \<times> command) list"
  ss_completed :: bool

definition empty_snapshot :: status_snapshot where
  "empty_snapshot = \<lparr>ss_devices = [], ss_completed = False\<rparr>"

datatype event =
    DeviceEvent device_event
  | HouseEvent house_event
  | StatusSnapshot status_snapshot
  | UnknownEvent unknown_event

record mochad_diagnostics =
  md_daemon :: json
  md_version :: json
  md_upstream_base :: json
  md_diagnostics :: json
  md_json :: json
  md_single_line :: json
  md_raw_data :: json
  md_commands :: "string list"
  md_legacy_commands :: "string list"
  md_uptime_seconds :: json
  md_usb_connected :: json
  md_controller :: json
  md_endpoints_ready :: json
  md_transfers_ready :: json
  md_clients_total :: json
  md_listeners :: json
  md_last_updated :: "string option"

text \<open>
  The fields of \<^verbatim>\<open>MochadDiagnostics\<close> are assigned from a JSON document without a type check, so they
  hold JSON values; \<^verbatim>\<open>None\<close> is \<open>JNull\<close>.
\<close>

definition new_diagnostics :: mochad_diagnostics where
  "new_diagnostics =
     \<lparr>md_daemon = JNull, md_version = JNull, md_upstream_base = JNull, md_diagnostics = JNull,
      md_json = JNull, md_single_line = JNull, md_raw_data = JNull, md_commands = [],
      md_legacy_commands = [], md_uptime_seconds = JNull, md_usb_connected = JNull,
      md_controller = JNull, md_endpoints_ready = JNull, md_transfers_ready = JNull,
      md_clients_total = JNull, md_listeners = JObj [], md_last_updated = None\<rparr>"

record bridge_statistics =
  st_events_received :: nat
  st_commands_sent :: nat
  st_duplicates :: nat
  st_state_changes :: nat
  st_mqtt_connections :: nat
  st_mqtt_disconnects :: nat
  st_mqtt_reconnects :: nat
  st_mochad_reconnects :: nat
  st_discovery_messages :: nat
  st_status_syncs :: nat
  st_unknown_packets :: nat

definition zero_statistics :: bridge_statistics where
  "zero_statistics =
     \<lparr>st_events_received = 0, st_commands_sent = 0, st_duplicates = 0, st_state_changes = 0,
      st_mqtt_connections = 0, st_mqtt_disconnects = 0, st_mqtt_reconnects = 0,
      st_mochad_reconnects = 0, st_discovery_messages = 0, st_status_syncs = 0,
      st_unknown_packets = 0\<rparr>"

subsection \<open>Messages and actions\<close>

record discovery_message =
  dm_topic :: string
  dm_payload :: json
  dm_retain :: bool

datatype bridge_action =
    PublishStateAction address command bool
  | PublishEventAction device_event
  | PublishCommandEventAction address "(string \<times> json) list" bool
  | PublishAttributesAction address "(string \<times> json) list" bool
  | PublishDiscoveryAction address
  | PublishAvailabilityAction bool
  | PublishStatusAction string bool bool bool
  | PublishBridgeResponseAction "bridge_command option" bool string "(string \<times> json) list" bool
  | SendMochadCommandAction string
  | SendDeviceCommandAction address command
  | RequestStatusAction
  | LogUnknownEventAction unknown_event

subsection \<open>Facts about device configurations\<close>

lemma post_init_idem: "post_init (post_init d) = post_init d"
  by (simp add: post_init_def)

lemma post_init_supported_ne: "dc_supported_commands (post_init d) \<noteq> {}"
  by (simp add: post_init_def)

lemma post_init_address [simp]: "dc_address (post_init d) = dc_address d"
  by (simp add: post_init_def)

lemma post_init_name [simp]: "dc_name (post_init d) = dc_name d"
  by (simp add: post_init_def)

lemma post_init_repeats [simp]: "dc_command_repeats (post_init d) = dc_command_repeats d"
  by (simp add: post_init_def)

lemma post_init_entity_type [simp]: "dc_entity_type (post_init d) = dc_entity_type d"
  by (simp add: post_init_def)

lemma default_device_simps [simp]:
  "dc_address (default_device a n) = a" "dc_name (default_device a n) = n"
  "dc_entity_type (default_device a n) = SWITCH"
  "dc_supported_commands (default_device a n) = {ON, OFF}"
  "dc_stateful (default_device a n)" "dc_command_repeats (default_device a n) = 1"
  "dc_all_units_off_response (default_device a n)"
  "\<not> dc_all_lights_on_response (default_device a n)"
  "\<not> dc_all_lights_off_response (default_device a n)"
  "dc_command_repeat_delay_ms (default_device a n) = 150"
  by (simp_all add: default_device_def device_config_defaults_def post_init_def)

lemma new_device_state_simps [simp]:
  "ds_address (new_device_state a) = a" "ds_current_state (new_device_state a) = None"
  "ds_pending_command (new_device_state a) = None"
  "\<not> ds_discovered (new_device_state a)" "\<not> ds_available (new_device_state a)"
  by (simp_all add: new_device_state_def)

end
