(* ===== verification/PyRegex.thy ===== *)
theory PyRegex
  imports Prelude
begin

section \<open>Regular expressions of Python's \<^verbatim>\<open>re\<close> module\<close>

text \<open>
  The source parses every mochad line with compiled patterns (\<^verbatim>\<open>protocol/regex.py\<close>,
  \<^verbatim>\<open>protocol/validation.py\<close>, \<^verbatim>\<open>config.py\<close>, \<^verbatim>\<open>topics.py\<close>).  This theory models the part of \<^verbatim>\<open>re\<close>
  those patterns use: character classes, concatenation, ordered alternation, greedy and lazy
  repetition, named groups and the end anchor \<^verbatim>\<open>$\<close>.

  \<open>ms r s\<close> lists, in the order in which the backtracking matcher of \<^verbatim>\<open>re\<close> tries them, the matches
  of \<open>r\<close> at the beginning of \<open>s\<close>: what is left of the input and the groups captured.
  \<^verbatim>\<open>pattern.match(s)\<close> is its head, \<^verbatim>\<open>pattern.fullmatch(s)\<close> the first entry that leaves nothing.  A
  repetition is bounded by the length of the input, which is enough because an iteration that
  consumes nothing is never repeated; \<open>ms_iff_rmatch\<close> shows the matcher finds exactly the
  matches of the declarative relation \<open>rmatch\<close>, in which there is no bound.
\<close>

type_synonym captures = "(string \<times> string) list"
type_synonym matches = "(string \<times> captures) list"

datatype rx =
    Eps
  | Cls "char \<Rightarrow> bool"
  | Cat rx rx
  | Alt rx rx
  | Star rx
  | LazyStar rx
  | Group string rx
  | Eol

definition prepend :: "captures \<Rightarrow> matches \<Rightarrow> matches" where
  "prepend e xs = map (\<lambda>(s, e'). (s, e @ e')) xs"

definition chain :: "matches \<Rightarrow> (string \<Rightarrow> matches) \<Rightarrow> matches" where
  "chain xs m = concat (map (\<lambda>(s, e). prepend e (m s)) xs)"

fun star_ms :: "bool \<Rightarrow> nat \<Rightarrow> (string \<Rightarrow> matches) \<Rightarrow> string \<Rightarrow> matches" where
  "star_ms greedy 0 m s = [(s, [])]"
| "star_ms greedy (Suc n) m s =
     (let more = chain (filter (\<lambda>(s', e). length s' < length s) (m s)) (star_ms greedy n m)
      in if greedy then more @ [(s, [])] else (s, []) # more)"

primrec ms :: "rx \<Rightarrow> string \<Rightarrow> matches" where
  "ms Eps s = [(s, [])]"
| "ms (Cls P) s = (case s of [] \<Rightarrow> [] | c # cs \<Rightarrow> if P c then [(cs, [])] else [])"
| "ms (Cat r1 r2) s = chain (ms r1 s) (ms r2)"
| "ms (Alt r1 r2) s = ms r1 s @ ms r2 s"
| "ms (Star r) s = star_ms True (length s) (ms r) s"
| "ms (LazyStar r) s = star_ms False (length s) (ms r) s"
| "ms (Group n r) s =
     map (\<lambda>(s', e). (s', (n, take (length s - length s') s) # e)) (ms r s)"
| "ms Eol s = (if s = [] \<or> s = [CHR 0x0A] then [(s, [])] else [])"

definition re_match :: "rx \<Rightarrow> string \<Rightarrow> captures option" where
  "re_match r s = (case ms r s of [] \<Rightarrow> None | (s', e) # _ \<Rightarrow> Some e)"

definition re_fullmatch :: "rx \<Rightarrow> string \<Rightarrow> captures option" where
  "re_fullmatch r s = (case filter (\<lambda>(s', e). s' = []) (ms r s) of
     [] \<Rightarrow> None | (s', e) # _ \<Rightarrow> Some e)"

text \<open>The group a match binds to a name; every name occurs once in a pattern of the source.\<close>

definition group :: "captures \<Rightarrow> string \<Rightarrow> string" where
  "group e n = (case map_of e n of None \<Rightarrow> [] | Some t \<Rightarrow> t)"

subsection \<open>Pattern building blocks\<close>

fun seqs :: "rx list \<Rightarrow> rx" where
  "seqs [] = Eps"
| "seqs [r] = r"
| "seqs (r # q # rs) = Cat r (seqs (q # rs))"

definition plus :: "rx \<Rightarrow> rx" where
  "plus r = Cat r (Star r)"

definition lazy_plus :: "rx \<Rightarrow> rx" where
  "lazy_plus r = Cat r (LazyStar r)"

definition chr_range :: "char \<Rightarrow> char \<Rightarrow> char \<Rightarrow> bool" where
  "chr_range a b c \<longleftrightarrow> a \<le> c \<and> c \<le> b"

text \<open>A class or a literal under \<^verbatim>\<open>re.IGNORECASE\<close>.\<close>

definition ci_range :: "char \<Rightarrow> char \<Rightarrow> char \<Rightarrow> bool" where
  "ci_range a b c \<longleftrightarrow> chr_range (upper_char a) (upper_char b) (upper_char c)"

definition ci_eq :: "char \<Rightarrow> char \<Rightarrow> bool" where
  "ci_eq a c \<longleftrightarrow> upper_char c = upper_char a"

definition ci_word :: "string \<Rightarrow> rx" where
  "ci_word w = seqs (map (\<lambda>a. Cls (ci_eq a)) w)"

definition word :: "string \<Rightarrow> rx" where
  "word w = seqs (map (\<lambda>a. Cls (\<lambda>c. c = a)) w)"

definition rx_digit :: rx where "rx_digit = Cls is_digit"
definition rx_space :: rx where "rx_space = Cls is_space"
definition rx_dot :: rx where "rx_dot = Cls (\<lambda>c. c \<noteq> CHR 0x0A)"

subsection \<open>The declarative semantics\<close>

inductive rmatch :: "rx \<Rightarrow> string \<Rightarrow> string \<Rightarrow> captures \<Rightarrow> bool" where
  rm_Eps: "rmatch Eps s s []"
| rm_Cls: "P c \<Longrightarrow> rmatch (Cls P) (c # s) s []"
| rm_Cat: "rmatch r1 s s1 e1 \<Longrightarrow> rmatch r2 s1 s2 e2 \<Longrightarrow> rmatch (Cat r1 r2) s s2 (e1 @ e2)"
| rm_AltL: "rmatch r1 s s' e \<Longrightarrow> rmatch (Alt r1 r2) s s' e"
| rm_AltR: "rmatch r2 s s' e \<Longrightarrow> rmatch (Alt r1 r2) s s' e"
| rm_Star0: "rmatch (Star r) s s []"
| rm_Star: "rmatch r s s1 e1 \<Longrightarrow> length s1 < length s \<Longrightarrow> rmatch (Star r) s1 s2 e2
    \<Longrightarrow> rmatch (Star r) s s2 (e1 @ e2)"
| rm_Lazy0: "rmatch (LazyStar r) s s []"
| rm_Lazy: "rmatch r s s1 e1 \<Longrightarrow> length s1 < length s \<Longrightarrow> rmatch (LazyStar r) s1 s2 e2
    \<Longrightarrow> rmatch (LazyStar r) s s2 (e1 @ e2)"
| rm_Group: "rmatch r s s' e
    \<Longrightarrow> rmatch (Group n r) s s' ((n, take (length s - length s') s) # e)"
| rm_Eol: "s = [] \<or> s = [CHR 0x0A] \<Longrightarrow> rmatch Eol s s []"

inductive_simps rmatch_simps:
  "rmatch Eps s t cs" "rmatch (Cls P) s t cs" "rmatch (Cat r1 r2) s t cs"
  "rmatch (Alt r1 r2) s t cs" "rmatch (Group n r) s t cs" "rmatch Eol s t cs"

inductive_simps rmatch_Star: "rmatch (Star r) s t cs"
inductive_simps rmatch_Lazy: "rmatch (LazyStar r) s t cs"

lemma rmatch_suffix: "rmatch r s s' e \<Longrightarrow> suffix s' s"
  by (induction rule: rmatch.induct) (auto intro: suffix_order.trans suffix_ConsI)

lemma in_chain:
  "(s', e) \<in> set (chain xs m) \<longleftrightarrow>
     (\<exists>s1 e1 e2. (s1, e1) \<in> set xs \<and> (s', e2) \<in> set (m s1) \<and> e = e1 @ e2)"
  by (fastforce simp: chain_def prepend_def)

lemma in_star_ms_Suc:
  "(s', e) \<in> set (star_ms g (Suc n) m s) \<longleftrightarrow> (s' = s \<and> e = []) \<or>
     (\<exists>s1 e1 e2. (s1, e1) \<in> set (m s) \<and> length s1 < length s \<and>
        (s', e2) \<in> set (star_ms g n m s1) \<and> e = e1 @ e2)"
  by (cases g) (auto simp: Let_def in_chain)

text \<open>With fuel for every character of the input the bounded repetition is the unbounded one.\<close>

lemma star_ms_iff:
  assumes "\<And>s s' e. (s', e) \<in> set (ms r s) \<longleftrightarrow> rmatch r s s' e" and "length s \<le> n"
  shows "(s', e) \<in> set (star_ms True n (ms r) s) \<longleftrightarrow> rmatch (Star r) s s' e"
    and "(s', e) \<in> set (star_ms False n (ms r) s) \<longleftrightarrow> rmatch (LazyStar r) s s' e"
  using assms(2)
proof (induction n arbitrary: s s' e)
  case 0
  { case 1 then show ?case by (auto simp: rmatch_Star [of r "[]"]) next
    case 2 then show ?case by (auto simp: rmatch_Lazy [of r "[]"]) }
next
  case (Suc n)
  { case 1
    then have "\<And>s1 s' e. length s1 < length s \<Longrightarrow>
        (s', e) \<in> set (star_ms True n (ms r) s1) \<longleftrightarrow> rmatch (Star r) s1 s' e"
      using Suc.IH(1) by simp
    then show ?case
      by (subst rmatch_Star, unfold in_star_ms_Suc assms(1)) blast
  next
    case 2
    then have "\<And>s1 s' e. length s1 < length s \<Longrightarrow>
        (s', e) \<in> set (star_ms False n (ms r) s1) \<longleftrightarrow> rmatch (LazyStar r) s1 s' e"
      using Suc.IH(2) by simp
    then show ?case
      by (subst rmatch_Lazy, unfold in_star_ms_Suc assms(1)) blast }
qed

lemma ms_iff_rmatch: "(s', e) \<in> set (ms r s) \<longleftrightarrow> rmatch r s s' e"
proof (induction r arbitrary: s s' e)
  case (Cat r1 r2)
  then show ?case by (fastforce simp: in_chain rmatch_simps)
next
  case (Star r)
  then show ?case using star_ms_iff(1) [of r s "length s"] by simp
next
  case (LazyStar r)
  then show ?case using star_ms_iff(2) [of r s "length s"] by simp
next
  case (Group n r)
  have "(s', e) \<in> set (ms (Group n r) s) \<longleftrightarrow>
      (\<exists>e'. (s', e') \<in> set (ms r s) \<and> e = (n, take (length s - length s') s) # e')"
    by auto
  then show ?case unfolding Group by (auto simp: rmatch_simps)
qed (auto simp: rmatch_simps split: list.splits)

lemma ms_suffix: "(s', e) \<in> set (ms r s) \<Longrightarrow> suffix s' s"
  by (simp add: ms_iff_rmatch rmatch_suffix)

lemma re_match_None: "re_match r s = None \<longleftrightarrow> (\<nexists>s' e. rmatch r s s' e)"
proof -
  have "re_match r s = None \<longleftrightarrow> ms r s = []"
    by (simp add: re_match_def split: list.splits prod.splits)
  also have "\<dots> \<longleftrightarrow> (\<nexists>s' e. (s', e) \<in> set (ms r s))"
    by (cases "ms r s") auto
  finally show ?thesis by (simp add: ms_iff_rmatch)
qed

lemma re_match_Some: "re_match r s = Some e \<Longrightarrow> \<exists>s'. rmatch r s s' e"
  by (auto simp: re_match_def ms_iff_rmatch [symmetric] split: list.splits)

lemma re_fullmatch_None: "re_fullmatch r s = None \<longleftrightarrow> (\<nexists>e. rmatch r s [] e)"
proof -
  have "re_fullmatch r s = None \<longleftrightarrow> filter (\<lambda>(s', e). s' = []) (ms r s) = []"
    by (simp add: re_fullmatch_def split: list.splits prod.splits)
  also have "\<dots> \<longleftrightarrow> (\<nexists>e. ([], e) \<in> set (ms r s))"
    by (auto simp: filter_empty_conv)
  finally show ?thesis by (simp add: ms_iff_rmatch)
qed

lemma re_fullmatch_Some: "re_fullmatch r s = Some e \<Longrightarrow> rmatch r s [] e"
proof -
  assume "re_fullmatch r s = Some e"
  then obtain s' xs where "filter (\<lambda>(s', e). s' = []) (ms r s) = (s', e) # xs"
    by (auto simp: re_fullmatch_def split: list.splits)
  then have "(s', e) \<in> set (filter (\<lambda>(s', e). s' = []) (ms r s))" by simp
  then show ?thesis by (auto simp: ms_iff_rmatch)
qed

text \<open>A pattern whose every match captures the same groups gives exactly those.\<close>

lemma re_match_unique:
  assumes "rmatch r s s' e" and "\<And>s'' e'. rmatch r s s'' e' \<Longrightarrow> e' = e"
  shows "re_match r s = Some e"
proof (cases "re_match r s")
  case None
  with assms(1) show ?thesis by (auto simp: re_match_None)
next
  case (Some e')
  then show ?thesis using re_match_Some assms(2) by blast
qed

subsection \<open>Symbolic evaluation\<close>

text \<open>
  Equations that run a right-nested concatenation over an input whose shape is known, used to
  compute what a pattern captures on a rendered line.
\<close>

lemma prepend_Nil [simp]: "prepend [] xs = xs"
  by (induction xs) (auto simp: prepend_def)

lemma chain_simps [simp]:
  "chain [] m = []"
  "chain ((s, e) # xs) m = prepend e (m s) @ chain xs m"
  by (simp_all add: chain_def)

lemma prepend_simps [simp]:
  "prepend e [] = []"
  "prepend e ((s, e') # xs) = (s, e @ e') # prepend e xs"
  by (simp_all add: prepend_def)

lemma chain_append [simp]: "chain (xs @ ys) m = chain xs m @ chain ys m"
  by (simp add: chain_def)

lemma prepend_append [simp]: "prepend e (xs @ ys) = prepend e xs @ prepend e ys"
  by (simp add: prepend_def)

lemma prepend_prepend [simp]: "prepend e (prepend e' xs) = prepend (e @ e') xs"
  by (induction xs) (auto simp: prepend_def)

lemma chain_prepend: "chain (prepend e xs) m = prepend e (chain xs m)"
  by (induction xs) (auto simp: prepend_def chain_def)

lemma chain_chain: "chain (chain xs m) n = chain xs (\<lambda>s. chain (m s) n)"
  by (induction xs) (auto simp: chain_prepend)

lemma ms_Cat_fun: "ms (Cat q r) = (\<lambda>s. chain (ms q s) (ms r))"
  by (rule ext) simp

lemma ms_Cat_assoc: "ms (Cat (Cat p q) r) s = ms (Cat p (Cat q r)) s"
  by (simp add: chain_chain ms_Cat_fun)

lemma ms_Cat_Eps: "ms (Cat Eps r) s = ms r s"
  by simp

lemma ms_Cat_Cls:
  "ms (Cat (Cls P) r) [] = []"
  "ms (Cat (Cls P) r) (c # s) = (if P c then ms r s else [])"
  by simp_all

lemma star_cls_stop: "s = [] \<or> \<not> P (hd s) \<Longrightarrow> star_ms g n (ms (Cls P)) s = [(s, [])]"
  by (cases n; cases s; cases g) auto

text \<open>\<^verbatim>\<open>\s+\<close> before a character that is not a space takes exactly the one space.\<close>

lemma ms_plus_one:
  "P c \<Longrightarrow> s = [] \<or> \<not> P (hd s) \<Longrightarrow> ms (Cat (plus (Cls P)) r) (c # s) = ms r s"
  by (simp add: plus_def star_cls_stop)

lemma ms_plus_fail: "s = [] \<or> \<not> P (hd s) \<Longrightarrow> ms (Cat (plus (Cls P)) r) s = []"
  by (cases s) (auto simp: plus_def)

lemma seqs_Cons: "rs \<noteq> [] \<Longrightarrow> seqs (r # rs) = Cat r (seqs rs)"
  by (cases rs) auto

lemma ms_seqs_Cons: "ms (seqs (r # rs)) s = ms (Cat r (seqs rs)) s"
proof (cases rs)
  case Nil
  have "chain xs (ms Eps) = xs" for xs
    by (induction xs) (auto simp: prepend_def)
  with Nil show ?thesis by simp
qed simp

lemma ms_Cat_seqs_Cons: "ms (Cat (seqs (r # rs)) q) s = ms (Cat r (Cat (seqs rs) q)) s"
proof -
  have "ms (Cat (seqs (r # rs)) q) s = chain (ms (Cat r (seqs rs)) s) (ms q)"
    using ms_seqs_Cons [of r rs s] by simp
  also have "\<dots> = ms (Cat r (Cat (seqs rs) q)) s"
    by (simp add: chain_chain ms_Cat_fun)
  finally show ?thesis .
qed

text \<open>A literal word consumes itself and nothing else.\<close>

lemma ms_word: "ms (Cat (word w) r) (w @ s) = ms r s"
  unfolding word_def
proof (induction w)
  case (Cons a w)
  then show ?case
    by (simp only: list.map ms_Cat_seqs_Cons append_Cons) (simp del: seqs.simps)
qed simp

lemma ms_ci_word: "ms (Cat (ci_word w) r) (w @ s) = ms r s"
  unfolding ci_word_def
proof (induction w)
  case (Cons a w)
  then show ?case
    by (simp only: list.map ms_Cat_seqs_Cons append_Cons) (simp add: ci_eq_def [of a a] del: seqs.simps)
qed simp

lemma ms_ci_word_fail:
  "w \<noteq> [] \<Longrightarrow> s = [] \<or> upper_char (hd s) \<noteq> upper_char (hd w) \<Longrightarrow> ms (Cat (ci_word w) r) s = []"
proof -
  assume "w \<noteq> []" and *: "s = [] \<or> upper_char (hd s) \<noteq> upper_char (hd w)"
  then obtain a v where w: "w = a # v" by (cases w) auto
  have "ms (Cat (ci_word w) r) s = ms (Cat (Cls (ci_eq a)) (Cat (ci_word v) r)) s"
    unfolding w ci_word_def by (simp only: list.map ms_Cat_seqs_Cons)
  then show ?thesis using * w by (cases s) (auto simp: ci_eq_def)
qed

text \<open>
  \<^verbatim>\<open>(?P<n>.+?)$\<close> and \<^verbatim>\<open>(?P<n>.+)$\<close> on a non-empty text without a line break capture all of it.
\<close>

lemma star_dot_Eol:
  assumes "\<forall>c \<in> set s. c \<noteq> CHR 0x0A" "length s \<le> n"
  shows "filter (\<lambda>(s', e). s' = [] \<or> s' = [CHR 0x0A]) (star_ms g n (ms rx_dot) s) = [([], [])]"
  using assms
proof (induction n arbitrary: s)
  case (Suc n)
  show ?case
  proof (cases s)
    case (Cons c t)
    have "chain [(t, [])] (star_ms g n (ms rx_dot)) = star_ms g n (ms rx_dot) t" by simp
    with Cons Suc show ?thesis by (cases g) (auto simp: rx_dot_def Let_def)
  qed (cases g; simp add: rx_dot_def)
qed simp


subsection \<open>What the building blocks match\<close>

lemma rmatch_Star_Cls:
  "rmatch (Star (Cls P)) s s' e \<longleftrightarrow> e = [] \<and> (\<exists>u. s = u @ s' \<and> (\<forall>c \<in> set u. P c))"
  (is "?L s e = ?R s e")
proof (induction s arbitrary: e)
  case Nil
  then show ?case by (subst rmatch_Star) auto
next
  case (Cons c s)
  have "?L (c # s) e \<longleftrightarrow> (s' = c # s \<and> e = []) \<or> (P c \<and> ?L s e)"
    by (subst rmatch_Star) (auto simp: rmatch_simps)
  also have "\<dots> \<longleftrightarrow> ?R (c # s) e"
    unfolding Cons.IH by (auto simp: Cons_eq_append_conv)
  finally show ?case .
qed

lemma rmatch_Lazy_Cls:
  "rmatch (LazyStar (Cls P)) s s' e \<longleftrightarrow> e = [] \<and> (\<exists>u. s = u @ s' \<and> (\<forall>c \<in> set u. P c))"
  (is "?L s e = ?R s e")
proof (induction s arbitrary: e)
  case Nil
  then show ?case by (subst rmatch_Lazy) auto
next
  case (Cons c s)
  have "?L (c # s) e \<longleftrightarrow> (s' = c # s \<and> e = []) \<or> (P c \<and> ?L s e)"
    by (subst rmatch_Lazy) (auto simp: rmatch_simps)
  also have "\<dots> \<longleftrightarrow> ?R (c # s) e"
    unfolding Cons.IH by (auto simp: Cons_eq_append_conv)
  finally show ?case .
qed

lemma rmatch_plus_Cls:
  "rmatch (plus (Cls P)) s s' e \<longleftrightarrow>
     e = [] \<and> (\<exists>c u. s = c # u @ s' \<and> (\<forall>c \<in> set (c # u). P c))"
  by (auto simp: plus_def rmatch_simps rmatch_Star_Cls)

lemma rmatch_lazy_plus_Cls:
  "rmatch (lazy_plus (Cls P)) s s' e \<longleftrightarrow>
     e = [] \<and> (\<exists>c u. s = c # u @ s' \<and> (\<forall>c \<in> set (c # u). P c))"
  by (auto simp: lazy_plus_def rmatch_simps rmatch_Lazy_Cls)

lemma rmatch_seqs_Cons: "rmatch (seqs (r # rs)) s s' e \<longleftrightarrow> rmatch (Cat r (seqs rs)) s s' e"
  unfolding ms_iff_rmatch [symmetric] ms_seqs_Cons ..

lemma rmatch_seqs_append:
  "rs \<noteq> [] \<Longrightarrow> rmatch (seqs (qs @ rs)) s s' e \<longleftrightarrow> rmatch (Cat (seqs qs) (seqs rs)) s s' e"
proof (induction qs arbitrary: s e)
  case (Cons q qs)
  have "rmatch (seqs ((q # qs) @ rs)) s s' e \<longleftrightarrow> rmatch (Cat q (seqs (qs @ rs))) s s' e"
    by (simp add: rmatch_seqs_Cons)
  also have "\<dots> \<longleftrightarrow> rmatch (Cat q (Cat (seqs qs) (seqs rs))) s s' e"
    using Cons by (simp add: rmatch_simps)
  also have "\<dots> \<longleftrightarrow> rmatch (Cat (seqs (q # qs)) (seqs rs)) s s' e"
    unfolding ms_iff_rmatch [symmetric] ms_Cat_seqs_Cons ..
  finally show ?case .
qed (auto simp: rmatch_simps)

text \<open>Pieces that capture nothing, as the fixed part of a pattern in front of its first group.\<close>

definition nocap :: "rx \<Rightarrow> bool" where
  "nocap r \<longleftrightarrow> (\<forall>s s' e. rmatch r s s' e \<longrightarrow> e = [])"

lemma nocap_seqs: "\<forall>r \<in> set rs. nocap r \<Longrightarrow> nocap (seqs rs)"
proof (induction rs)
  case (Cons r rs)
  then show ?case by (fastforce simp: nocap_def rmatch_seqs_Cons rmatch_simps)
qed (auto simp: nocap_def rmatch_simps)

lemma rmatch_prefix:
  assumes "\<forall>q \<in> set qs. nocap q" "rs \<noteq> []" "rmatch (seqs (qs @ rs)) s s' e"
  shows "\<exists>s1. suffix s1 s \<and> rmatch (seqs rs) s1 s' e"
proof -
  from assms(3) obtain s1 e1 e2 where *: "rmatch (seqs qs) s s1 e1" "rmatch (seqs rs) s1 s' e2"
    "e = e1 @ e2"
    by (auto simp: rmatch_seqs_append [OF assms(2)] rmatch_simps)
  moreover have "e1 = []" using nocap_seqs [OF assms(1)] *(1) by (simp add: nocap_def)
  ultimately show ?thesis using rmatch_suffix [OF *(1)] by auto
qed

lemma rmatch_ci_word:
  "rmatch (ci_word w) s s' e \<longleftrightarrow> e = [] \<and> (\<exists>v. s = v @ s' \<and> upper v = upper w)"
proof (induction w arbitrary: s e)
  case Nil
  then show ?case by (auto simp: ci_word_def rmatch_simps upper_def)
next
  case (Cons a w)
  have "rmatch (ci_word (a # w)) s s' e \<longleftrightarrow> rmatch (Cat (Cls (ci_eq a)) (ci_word w)) s s' e"
    unfolding ci_word_def list.map rmatch_seqs_Cons ..
  also have "\<dots> \<longleftrightarrow> e = [] \<and> (\<exists>c t. s = c # t \<and> ci_eq a c \<and> (\<exists>v. t = v @ s' \<and> upper v = upper w))"
    by (auto simp: rmatch_simps Cons.IH)
  also have "\<dots> \<longleftrightarrow> e = [] \<and> (\<exists>v. s = v @ s' \<and> upper v = upper (a # w))"
    by (auto simp: upper_def ci_eq_def map_eq_Cons_conv)
  finally show ?case .
qed

text \<open>
  A named group right before \<^verbatim>\<open>$\<close>, on an input without a line break: every match captures the
  whole rest of the input.
\<close>

lemma ms_Group_Eol:
  assumes "CHR 0x0A \<notin> set s"
  shows "ms (Cat (Group n q) Eol) s =
     map (\<lambda>(s', e). ([], (n, s) # e)) (filter (\<lambda>(s', e). s' = []) (ms q s))"
proof -
  have "set xs \<subseteq> set (ms q s) \<Longrightarrow>
      chain (map (\<lambda>(s', e). (s', (n, take (length s - length s') s) # e)) xs) (ms Eol) =
      map (\<lambda>(s', e). ([], (n, s) # e)) (filter (\<lambda>(s', e). s' = []) xs)" for xs
  proof (induction xs)
    case (Cons x xs)
    obtain s' e where x: "x = (s', e)" by (cases x)
    with Cons.prems have "suffix s' s" using ms_suffix by fastforce
    then have "s' \<noteq> [CHR 0x0A]"
      using assms by (auto simp: suffix_def)
    with Cons x show ?case by auto
  qed simp
  then show ?thesis by simp
qed

lemma Group_Eol_match:
  assumes "CHR 0x0A \<notin> set s" and "rmatch q s [] []"
    and "\<And>s' e. rmatch q s s' e \<Longrightarrow> e = []"
  shows "\<exists>xs. ms (Cat (Group n q) Eol) s = ([], [(n, s)]) # xs"
proof -
  let ?xs = "filter (\<lambda>(s', e). s' = []) (ms q s)"
  from assms(2) have "([], []) \<in> set ?xs" by (simp add: ms_iff_rmatch)
  then obtain x xs where x: "?xs = x # xs" by (cases ?xs) auto
  then have "x \<in> set ?xs" by simp
  then have "x = ([], [])" using assms(3) by (auto simp: ms_iff_rmatch)
  with x show ?thesis unfolding ms_Group_Eol [OF assms(1)] by simp
qed


lemma nocap_simps [simp]:
  "nocap (Cls P)" "nocap (plus (Cls P))" "nocap (ci_word w)" "nocap Eol"
  "nocap rx_digit" "nocap (plus rx_digit)" "nocap (plus rx_space)"
  by (auto simp: nocap_def rmatch_simps rmatch_plus_Cls rmatch_ci_word rx_digit_def rx_space_def)

end
