(* ===== verification/Validation.thy ===== *)
theory Validation
  imports Models PyRegex
begin

section \<open>Address validation (\<^verbatim>\<open>protocol/validation.py\<close>, \<^verbatim>\<open>X10Address\<close>)\<close>

text \<open>
  House codes \<^verbatim>\<open>A\<close>..\<^verbatim>\<open>P\<close>, units 1..16 and their normal forms.  The source normalises an address in
  four places with four patterns: \<^verbatim>\<open>protocol/validation.py\<close>, \<^verbatim>\<open>X10Address.parse\<close> in \<^verbatim>\<open>models.py\<close>,
  \<^verbatim>\<open>Topics._address\<close> and \<^verbatim>\<open>config._normalize_address\<close>.  The interface they share is the locale
  \<open>address_normaliser\<close>; the first two are interpreted here, the others in their own theories.
\<close>

subsection \<open>Definitions\<close>

definition MIN_UNIT :: int where "MIN_UNIT = 1"
definition MAX_UNIT :: int where "MAX_UNIT = 16"

text \<open>\<^verbatim>\<open>(?:[1-9]|1[0-6])\<close>\<close>

definition unit_rx :: rx where
  "unit_rx = Alt (Cls (chr_range CHR ''1'' CHR ''9''))
     (Cat (Cls (\<lambda>c. c = CHR ''1'')) (Cls (chr_range CHR ''0'' CHR ''6'')))"

definition ADDRESS_RE :: rx where
  "ADDRESS_RE = seqs
     [Group ''house'' (Cls (\<lambda>c. chr_range CHR ''A'' CHR ''P'' c \<or> chr_range CHR ''a'' CHR ''p'' c)),
      Group ''unit'' unit_rx, Eol]"

definition HOUSE_RE :: rx where
  "HOUSE_RE = seqs
     [Cls (\<lambda>c. chr_range CHR ''A'' CHR ''P'' c \<or> chr_range CHR ''a'' CHR ''p'' c), Eol]"

definition normalize_house :: "string \<Rightarrow> string result" where
  "normalize_house h =
     (let house = upper (strip h) in
      if re_fullmatch HOUSE_RE house = None
      then Inl (ValueError (''Invalid house code '' @ quoted house @ ''.''))
      else Inr house)"

definition normalize_address :: "string \<Rightarrow> string result" where
  "normalize_address a =
     (let address = upper (strip a) in
      case re_fullmatch ADDRESS_RE address of
        None \<Rightarrow> Inl (ValueError (''Invalid X10 address '' @ quoted address @ ''.''))
      | Some m \<Rightarrow>
          let house = group m ''house''; unit = digits_val (group m ''unit'')
          in Inr (house @ nat_str unit))"

definition is_valid_house :: "string \<Rightarrow> bool" where
  "is_valid_house h = (case normalize_house h of Inl _ \<Rightarrow> False | Inr _ \<Rightarrow> True)"

definition is_valid_address :: "string \<Rightarrow> bool" where
  "is_valid_address a = (case normalize_address a of Inl _ \<Rightarrow> False | Inr _ \<Rightarrow> True)"

definition split_address :: "string \<Rightarrow> (string \<times> int) result" where
  "split_address a = rbind (normalize_address a)
     (\<lambda>address. Inr (take 1 address, int (digits_val (drop 1 address))))"

definition join_address :: "string \<Rightarrow> int \<Rightarrow> string result" where
  "join_address h u = rbind (normalize_house h)
     (\<lambda>house. if u < MIN_UNIT \<or> u > MAX_UNIT
              then Inl (ValueError (''Invalid unit '' @ quoted (int_str u) @ ''.''))
              else Inr (house @ int_str u))"

definition normalize_token :: "string \<Rightarrow> string" where
  "normalize_token v = join '' '' (split_ws (upper (strip v)))"

text \<open>\<^verbatim>\<open>X10Address\<close>: the checks of its \<^verbatim>\<open>__post_init__\<close>, its \<^verbatim>\<open>parse\<close> and its text.\<close>

record x10_address =
  xa_house :: string
  xa_unit :: int

definition x10_address_new :: "string \<Rightarrow> int \<Rightarrow> x10_address result" where
  "x10_address_new h u =
     (let house = upper h in
      if length house \<noteq> 1 then Inl (ValueError (''Invalid house '' @ quoted house @ ''.''))
      else if house < ''A'' \<or> ''P'' < house
        then Inl (ValueError (''Invalid house '' @ quoted house @ ''.''))
      else if u < 1 \<or> 16 < u then Inl (ValueError (''Invalid unit '' @ quoted (int_str u) @ ''.''))
      else Inr \<lparr>xa_house = house, xa_unit = u\<rparr>)"

definition x10_address_str :: "x10_address \<Rightarrow> string" where
  "x10_address_str x = xa_house x @ int_str (xa_unit x)"

definition X10_ADDRESS_RE :: rx where
  "X10_ADDRESS_RE = seqs
     [Group ''house'' (Cls (chr_range CHR ''A'' CHR ''P'')), Group ''unit'' unit_rx]"

definition x10_address_parse :: "string \<Rightarrow> x10_address result" where
  "x10_address_parse v =
     (let value = upper (strip v) in
      case re_fullmatch X10_ADDRESS_RE value of
        None \<Rightarrow> Inl (ValueError (''Invalid X10 address '' @ quoted value @ ''.''))
      | Some m \<Rightarrow> x10_address_new (group m ''house'') (int (digits_val (group m ''unit''))))"

subsection \<open>What a valid address is\<close>

definition house_char :: "char \<Rightarrow> bool" where
  "house_char c \<longleftrightarrow> c \<in> set ''ABCDEFGHIJKLMNOP''"

definition unit_text :: "string \<Rightarrow> bool" where
  "unit_text t \<longleftrightarrow> t \<in> set [''1'', ''2'', ''3'', ''4'', ''5'', ''6'', ''7'', ''8'', ''9'',
     ''10'', ''11'', ''12'', ''13'', ''14'', ''15'', ''16'']"

definition valid_address :: "string \<Rightarrow> bool" where
  "valid_address s = (case s of [] \<Rightarrow> False | h # t \<Rightarrow> house_char h \<and> unit_text t)"

lemma house_char_range: "house_char c \<longleftrightarrow> chr_range CHR ''A'' CHR ''P'' c"
  unfolding house_char_def chr_range_def less_eq_char_def
  by (simp add: char_eq_code) arith

lemma range_1_9: "chr_range CHR ''1'' CHR ''9'' c \<longleftrightarrow> c \<in> set ''123456789''"
  unfolding chr_range_def less_eq_char_def by (simp add: char_eq_code) arith

lemma range_0_6: "chr_range CHR ''0'' CHR ''6'' c \<longleftrightarrow> c \<in> set ''0123456''"
  unfolding chr_range_def less_eq_char_def by (simp add: char_eq_code) arith

lemma unit_text_nat_str: "unit_text t \<longleftrightarrow> (\<exists>u. 1 \<le> u \<and> u \<le> 16 \<and> t = nat_str u)"
proof -
  have eq: "map nat_str [1..<17] = [''1'', ''2'', ''3'', ''4'', ''5'', ''6'', ''7'', ''8'', ''9'',
     ''10'', ''11'', ''12'', ''13'', ''14'', ''15'', ''16'']"
    by code_simp
  have "unit_text t \<longleftrightarrow> t \<in> set (map nat_str [1..<17])"
    unfolding eq unit_text_def ..
  also have "\<dots> \<longleftrightarrow> (\<exists>u. 1 \<le> u \<and> u \<le> 16 \<and> t = nat_str u)"
    by (auto simp: image_iff Bex_def)
  finally show ?thesis .
qed

lemma unit_text_canonical: "unit_text t \<Longrightarrow> nat_str (digits_val t) = t"
  by (auto simp: unit_text_nat_str)

lemma unit_text_cases:
  "unit_text t \<longleftrightarrow> (\<exists>a. t = [a] \<and> chr_range CHR ''1'' CHR ''9'' a) \<or>
     (\<exists>b. t = [CHR ''1'', b] \<and> chr_range CHR ''0'' CHR ''6'' b)"
  unfolding unit_text_def range_1_9 range_0_6 by auto

lemma unit_text_digits: "unit_text t \<Longrightarrow> \<forall>c \<in> set t. is_digit c"
  by (auto simp: unit_text_nat_str nat_str_digits)

lemma house_char_not_space: "house_char c \<Longrightarrow> \<not> is_space c"
  by (auto simp: house_char_range chr_range_def less_eq_char_def is_space_code)

lemma upper_house_char: "house_char c \<Longrightarrow> upper_char c = c"
  by (auto simp: house_char_range chr_range_def less_eq_char_def char_eq_code upper_char_code)

lemma house_char_upper_iff:
  "chr_range CHR ''A'' CHR ''P'' (upper_char c) \<or> chr_range CHR ''a'' CHR ''p'' (upper_char c)
   \<longleftrightarrow> house_char (upper_char c)"
  by (auto simp: house_char_range chr_range_def less_eq_char_def upper_char_code)

lemma valid_address_canon: "valid_address s \<Longrightarrow> canon s = s"
proof -
  assume "valid_address s"
  then obtain h t where s: "s = h # t" "house_char h" "unit_text t"
    by (auto simp: valid_address_def split: list.splits)
  then have "\<forall>c \<in> set s. \<not> is_space c"
    using unit_text_digits [of t] house_char_not_space digit_not_space by auto
  moreover have "upper s = s"
    using s unit_text_digits [of t]
    by (auto simp: upper_def upper_house_char upper_char_digit intro!: map_idI)
  ultimately show ?thesis by (simp add: strip_no_space)
qed

subsection \<open>The patterns accept exactly the valid addresses\<close>

lemma ms_unit_rx:
  "ms unit_rx t = (case t of
     [] \<Rightarrow> []
   | a # t' \<Rightarrow> (if chr_range CHR ''1'' CHR ''9'' a then [(t', [])] else []) @
      (case t' of [] \<Rightarrow> [] | b # t'' \<Rightarrow>
         if a = CHR ''1'' \<and> chr_range CHR ''0'' CHR ''6'' b then [(t'', [])] else []))"
  by (auto simp: unit_rx_def split: list.splits)

lemma rmatch_unit_rx: "rmatch unit_rx t [] e \<longleftrightarrow> e = [] \<and> unit_text t"
  unfolding ms_iff_rmatch [symmetric] ms_unit_rx unit_text_cases
  by (auto split: list.splits if_splits)

lemma rmatch_unit_any:
  "rmatch unit_rx t t' e \<longleftrightarrow> e = [] \<and> (\<exists>u. t = u @ t' \<and> unit_text u)"
  unfolding ms_iff_rmatch [symmetric] ms_unit_rx unit_text_cases
  by (cases t; cases "tl t") (auto split: if_splits simp: Cons_eq_append_conv)

lemma fullmatch_house_unit:
  assumes "\<And>c. c \<in> set s \<Longrightarrow> P c \<longleftrightarrow> house_char c"
  shows "rmatch (Cat (Group ''house'' (Cls P)) (Cat (Group ''unit'' unit_rx) Eol)) s [] e \<longleftrightarrow>
           (\<exists>h t. s = h # t \<and> house_char h \<and> unit_text t \<and> e = [(''house'', [h]), (''unit'', t)])"
    and "rmatch (Cat (Group ''house'' (Cls P)) (Group ''unit'' unit_rx)) s [] e \<longleftrightarrow>
           (\<exists>h t. s = h # t \<and> house_char h \<and> unit_text t \<and> e = [(''house'', [h]), (''unit'', t)])"
    and "rmatch (Cat (Cls P) (Cat unit_rx Eol)) s [] e \<longleftrightarrow>
           (\<exists>h t. s = h # t \<and> house_char h \<and> unit_text t \<and> e = [])"
    and "rmatch (Cat (Cls P) unit_rx) s [] e \<longleftrightarrow>
           (\<exists>h t. s = h # t \<and> house_char h \<and> unit_text t \<and> e = [])"
  using assms by (cases s; auto simp: rmatch_simps rmatch_unit_rx)+

lemma re_fullmatch_iff:
  assumes "\<And>e. rmatch r s [] e \<longleftrightarrow> Q \<and> e = m"
  shows "re_fullmatch r s = (if Q then Some m else None)"
proof (cases "re_fullmatch r s")
  case None
  then show ?thesis using assms by (auto simp: re_fullmatch_None)
next
  case (Some e)
  then show ?thesis using assms re_fullmatch_Some by fastforce
qed

lemma valid_address_split:
  "(\<exists>h t. s = h # t \<and> house_char h \<and> unit_text t \<and> e = f h t) \<longleftrightarrow>
     valid_address s \<and> e = f (hd s) (tl s)"
  by (cases s) (auto simp: valid_address_def)

lemma fullmatch_ADDRESS_RE:
  "re_fullmatch ADDRESS_RE (upper s) =
     (if valid_address (upper s)
      then Some [(''house'', [hd (upper s)]), (''unit'', tl (upper s))] else None)"
proof (rule re_fullmatch_iff)
  fix e
  let ?P = "\<lambda>c. chr_range CHR ''A'' CHR ''P'' c \<or> chr_range CHR ''a'' CHR ''p'' c"
  have "c \<in> set (upper s) \<Longrightarrow> ?P c \<longleftrightarrow> house_char c" for c
    by (auto simp: upper_def simp del: disj_not1 simp flip: house_char_upper_iff)
  from fullmatch_house_unit(1) [where P = ?P, OF this]
  show "rmatch ADDRESS_RE (upper s) [] e \<longleftrightarrow> valid_address (upper s) \<and>
      e = [(''house'', [hd (upper s)]), (''unit'', tl (upper s))]"
    unfolding ADDRESS_RE_def seqs.simps valid_address_split by simp
qed

lemma fullmatch_X10_ADDRESS_RE:
  "re_fullmatch X10_ADDRESS_RE s =
     (if valid_address s then Some [(''house'', [hd s]), (''unit'', tl s)] else None)"
proof (rule re_fullmatch_iff)
  fix e
  show "rmatch X10_ADDRESS_RE s [] e \<longleftrightarrow> valid_address s \<and>
      e = [(''house'', [hd s]), (''unit'', tl s)]"
    using fullmatch_house_unit(2) [OF house_char_range [symmetric]]
    unfolding X10_ADDRESS_RE_def seqs.simps valid_address_split by simp
qed

lemma fullmatch_HOUSE_RE:
  "re_fullmatch HOUSE_RE (upper s) = None \<longleftrightarrow> (\<nexists>c. upper s = [c] \<and> house_char c)"
proof -
  have "rmatch HOUSE_RE (upper s) [] e \<longleftrightarrow> (\<exists>c. upper s = [c] \<and> house_char c) \<and> e = []" for e
    unfolding HOUSE_RE_def seqs.simps
    by (cases s) (auto simp: rmatch_simps upper_def house_char_upper_iff)
  then show ?thesis by (auto simp: re_fullmatch_None)
qed


subsection \<open>The interface of an address normaliser\<close>

text \<open>
  What a client relies on when it calls one of the normalisers: which strings it accepts and
  what it returns for them.
\<close>

locale address_normaliser =
  fixes norm :: "string \<Rightarrow> string result"
    and ok_err :: "exn \<Rightarrow> bool"
  assumes norm_valid: "valid_address (canon s) \<Longrightarrow> norm s = Inr (canon s)"
    and norm_invalid: "\<not> valid_address (canon s) \<Longrightarrow> \<exists>e. norm s = Inl e \<and> ok_err e"
begin

lemma norm_Inr_iff: "norm s = Inr a \<longleftrightarrow> valid_address a \<and> canon s = a"
  using norm_valid [of s] norm_invalid [of s] by (cases "valid_address (canon s)") auto

lemma norm_stable: "norm s = Inr a \<Longrightarrow> norm a = Inr a"
  by (auto simp: norm_Inr_iff)

lemma norm_canon: "norm (canon s) = norm s" if "valid_address (canon s)"
  using that by (simp add: norm_valid)

lemma norm_Inl: "norm s = Inl e \<Longrightarrow> ok_err e \<and> \<not> valid_address (canon s)"
  using norm_valid [of s] norm_invalid [of s] by (cases "valid_address (canon s)") auto

end

lemma valid_address_parts:
  "valid_address s \<Longrightarrow> house_char (hd s) \<and> unit_text (tl s) \<and> s = hd s # tl s"
  by (cases s) (auto simp: valid_address_def)

lemma normalize_address_spec:
  "normalize_address a = (if valid_address (canon a) then Inr (canon a)
     else Inl (ValueError (''Invalid X10 address '' @ quoted (canon a) @ ''.'')))"
  using valid_address_parts [of "canon a"]
  by (auto simp: normalize_address_def fullmatch_ADDRESS_RE Let_def group_def unit_text_canonical)

interpretation validation: address_normaliser normalize_address is_ValueError
  by unfold_locales (auto simp: normalize_address_spec)

lemma house_order: "house_char c \<Longrightarrow> \<not> [c] < ''A'' \<and> \<not> ''P'' < [c]"
  by (auto simp: house_char_range chr_range_def)

lemma unit_text_bounds: "unit_text t \<Longrightarrow> 1 \<le> digits_val t \<and> digits_val t \<le> 16"
  by (auto simp: unit_text_nat_str)

lemma x10_address_parse_spec:
  "x10_address_parse v = (if valid_address (canon v)
     then Inr \<lparr>xa_house = [hd (canon v)], xa_unit = int (digits_val (tl (canon v)))\<rparr>
     else Inl (ValueError (''Invalid X10 address '' @ quoted (canon v) @ ''.'')))"
  using valid_address_parts [of "canon v"] house_order [of "hd (canon v)"]
    unit_text_bounds [of "tl (canon v)"] upper_house_char [of "hd (canon v)"]
  by (auto simp: x10_address_parse_def fullmatch_X10_ADDRESS_RE Let_def group_def
      x10_address_new_def upper_def)

definition x10_address_norm :: "string \<Rightarrow> string result" where
  "x10_address_norm v = rbind (x10_address_parse v) (\<lambda>x. Inr (x10_address_str x))"

interpretation x10_address: address_normaliser x10_address_norm is_ValueError
proof unfold_locales
  fix s
  assume "valid_address (canon s)"
  then show "x10_address_norm s = Inr (canon s)"
    using valid_address_parts [of "canon s"]
    by (simp add: x10_address_norm_def x10_address_parse_spec x10_address_str_def int_str_def
        unit_text_canonical)
qed (simp add: x10_address_norm_def x10_address_parse_spec)

lemma normalize_house_spec:
  "normalize_house h = (if \<exists>c. canon h = [c] \<and> house_char c then Inr (canon h)
     else Inl (ValueError (''Invalid house code '' @ quoted (canon h) @ ''.'')))"
  by (auto simp: normalize_house_def Let_def fullmatch_HOUSE_RE)

subsection \<open>Splitting and joining\<close>

lemma join_address_Inr:
  "join_address h u = Inr a \<longleftrightarrow>
     (\<exists>c. canon h = [c] \<and> house_char c \<and> 1 \<le> u \<and> u \<le> 16 \<and> a = c # nat_str (nat u))"
  by (auto simp: join_address_def normalize_house_spec MIN_UNIT_def MAX_UNIT_def int_str_def)

lemma join_address_valid: "join_address h u = Inr a \<Longrightarrow> valid_address a"
proof -
  assume "join_address h u = Inr a"
  then obtain c where c: "house_char c" "1 \<le> u" "u \<le> 16" "a = c # nat_str (nat u)"
    by (auto simp: join_address_Inr)
  then have "1 \<le> nat u \<and> nat u \<le> 16" by arith
  with c show ?thesis by (auto simp: valid_address_def unit_text_nat_str)
qed

text \<open>
  \<^verbatim>\<open>join_address\<close> and \<^verbatim>\<open>split_address\<close> are inverse to each other: splitting an address accepted
  by \<^verbatim>\<open>normalize_address\<close> and joining the parts gives its normal form, with a house in
  \<^verbatim>\<open>A\<close>..\<^verbatim>\<open>P\<close> and a unit in 1..16.
\<close>

lemma split_join_roundtrip:
  assumes "normalize_address a = Inr b"
  shows "\<exists>c u. split_address a = Inr ([c], u) \<and> house_char c \<and> 1 \<le> u \<and> u \<le> 16 \<and>
           join_address [c] u = Inr b \<and> split_address b = Inr ([c], u)"
proof -
  from assms have b: "valid_address b" "normalize_address b = Inr b"
    using validation.norm_Inr_iff validation.norm_stable by blast+
  then obtain c t where ct: "b = c # t" "house_char c" "unit_text t"
    by (auto simp: valid_address_def split: list.splits)
  let ?u = "int (digits_val t)"
  have "canon [c] = [c]"
    using ct(2) by (simp add: strip_no_space house_char_not_space upper_def upper_house_char)
  then have "join_address [c] ?u = Inr b"
    using ct unit_text_bounds [of t] by (auto simp: join_address_Inr unit_text_canonical)
  then show ?thesis
    using assms b ct unit_text_bounds [of t] by (auto simp: split_address_def)
qed

subsection \<open>Tokens\<close>

lemma join_no_edge_space:
  "ts \<noteq> [] \<Longrightarrow> \<forall>t \<in> set ts. t \<noteq> [] \<and> (\<forall>c \<in> set t. \<not> is_space c) \<Longrightarrow>
   join '' '' ts \<noteq> [] \<and> \<not> is_space (hd (join '' '' ts)) \<and> \<not> is_space (last (join '' '' ts))"
proof (induction ts)
  case (Cons t ts)
  then show ?case
  proof (cases ts)
    case (Cons u us)
    with Cons.IH Cons.prems show ?thesis by (auto simp: hd_append)
  qed simp
qed simp

lemma split_ws_parts: "t \<in> set (split_ws s) \<Longrightarrow> t \<noteq> [] \<and> (\<forall>c \<in> set t. \<not> is_space c)"
  by (auto simp: split_ws_def dest: split_by_parts)

lemma split_ws_join:
  "\<forall>t \<in> set ts. t \<noteq> [] \<and> (\<forall>c \<in> set t. \<not> is_space c) \<Longrightarrow> split_ws (join '' '' ts) = ts"
proof (induction ts)
  case Nil
  then show ?case by (simp add: split_ws_def)
next
  case (Cons t ts)
  then show ?case
  proof (cases ts)
    case Nil
    with Cons.prems show ?thesis by (simp add: split_ws_def split_by_none)
  next
    case (Cons u us)
    have "is_space CHR '' ''" by (simp add: is_space_def)
    with Cons Cons.IH Cons.prems show ?thesis
      by (simp add: split_ws_def split_by_append split_by_none)
  qed
qed

lemma upper_join: "upper (join '' '' ts) = join '' '' (map upper ts)"
proof (induction ts)
  case (Cons t ts)
  then show ?case by (cases ts) (auto simp: upper_def str_eval)
qed (simp add: upper_def)

lemma split_by_upper: "split_by is_space (upper s) = map upper (split_by is_space s)"
  unfolding upper_def by (induction s) (auto split: list.splits)

lemma split_ws_upper: "split_ws (upper s) = map upper (split_ws s)"
  by (simp add: split_ws_def split_by_upper filter_map o_def)

text \<open>
  \<^verbatim>\<open>normalize_token\<close> is a normal form: applying it twice changes nothing, and its result has
  no white space at either end, only single blanks between words and no lower-case letter.
\<close>

lemma normalize_token_normal_form:
  "normalize_token (normalize_token v) = normalize_token v \<and>
   strip (normalize_token v) = normalize_token v \<and> upper (normalize_token v) = normalize_token v \<and>
   split_ws (normalize_token v) = map upper (split_ws (strip v))"
proof -
  let ?ts = "map upper (split_ws (strip v))"
  have parts: "\<forall>t \<in> set ?ts. t \<noteq> [] \<and> (\<forall>c \<in> set t. \<not> is_space c)"
    using split_ws_parts [of _ "strip v"] by (fastforce simp: upper_def)
  have n: "normalize_token v = join '' '' ?ts"
    by (simp add: normalize_token_def split_ws_upper)
  have sp: "strip (join '' '' ?ts) = join '' '' ?ts"
    using join_no_edge_space [OF _ parts] by (cases "?ts = []") (auto intro!: strip_id)
  have up: "upper (join '' '' ?ts) = join '' '' ?ts"
    by (simp add: upper_join o_def)
  have "normalize_token (join '' '' ?ts) = join '' '' ?ts"
    unfolding normalize_token_def sp up split_ws_join [OF parts] ..
  then show ?thesis using n sp up split_ws_join [OF parts] by simp
qed

end
