(* ===== verification/Protocol.thy ===== *)
theory Protocol
  imports Validation
begin

section \<open>The mochad text protocol: patterns, tables, encoder (\<^verbatim>\<open>protocol/\<close>)\<close>

text \<open>
  The compiled patterns of \<^verbatim>\<open>protocol/regex.py\<close>, the lookup tables of \<^verbatim>\<open>protocol/mappings.py\<close> and the
  command encoder of \<^verbatim>\<open>protocol/encoder.py\<close>.  All patterns are compiled with \<^verbatim>\<open>re.IGNORECASE\<close>;
  those written with \<^verbatim>\<open>re.VERBOSE\<close> ignore their own white space.  A pattern is a list of pieces
  put together by \<open>seqs\<close>; the leading \<^verbatim>\<open>^\<close> adds nothing because the source only calls \<^verbatim>\<open>match\<close>.
\<close>

subsection \<open>Patterns (\<^verbatim>\<open>regex.py\<close>)\<close>

definition rx_chr :: "char \<Rightarrow> rx" where
  "rx_chr a = Cls (\<lambda>c. c = a)"

definition TIMESTAMP :: "rx list" where
  "TIMESTAMP = [rx_digit, rx_digit, rx_chr CHR ''/'', rx_digit, rx_digit, plus rx_space,
     rx_digit, rx_digit, rx_chr CHR '':'', rx_digit, rx_digit, rx_chr CHR '':'',
     rx_digit, rx_digit]"

definition HOUSE :: rx where
  "HOUSE = Cls (ci_range CHR ''A'' CHR ''P'')"

definition ADDRESS :: rx where
  "ADDRESS = Cat (Cls (ci_range CHR ''A'' CHR ''P'')) unit_rx"

definition direction_rx :: rx where
  "direction_rx = Group ''direction'' (Alt (ci_word ''Tx'') (ci_word ''Rx''))"

definition transport_rx :: rx where
  "transport_rx = Group ''transport'' (Alt (ci_word ''RF'') (ci_word ''PL''))"

definition DEVICE_EVENT_RE :: rx where
  "DEVICE_EVENT_RE = seqs (TIMESTAMP @
     [plus rx_space, direction_rx, plus rx_space, transport_rx, plus rx_space,
      ci_word ''HouseUnit:'', plus rx_space, Group ''address'' ADDRESS, plus rx_space,
      ci_word ''Func:'', plus rx_space, Group ''command'' (lazy_plus rx_dot), Eol])"

definition HOUSE_EVENT_RE :: rx where
  "HOUSE_EVENT_RE = seqs (TIMESTAMP @
     [plus rx_space, direction_rx, plus rx_space, transport_rx, plus rx_space,
      ci_word ''House:'', plus rx_space, Group ''house'' HOUSE, plus rx_space,
      ci_word ''Func:'', plus rx_space, Group ''command'' (lazy_plus rx_dot), Eol])"

definition DEVICE_SELECTED_RE :: rx where
  "DEVICE_SELECTED_RE = seqs (TIMESTAMP @ [plus rx_space, ci_word ''Device selected'', Eol])"

definition DEVICE_STATUS_RE :: rx where
  "DEVICE_STATUS_RE = seqs (TIMESTAMP @ [plus rx_space, ci_word ''Device status'', Eol])"

definition SECURITY_STATUS_RE :: rx where
  "SECURITY_STATUS_RE = seqs (TIMESTAMP @ [plus rx_space, ci_word ''Security sensor status'', Eol])"

definition END_STATUS_RE :: rx where
  "END_STATUS_RE = seqs (TIMESTAMP @ [plus rx_space, ci_word ''End status'', Eol])"

definition HOUSE_COUNT_RE :: rx where
  "HOUSE_COUNT_RE = seqs (TIMESTAMP @
     [plus rx_space, ci_word ''House'', plus rx_space, Group ''house'' HOUSE, rx_chr CHR '':'',
      plus rx_space, Group ''count'' (plus rx_digit), Eol])"

definition strict_entry :: "rx list" where
  "strict_entry = [unit_rx, Star rx_space, rx_chr CHR ''='', Star rx_space,
     Cls (\<lambda>c. c = CHR ''0'' \<or> c = CHR ''1'')]"

definition strict_devices :: rx where
  "strict_devices = seqs (strict_entry @
     [Star (seqs ([Star rx_space, rx_chr CHR '','', Star rx_space] @ strict_entry))])"

definition STRICT_HOUSE_STATUS_RE :: rx where
  "STRICT_HOUSE_STATUS_RE = seqs (TIMESTAMP @
     [plus rx_space, ci_word ''House'', plus rx_space, Group ''house'' HOUSE, rx_chr CHR '':'',
      plus rx_space, Group ''devices'' strict_devices, Eol])"

subsection \<open>Lookup tables (\<^verbatim>\<open>mappings.py\<close>)\<close>

definition DIRECTION_MAP :: "(string \<times> direction) list" where
  "DIRECTION_MAP = [(''TX'', TX), (''RX'', RX)]"

definition TRANSPORT_MAP :: "(string \<times> transport) list" where
  "TRANSPORT_MAP = [(''RF'', RF), (''PL'', PL), (''RFSEC'', RFSEC), (''RFCAM'', RFCAM)]"

definition COMMAND_MAP :: "(string \<times> command) list" where
  "COMMAND_MAP =
     [(''ON'', ON), (''OFF'', OFF), (''DIM'', DIM), (''BRIGHT'', BRIGHT),
      (''ALL LIGHTS ON'', ALL_LIGHTS_ON), (''ALL LIGHTS OFF'', ALL_LIGHTS_OFF),
      (''ALL UNITS OFF'', ALL_UNITS_OFF), (''STATUS ON'', STATUS_ON),
      (''STATUS OFF'', STATUS_OFF), (''STATUS REQUEST'', STATUS_REQUEST),
      (''UNKNOWN'', UNKNOWN)]"

definition ENCODE_COMMAND_MAP :: "(command \<times> string) list" where
  "ENCODE_COMMAND_MAP = [(ON, ''on''), (OFF, ''off''), (DIM, ''dim''), (BRIGHT, ''bright'')]"

text \<open>\<^verbatim>\<open>COMMAND_MAP.get(token, COMMAND_MAP["UNKNOWN"])\<close>\<close>

definition command_of_token :: "string \<Rightarrow> command" where
  "command_of_token t = (case map_of COMMAND_MAP t of None \<Rightarrow> UNKNOWN | Some c \<Rightarrow> c)"

subsection \<open>Encoder (\<^verbatim>\<open>encoder.py\<close>)\<close>

definition encode_command :: "string \<Rightarrow> string \<Rightarrow> command \<Rightarrow> string result" where
  "encode_command tr a c =
     (let transport = lower (strip tr) in
      if transport \<notin> {''rf'', ''pl''}
      then Inl (ValueError (''Unsupported mochad transport '' @ quoted transport @ ''.''))
      else rbind (normalize_address a) (\<lambda>address.
        (case map_of ENCODE_COMMAND_MAP c of
           None \<Rightarrow> Inl (ValueError (''Unsupported mochad command Command.'' @ command_name c @ ''.''))
         | Some sfx \<Rightarrow> Inr (transport @ '' '' @ address @ '' '' @ sfx))))"

definition encode_rf_command :: "string \<Rightarrow> command \<Rightarrow> string result" where
  "encode_rf_command a c = encode_command ''rf'' a c"

definition encode_pl_command :: "string \<Rightarrow> command \<Rightarrow> string result" where
  "encode_pl_command a c = encode_command ''pl'' a c"

subsection \<open>Facts about the encoder\<close>

definition encodable :: "command \<Rightarrow> bool" where
  "encodable c \<longleftrightarrow> c \<in> {ON, OFF, DIM, BRIGHT}"

lemma encode_lookup: "map_of ENCODE_COMMAND_MAP c = (if encodable c then Some (lower (command_name c)) else None)"
  by (cases c) (simp_all add: ENCODE_COMMAND_MAP_def encodable_def str_eval)

lemma encode_rf_command_spec:
  "encode_rf_command a c = Inr l \<longleftrightarrow>
     valid_address (canon a) \<and> encodable c \<and>
     l = ''rf '' @ canon a @ '' '' @ lower (command_name c)"
  by (auto simp: encode_rf_command_def encode_command_def Let_def str_eval normalize_address_spec
      encode_lookup)

lemma encode_command_errors: "encode_command tr a c = Inl e \<Longrightarrow> is_ValueError e"
  by (auto simp: encode_command_def Let_def normalize_address_spec split: if_splits option.splits)

lemma command_name_inj: "command_name c = command_name d \<longleftrightarrow> c = d"
  by (cases c; cases d) simp_all

lemma valid_address_no_blank: "valid_address a \<Longrightarrow> \<forall>c \<in> set a. \<not> is_space c"
  by (auto simp: valid_address_def split: list.splits
      dest: house_char_not_space unit_text_digits digit_not_space)

lemma append_blank_split:
  "u @ CHR '' '' # v = u' @ CHR '' '' # v' \<Longrightarrow> \<forall>c \<in> set u. \<not> is_space c \<Longrightarrow>
   \<forall>c \<in> set u'. \<not> is_space c \<Longrightarrow> u = u' \<and> v = v'"
proof (induction u arbitrary: u')
  case Nil
  then show ?case by (cases u') (auto simp: is_space_def)
next
  case (Cons c u)
  then show ?case by (cases u') (auto simp: is_space_def)
qed

lemma lower_command_name_inj:
  "encodable c \<Longrightarrow> encodable d \<Longrightarrow> lower (command_name c) = lower (command_name d) \<Longrightarrow> c = d"
  by (auto simp: encodable_def str_eval)

text \<open>
  The line the encoder produces determines the command: two requests that encode to the same
  mochad line have the same normalised address and the same command, and the line holds no line
  break, so one request is one mochad command line.
\<close>

lemma encode_rf_command_injective:
  assumes "encode_rf_command a c = Inr l" and "encode_rf_command b d = Inr l"
  shows "canon a = canon b \<and> c = d \<and> CHR 0x0A \<notin> set l"
proof -
  from assms have va: "valid_address (canon a)" "valid_address (canon b)"
    and enc: "encodable c" "encodable d"
    and l: "l = ''rf '' @ canon a @ '' '' @ lower (command_name c)"
      "l = ''rf '' @ canon b @ '' '' @ lower (command_name d)"
    by (simp_all add: encode_rf_command_spec)
  from l have "canon a @ CHR '' '' # lower (command_name c) =
      canon b @ CHR '' '' # lower (command_name d)" by simp
  from append_blank_split [OF this] va have eq:
    "canon a = canon b" "lower (command_name c) = lower (command_name d)"
    using valid_address_no_blank by blast+
  have "CHR 0x0A \<notin> set (lower (command_name c))"
    using enc(1) by (auto simp: encodable_def str_eval)
  moreover have "CHR 0x0A \<notin> set (canon a)"
    using valid_address_no_blank [OF va(1)] by (auto simp: is_space_def)
  ultimately have "CHR 0x0A \<notin> set l"
    by (auto simp: l(1))
  then show ?thesis using eq lower_command_name_inj [OF enc eq(2)] by simp
qed

end
