(* ===== verification/StatusParser.thy ===== *)
theory StatusParser
  imports Protocol
begin

section \<open>The status collector (\<^verbatim>\<open>protocol/status.py\<close>)\<close>

text \<open>
  \<^verbatim>\<open>StatusParser\<close> collects the lines of an \<^verbatim>\<open>st\<close> response between \<^verbatim>\<open>Device selected\<close> and
  \<^verbatim>\<open>End status\<close> into a snapshot.  Its two fields are the record \<open>status_parser\<close>; \<open>feed\<close> is one
  call of \<^verbatim>\<open>feed\<close>, with the exception it would raise as a value.
\<close>

subsection \<open>Definitions\<close>

record status_parser =
  sp_snapshot :: status_snapshot
  sp_active :: bool

definition sp_reset :: status_parser where
  "sp_reset = \<lparr>sp_snapshot = empty_snapshot, sp_active = False\<rparr>"

definition matches :: "rx \<Rightarrow> string \<Rightarrow> bool" where
  "matches r s \<longleftrightarrow> re_match r s \<noteq> None"

definition is_status_line :: "string \<Rightarrow> bool" where
  "is_status_line l =
     (let line = strip l in
      list_ex (\<lambda>pat. matches pat line)
        [DEVICE_SELECTED_RE, DEVICE_STATUS_RE, SECURITY_STATUS_RE, HOUSE_COUNT_RE,
         STRICT_HOUSE_STATUS_RE, END_STATUS_RE])"

text \<open>\<^verbatim>\<open>unit, value = entry.split("=", 1)\<close>: a \<^verbatim>\<open>ValueError\<close> when there is no separator.\<close>

definition split_once :: "char \<Rightarrow> string \<Rightarrow> (string \<times> string) result" where
  "split_once c s = (if c \<in> set s
     then Inr (takeWhile (\<lambda>d. d \<noteq> c) s, tl (dropWhile (\<lambda>d. d \<noteq> c) s))
     else Inl (ValueError ''not enough values to unpack''))"

text \<open>The loop over the entries of a house line, updating the devices of the snapshot.\<close>

fun feed_entries :: "string \<Rightarrow> string list \<Rightarrow> (address \<times> command) list
    \<Rightarrow> unit result \<times> (address \<times> command) list" where
  "feed_entries house [] devices = (Inr (), devices)"
| "feed_entries house (entry # entries) devices =
     (case split_once CHR ''='' entry of
        Inl e \<Rightarrow> (Inl e, devices)
      | Inr (u, v) \<Rightarrow>
          (case normalize_address (house @ strip u) of
             Inl e \<Rightarrow> (Inl e, devices)
           | Inr address \<Rightarrow>
               feed_entries house entries
                 (AList.update address (if strip v = ''1'' then ON else OFF) devices)))"

definition feed :: "string \<Rightarrow> status_parser \<Rightarrow> status_snapshot option result \<times> status_parser" where
  "feed l sp =
     (let line = strip l in
      if matches DEVICE_SELECTED_RE line then (Inr None, sp_reset\<lparr>sp_active := True\<rparr>)
      else if matches DEVICE_STATUS_RE line \<or> matches SECURITY_STATUS_RE line then (Inr None, sp)
      else if matches HOUSE_COUNT_RE line then (Inr None, sp)
      else if \<not> sp_active sp then (Inr None, sp)
      else case re_match STRICT_HOUSE_STATUS_RE line of
        Some m \<Rightarrow>
          let house = upper (group m ''house'');
              res = feed_entries house (split_on CHR '','' (group m ''devices''))
                      (ss_devices (sp_snapshot sp));
              sp' = sp\<lparr>sp_snapshot := (sp_snapshot sp)\<lparr>ss_devices := snd res\<rparr>\<rparr>
          in (case fst res of Inl e \<Rightarrow> (Inl e, sp') | Inr _ \<Rightarrow> (Inr None, sp'))
      | None \<Rightarrow>
          if matches END_STATUS_RE line
          then (Inr (Some ((sp_snapshot sp)\<lparr>ss_completed := True\<rparr>)), sp_reset)
          else (Inr None, sp))"

subsection \<open>Lines with a time stamp\<close>

definition timestamp_text :: "string \<Rightarrow> bool" where
  "timestamp_text ts \<longleftrightarrow> (case ts of
     [a, b, x, c, d, y, e, f, z, g, h, w, i, j] \<Rightarrow>
       list_all is_digit [a, b, c, d, e, f, g, h, i, j] \<and>
       x = CHR ''/'' \<and> y = CHR '' '' \<and> z = CHR '':'' \<and> w = CHR '':''
   | _ \<Rightarrow> False)"

lemma space_blank [simp]: "is_space CHR '' ''"
  by (simp add: is_space_def)

lemma timestamp_textE:
  assumes "timestamp_text ts"
  obtains a b c d e f g h i j where
    "ts = [a, b, CHR ''/'', c, d, CHR '' '', e, f, CHR '':'', g, h, CHR '':'', i, j]"
    "is_digit a" "is_digit b" "is_digit c" "is_digit d" "is_digit e" "is_digit f" "is_digit g"
    "is_digit h" "is_digit i" "is_digit j"
  using assms by (auto simp: timestamp_text_def split: list.splits)

lemma ms_timestamp:
  assumes "timestamp_text ts" and "s \<noteq> []" "\<not> is_space (hd s)"
  shows "ms (seqs (TIMESTAMP @ plus rx_space # r # rs)) (ts @ CHR '' '' # s) = ms (seqs (r # rs)) s"
  using assms(1)
proof (rule timestamp_textE)
  fix a b c d e f g h i j
  assume "ts = [a, b, CHR ''/'', c, d, CHR '' '', e, f, CHR '':'', g, h, CHR '':'', i, j]"
    and "is_digit a" "is_digit b" "is_digit c" "is_digit d" "is_digit e" "is_digit f"
      "is_digit g" "is_digit h" "is_digit i" "is_digit j"
  with assms(2,3) show ?thesis
    by (simp add: TIMESTAMP_def rx_digit_def rx_chr_def rx_space_def plus_def star_cls_stop
        digit_not_space)
qed

lemma strip_timestamp_line:
  assumes "timestamp_text ts" and "s \<noteq> []" "\<not> is_space (last s)"
  shows "strip (ts @ CHR '' '' # s) = ts @ CHR '' '' # s"
proof -
  have "ts \<noteq> [] \<and> \<not> is_space (hd ts)"
    using assms(1) by (rule timestamp_textE) (auto dest: digit_not_space)
  with assms(2,3) show ?thesis by (auto intro!: strip_id simp: hd_append)
qed

text \<open>The keyword patterns: after the time stamp only the keyword itself is accepted.\<close>

lemma ms_ci_word_Eol:
  "ms (seqs [ci_word w, Eol]) s = [] \<longleftrightarrow> (\<nexists>v. (s = v \<or> s = v @ [CHR 0x0A]) \<and> upper v = upper w)"
proof -
  have "ms (seqs [ci_word w, Eol]) s = [] \<longleftrightarrow> (\<nexists>s' e. (s', e) \<in> set (ms (Cat (ci_word w) Eol) s))"
    by (cases "ms (Cat (ci_word w) Eol) s") auto
  also have "\<dots> \<longleftrightarrow> (\<nexists>v. (s = v \<or> s = v @ [CHR 0x0A]) \<and> upper v = upper w)"
    unfolding ms_iff_rmatch by (auto simp: rmatch_simps rmatch_ci_word)
  finally show ?thesis .
qed

lemma matches_ms: "matches r s \<longleftrightarrow> ms r s \<noteq> []"
  by (simp add: matches_def re_match_def split: list.splits prod.splits)


subsection \<open>The entries of a house line\<close>

definition blanks :: "string \<Rightarrow> bool" where
  "blanks w \<longleftrightarrow> (\<forall>c \<in> set w. is_space c)"

definition bit_char :: "char \<Rightarrow> bool" where
  "bit_char b \<longleftrightarrow> b = CHR ''0'' \<or> b = CHR ''1''"

text \<open>One \<^verbatim>\<open>unit = bit\<close> entry with the white space around it.\<close>

definition entry_of :: "string \<Rightarrow> string \<Rightarrow> char \<Rightarrow> bool" where
  "entry_of t u b \<longleftrightarrow> unit_text u \<and> bit_char b \<and>
     (\<exists>w0 w1 w2 w3. blanks w0 \<and> blanks w1 \<and> blanks w2 \<and> blanks w3 \<and>
        t = w0 @ u @ w1 @ CHR ''='' # w2 @ b # w3)"

lemma blanks_Nil [simp]: "blanks []"
  by (simp add: blanks_def)

lemma entry_ofI:
  "unit_text u \<Longrightarrow> bit_char b \<Longrightarrow> blanks w0 \<Longrightarrow> blanks w1 \<Longrightarrow> blanks w2 \<Longrightarrow> blanks w3 \<Longrightarrow>
   entry_of (w0 @ u @ w1 @ CHR ''='' # w2 @ b # w3) u b"
  unfolding entry_of_def by blast

lemma blanks_no: "blanks w \<Longrightarrow> \<not> is_space c \<Longrightarrow> c \<notin> set w"
  by (auto simp: blanks_def)

lemma strip_blanks:
  assumes "blanks w" "blanks w'" "s \<noteq> []" "\<not> is_space (hd s)" "\<not> is_space (last s)"
  shows "strip (w @ s @ w') = s"
proof -
  have "dropWhile is_space (w @ s @ w') = s @ w'"
    using assms by (simp add: blanks_def dropWhile_append2 dropWhile_eq_self_iff)
  moreover have "dropWhile is_space (rev w' @ rev s) = rev s"
    using assms by (subst dropWhile_append2) (auto simp: blanks_def dropWhile_eq_self_iff hd_rev)
  ultimately show ?thesis
    by (simp add: strip_def strip_by_def lstrip_by_def rstrip_by_def)
qed

lemma unit_text_edges: "unit_text u \<Longrightarrow> u \<noteq> [] \<and> \<not> is_space (hd u) \<and> \<not> is_space (last u)"
  using unit_text_digits [of u] digit_not_space by (auto simp: unit_text_nat_str)

lemma unit_text_no: "unit_text u \<Longrightarrow> \<not> is_digit c \<Longrightarrow> c \<notin> set u"
  using unit_text_digits by blast

lemma punct_facts [simp]:
  "\<not> is_space CHR ''=''" "\<not> is_space CHR '',''" "\<not> is_digit CHR ''=''" "\<not> is_digit CHR '',''"
  by (simp_all add: char_defs)

lemma bit_char_facts: "bit_char b \<Longrightarrow> \<not> is_space b \<and> b \<noteq> CHR ''='' \<and> b \<noteq> CHR '',''"
  by (auto simp: bit_char_def is_space_def)

lemma split_once_entry:
  assumes "entry_of t u b"
  shows "\<exists>l r. split_once CHR ''='' t = Inr (l, r) \<and> strip l = u \<and> strip r = [b]"
proof -
  from assms obtain w0 w1 w2 w3 where w: "blanks w0" "blanks w1" "blanks w2" "blanks w3"
    and t: "t = (w0 @ u @ w1) @ CHR ''='' # w2 @ b # w3" and ub: "unit_text u" "bit_char b"
    by (auto simp: entry_of_def)
  have ne: "\<forall>d \<in> set (w0 @ u @ w1). d \<noteq> CHR ''=''"
    using w ub blanks_no [OF _ punct_facts(1)] unit_text_no [OF ub(1) punct_facts(3)] by auto
  have tw: "takeWhile (\<lambda>d. d \<noteq> CHR ''='') t = w0 @ u @ w1"
    unfolding t using ne by (subst takeWhile_append2) auto
  have dw: "dropWhile (\<lambda>d. d \<noteq> CHR ''='') t = CHR ''='' # w2 @ b # w3"
    unfolding t using ne by (subst dropWhile_append2) auto
  have "split_once CHR ''='' t = Inr (w0 @ u @ w1, w2 @ [b] @ w3)"
    unfolding split_once_def tw dw by (simp add: t)
  moreover have "strip (w0 @ u @ w1) = u" "strip (w2 @ [b] @ w3) = [b]"
    using w ub unit_text_edges [OF ub(1)] bit_char_facts [OF ub(2)] strip_blanks [of w0 w1 u]
      strip_blanks [of w2 w3 "[b]"] by auto
  ultimately show ?thesis by blast
qed

lemma rmatch_strict_entry:
  "rmatch (seqs strict_entry) s s' e \<longleftrightarrow> e = [] \<and>
     (\<exists>u w1 w2 b. s = u @ w1 @ CHR ''='' # w2 @ b # s' \<and> unit_text u \<and> blanks w1 \<and>
        blanks w2 \<and> bit_char b)"
  unfolding strict_entry_def
  by (auto simp: rmatch_simps rmatch_unit_any rx_space_def rx_chr_def rmatch_Star_Cls
      blanks_def bit_char_def) blast+

text \<open>What follows the first entry: each further entry after a comma.\<close>

definition more_entry :: rx where
  "more_entry = seqs ([Star rx_space, rx_chr CHR '','', Star rx_space] @ strict_entry)"

lemma rmatch_more_entry:
  "rmatch more_entry s s' e \<longleftrightarrow> e = [] \<and>
     (\<exists>w w0 u w1 w2 b. s = w @ CHR '','' # w0 @ u @ w1 @ CHR ''='' # w2 @ b # s' \<and> blanks w \<and>
        blanks w0 \<and> unit_text u \<and> blanks w1 \<and> blanks w2 \<and> bit_char b)"
proof -
  have "strict_entry \<noteq> []" by (simp add: strict_entry_def)
  then show ?thesis
    unfolding more_entry_def
    by (subst rmatch_seqs_append)
       (auto simp: rmatch_simps rmatch_strict_entry rx_space_def rx_chr_def rmatch_Star_Cls
         blanks_def, blast+)
qed

lemma rmatch_strict_devices:
  "rmatch strict_devices s s' e \<longleftrightarrow>
     (\<exists>s1 e1. rmatch (seqs strict_entry) s s1 [] \<and> rmatch (Star more_entry) s1 s' e1 \<and> e = e1)"
proof -
  have "rmatch strict_devices s s' e \<longleftrightarrow> rmatch (Cat (seqs strict_entry) (Star more_entry)) s s' e"
    unfolding strict_devices_def more_entry_def by (subst rmatch_seqs_append) simp_all
  then show ?thesis by (auto simp: rmatch_simps rmatch_strict_entry)
qed


lemma rmatch_more_no_captures: "rmatch (Star more_entry) s s' e \<Longrightarrow> e = []"
  by (induction "Star more_entry" s s' e rule: rmatch.induct) (auto simp: rmatch_more_entry)

lemma rmatch_strict_no_captures: "rmatch strict_devices s s' e \<Longrightarrow> e = []"
  using rmatch_more_no_captures by (auto simp: rmatch_strict_devices)

lemma entry_no_comma: "entry_of t u b \<Longrightarrow> CHR '','' \<notin> set t"
  by (auto simp: entry_of_def dest: blanks_no [OF _ punct_facts(2)] bit_char_facts
      unit_text_no [OF _ punct_facts(4)])

text \<open>
  A matched list of entries splits at its commas into entries: induction over the iterations of
  the repetition, with the white space before the next comma counted to the entry before it.
\<close>

lemma more_entries_split:
  assumes "rmatch (Star more_entry) s [] e" and "entry_of t u b"
  shows "\<forall>x \<in> set (split_on CHR '','' (t @ s)). \<exists>u b. entry_of x u b"
  using assms(1,2)
proof (induction "Star more_entry" s "[] :: string" e arbitrary: t u b rule: rmatch.induct)
  case (rm_Star0)
  then show ?case using entry_no_comma by (auto simp: split_on_none)
next
  case (rm_Star s s1 e1 e2)
  from rm_Star(1) obtain w w0 u' w1 w2 b' where s: "s = w @ CHR '','' # w0 @ u' @ w1 @ CHR ''='' # w2 @ b' # s1"
    and bl: "blanks w" "blanks w0" "blanks w1" "blanks w2" and ub: "unit_text u'" "bit_char b'"
    by (auto simp: rmatch_more_entry)
  let ?t' = "w0 @ u' @ w1 @ CHR ''='' # w2 @ [b']"
  have t': "entry_of ?t' u' b'"
    using entry_ofI [OF ub bl(2,3,4) blanks_Nil] .
  have tw: "entry_of (t @ w) u b"
  proof -
    from rm_Star.prems obtain v0 v1 v2 v3 where v: "blanks v0" "blanks v1" "blanks v2" "blanks v3"
      "t = v0 @ u @ v1 @ CHR ''='' # v2 @ b # v3" "unit_text u" "bit_char b"
      by (auto simp: entry_of_def)
    moreover have "blanks (v3 @ w)" using v bl by (auto simp: blanks_def)
    ultimately show ?thesis unfolding entry_of_def by (metis append.assoc append_Cons)
  qed
  have "split_on CHR '','' (t @ s) = split_on CHR '','' (t @ w) @ split_on CHR '','' (?t' @ s1)"
    unfolding s using split_on_append [of "CHR '',''" "t @ w" "?t' @ s1"] by simp
  then show ?case
    using tw entry_no_comma [OF tw] rm_Star.hyps(5) [OF t'] by (auto simp: split_on_none)
qed

lemma strict_devices_split:
  assumes "rmatch strict_devices s [] e"
  shows "\<forall>x \<in> set (split_on CHR '','' s). \<exists>u b. entry_of x u b"
proof -
  from assms obtain s1 e1 where s1: "rmatch (seqs strict_entry) s s1 []"
    and more: "rmatch (Star more_entry) s1 [] e1"
    by (auto simp: rmatch_strict_devices)
  from s1 obtain u w1 w2 b where s: "s = (u @ w1 @ CHR ''='' # w2 @ [b]) @ s1"
    and "unit_text u" "blanks w1" "blanks w2" "bit_char b"
    by (auto simp: rmatch_strict_entry)
  then have "entry_of (u @ w1 @ CHR ''='' # w2 @ [b]) u b"
    using entry_ofI [of u b "[]" w1 w2 "[]"] by simp
  from more_entries_split [OF more this] show ?thesis by (simp add: s)
qed


subsection \<open>Feeding a line\<close>

lemma ci_range_house: "ci_range CHR ''A'' CHR ''P'' c \<longleftrightarrow> house_char (upper_char c)"
  by (simp add: ci_range_def house_char_range upper_char_id is_lower_def less_eq_char_def)

lemma nocap_TIMESTAMP: "\<forall>q \<in> set TIMESTAMP. nocap q"
  by (simp add: TIMESTAMP_def rx_chr_def)

lemma strip_no_newline_end: "strip l = u @ [CHR 0x0A] \<Longrightarrow> False"
  using last_strip_by [of is_space l] by (auto simp: strip_def is_space_def)

lemma strict_match_captures:
  assumes "re_match STRICT_HOUSE_STATUS_RE (strip l) = Some m"
  shows "\<exists>h t. group m ''house'' = [h] \<and> house_char (upper_char h) \<and> group m ''devices'' = t \<and>
           rmatch strict_devices t [] []"
proof -
  let ?qs = "TIMESTAMP @ [plus rx_space, ci_word ''House'', plus rx_space]"
  let ?rs = "[Group ''house'' HOUSE, rx_chr CHR '':'', plus rx_space,
              Group ''devices'' strict_devices, Eol]"
  from re_match_Some [OF assms] obtain s' where
    full: "rmatch (seqs (?qs @ ?rs)) (strip l) s' m"
    by (auto simp: STRICT_HOUSE_STATUS_RE_def)
  have nc: "\<forall>q \<in> set ?qs. nocap q" using nocap_TIMESTAMP by auto
  from rmatch_prefix [OF nc _ full] obtain s1 where
    s1: "suffix s1 (strip l)" "rmatch (seqs ?rs) s1 s' m"
    by blast
  from s1(2) obtain h c w t e where s1_eq: "s1 = (h # CHR '':'' # c # w) @ t" and
    *: "house_char (upper_char h)" "rmatch strict_devices t s' e" "s' = [] \<or> s' = [CHR 0x0A]"
    "m = [(''house'', [h]), (''devices'', take (length t - length s') t)] @ e"
    unfolding seqs.simps rmatch_simps HOUSE_def ci_range_house rx_chr_def rx_space_def
        rmatch_plus_Cls by auto
  then have "suffix t s1" by (auto simp: suffix_def)
  have "suffix s' (strip l)"
    using rmatch_suffix [OF *(2)] \<open>suffix t s1\<close> s1(1) by (meson suffix_order.trans)
  then have "s' = []"
    using *(3) strip_no_newline_end [of l] by (auto simp: suffix_def)
  then show ?thesis
    using * rmatch_strict_no_captures [OF *(2)] by (auto simp: group_def)
qed

text \<open>What one well-formed entry stores.\<close>

definition entry_unit :: "string \<Rightarrow> string" where
  "entry_unit x = (case split_once CHR ''='' x of Inl _ \<Rightarrow> [] | Inr (u, v) \<Rightarrow> strip u)"

definition entry_command :: "string \<Rightarrow> command" where
  "entry_command x = (case split_once CHR ''='' x of Inl _ \<Rightarrow> OFF
     | Inr (u, v) \<Rightarrow> if strip v = ''1'' then ON else OFF)"

lemma entry_meaning:
  assumes "entry_of x u b"
  shows "entry_unit x = u" "entry_command x = (if b = CHR ''1'' then ON else OFF)"
  using split_once_entry [OF assms] by (auto simp: entry_unit_def entry_command_def)

lemma feed_entries_ok:
  assumes "house_char h" and "\<forall>x \<in> set xs. \<exists>u b. entry_of x u b"
  shows "feed_entries [h] xs d =
    (Inr (), fold (\<lambda>(k, v). AList.update k v) (map (\<lambda>x. (h # entry_unit x, entry_command x)) xs) d)"
  using assms(2)
proof (induction xs arbitrary: d)
  case (Cons x xs)
  then obtain u b where ub: "entry_of x u b" by auto
  then obtain l r where lr: "split_once CHR ''='' x = Inr (l, r)" "strip l = u" "strip r = [b]"
    using split_once_entry by blast
  have "valid_address (h # u)"
    using assms(1) ub by (simp add: valid_address_def entry_of_def)
  then have "normalize_address (h # u) = Inr (h # u)"
    using validation.norm_Inr_iff valid_address_canon by blast
  with Cons lr ub show ?case by (simp add: entry_meaning)
qed simp

lemma feed_house_line:
  assumes "re_match STRICT_HOUSE_STATUS_RE (strip l) = Some m"
  shows "\<exists>h. house_char h \<and> feed_entries (upper (group m ''house''))
      (split_on CHR '','' (group m ''devices'')) d =
      (Inr (), fold (\<lambda>(k, v). AList.update k v)
        (map (\<lambda>x. (h # entry_unit x, entry_command x)) (split_on CHR '','' (group m ''devices''))) d) \<and>
    (\<forall>x \<in> set (split_on CHR '','' (group m ''devices'')). \<exists>u b. entry_of x u b)"
proof -
  obtain h where h: "group m ''house'' = [h]" "house_char (upper_char h)"
    "rmatch strict_devices (group m ''devices'') [] []"
    using strict_match_captures [OF assms] by auto
  show ?thesis
    using feed_entries_ok [OF h(2) strict_devices_split [OF h(3)]] strict_devices_split [OF h(3)] h
    by (auto simp: upper_def)
qed

text \<open>The invariant of a collector: its snapshot holds valid addresses with \<^verbatim>\<open>ON\<close> or \<^verbatim>\<open>OFF\<close>.\<close>

definition snapshot_ok :: "status_snapshot \<Rightarrow> bool" where
  "snapshot_ok ss \<longleftrightarrow> distinct (map fst (ss_devices ss)) \<and>
     list_all (\<lambda>(a, c). valid_address a \<and> (c = ON \<or> c = OFF)) (ss_devices ss)"

definition sp_inv :: "status_parser \<Rightarrow> bool" where
  "sp_inv sp \<longleftrightarrow> snapshot_ok (sp_snapshot sp) \<and> \<not> ss_completed (sp_snapshot sp) \<and>
     (sp_active sp \<or> ss_devices (sp_snapshot sp) = [])"

lemma fold_update_all:
  "list_all P d \<Longrightarrow> list_all P kvs \<Longrightarrow> list_all P (fold (\<lambda>(k, v). AList.update k v) kvs d)"
proof (induction kvs arbitrary: d)
  case (Cons kv kvs)
  have "list_all P d \<Longrightarrow> P (k, v) \<Longrightarrow> list_all P (AList.update k v d)" for k v and d :: "('a \<times> 'b) list"
    by (induction d) auto
  with Cons show ?case by (cases kv) auto
qed simp

lemma entries_valid:
  assumes "house_char h" and "\<forall>x \<in> set xs. \<exists>u b. entry_of x u b"
  shows "list_all (\<lambda>(a, c). valid_address a \<and> (c = ON \<or> c = OFF))
           (map (\<lambda>x. (h # entry_unit x, entry_command x)) xs)"
proof -
  have "valid_address (h # entry_unit x) \<and> (entry_command x = ON \<or> entry_command x = OFF)"
    if "x \<in> set xs" for x
  proof -
    from that assms(2) obtain u b where "entry_of x u b" by blast
    then show ?thesis
      using assms(1) by (auto simp: entry_meaning valid_address_def entry_of_def)
  qed
  then show ?thesis by (auto simp: list_all_iff)
qed

lemma sp_inv_reset [simp]: "sp_inv sp_reset" "sp_inv (sp_reset\<lparr>sp_active := True\<rparr>)"
  by (simp_all add: sp_inv_def sp_reset_def snapshot_ok_def empty_snapshot_def)

lemma feed_cases:
  assumes "sp_inv sp"
  shows "\<exists>r sp'. feed l sp = (Inr r, sp') \<and> sp_inv sp' \<and>
    (\<forall>ss. r = Some ss \<longrightarrow> snapshot_ok ss \<and> ss_completed ss \<and> sp_active sp \<and> sp' = sp_reset)"
proof (cases "re_match STRICT_HOUSE_STATUS_RE (strip l)")
  case None
  then show ?thesis
    using assms
    by (auto simp: feed_def Let_def sp_inv_def snapshot_ok_def sp_reset_def empty_snapshot_def)
next
  case (Some m)
  then obtain h where h: "house_char h" and
    eq: "feed_entries (upper (group m ''house''))
      (split_on CHR '','' (group m ''devices'')) (ss_devices (sp_snapshot sp)) =
      (Inr (), fold (\<lambda>(k, v). AList.update k v)
        (map (\<lambda>x. (h # entry_unit x, entry_command x)) (split_on CHR '','' (group m ''devices'')))
        (ss_devices (sp_snapshot sp)))" (is "_ = (_, ?d)") and
    en: "\<forall>x \<in> set (split_on CHR '','' (group m ''devices'')). \<exists>u b. entry_of x u b"
    using feed_house_line [OF Some] by blast
  have "list_all (\<lambda>(a, c). valid_address a \<and> (c = ON \<or> c = OFF)) ?d"
    using assms entries_valid [OF h en]
    by (intro fold_update_all) (auto simp: sp_inv_def snapshot_ok_def)
  moreover have "distinct (map fst ?d)"
    using assms by (intro dict.keys_fold_distinct) (simp add: sp_inv_def snapshot_ok_def)
  ultimately show ?thesis
    using assms Some eq
    by (auto simp: feed_def Let_def sp_inv_def snapshot_ok_def sp_reset_def empty_snapshot_def)
qed

end
