(* ===== verification/LineParser.thy ===== *)
theory LineParser
  imports StatusParser
begin

section \<open>The line parser (\<^verbatim>\<open>protocol/parser.py\<close>)\<close>

text \<open>
  \<^verbatim>\<open>ProtocolParser.parse_line\<close> turns one line of mochad output into an event.  Its state is the
  record \<open>protocol_parser\<close> (the detected capabilities and the status collector); \<open>now\<close> stands for
  \<^verbatim>\<open>datetime.now(timezone.utc)\<close>.  The lemmas show that it never raises, what it returns for every
  line mochad prints for a device or a house event, and that events between the lines of a status
  response neither disturb the response nor are swallowed by it.
\<close>

subsection \<open>Definitions\<close>

record protocol_capabilities =
  pc_rf :: bool
  pc_pl :: bool
  pc_rf_security :: bool
  pc_cameras :: bool
  pc_status :: bool

record protocol_parser =
  pp_capabilities :: protocol_capabilities
  pp_status :: status_parser

definition new_capabilities :: protocol_capabilities where
  "new_capabilities = \<lparr>pc_rf = False, pc_pl = False, pc_rf_security = False,
     pc_cameras = False, pc_status = False\<rparr>"

definition new_parser :: protocol_parser where
  "new_parser = \<lparr>pp_capabilities = new_capabilities, pp_status = sp_reset\<rparr>"

definition record_transport :: "transport \<Rightarrow> protocol_parser \<Rightarrow> protocol_parser" where
  "record_transport tr p =
     (let c = pp_capabilities p;
          c = (if tr = RF then c\<lparr>pc_rf := True\<rparr> else c);
          c = (if tr = PL then c\<lparr>pc_pl := True\<rparr> else c)
      in p\<lparr>pp_capabilities := c\<rparr>)"

text \<open>\<^verbatim>\<open>TABLE[key]\<close>: a \<^verbatim>\<open>KeyError\<close> for a missing key.\<close>

definition table_get :: "(string \<times> 'v) list \<Rightarrow> string \<Rightarrow> 'v result" where
  "table_get d k = (case map_of d k of None \<Rightarrow> Inl (KeyError k) | Some v \<Rightarrow> Inr v)"

definition parse_device_event ::
  "datetime \<Rightarrow> captures \<Rightarrow> protocol_parser \<Rightarrow> event option result \<times> protocol_parser" where
  "parse_device_event now m p =
     (case table_get TRANSPORT_MAP (normalize_token (group m ''transport'')) of
        Inl e \<Rightarrow> (Inl e, p)
      | Inr tr \<Rightarrow>
          (rbind (table_get DIRECTION_MAP (normalize_token (group m ''direction''))) (\<lambda>d.
           rbind (normalize_address (group m ''address'')) (\<lambda>a.
             Inr (Some (DeviceEvent \<lparr>de_timestamp = now, de_direction = d, de_transport = tr,
               de_command = command_of_token (normalize_token (group m ''command'')),
               de_address = a\<rparr>)))),
           record_transport tr p))"

definition parse_house_event ::
  "datetime \<Rightarrow> captures \<Rightarrow> protocol_parser \<Rightarrow> event option result \<times> protocol_parser" where
  "parse_house_event now m p =
     (case table_get TRANSPORT_MAP (normalize_token (group m ''transport'')) of
        Inl e \<Rightarrow> (Inl e, p)
      | Inr tr \<Rightarrow>
          (rbind (table_get DIRECTION_MAP (normalize_token (group m ''direction''))) (\<lambda>d.
           rbind (normalize_house (group m ''house'')) (\<lambda>h.
             Inr (Some (HouseEvent \<lparr>he_timestamp = now, he_direction = d, he_transport = tr,
               he_command = command_of_token (normalize_token (group m ''command'')),
               he_house = h\<rparr>)))),
           record_transport tr p))"

definition parse_line ::
  "datetime \<Rightarrow> string \<Rightarrow> protocol_parser \<Rightarrow> event option result \<times> protocol_parser" where
  "parse_line now l p =
     (let line = strip l in
      if line = [] then (Inr None, p)
      else if is_status_line line then
        (case feed line (pp_status p) of
           (Inl e, sp) \<Rightarrow> (Inl e, p\<lparr>pp_status := sp\<rparr>)
         | (Inr None, sp) \<Rightarrow> (Inr None, p\<lparr>pp_status := sp\<rparr>)
         | (Inr (Some ss), sp) \<Rightarrow>
             (Inr (Some (StatusSnapshot ss)),
              p\<lparr>pp_status := sp, pp_capabilities := (pp_capabilities p)\<lparr>pc_status := True\<rparr>\<rparr>))
      else case re_match DEVICE_EVENT_RE line of
        Some m \<Rightarrow> parse_device_event now m p
      | None \<Rightarrow>
          (case re_match HOUSE_EVENT_RE line of
             Some m \<Rightarrow> parse_house_event now m p
           | None \<Rightarrow> (Inr (Some (UnknownEvent \<lparr>ue_timestamp = now, ue_raw = line\<rparr>)), p)))"

text \<open>The events of a sequence of lines, as the bridge sees them.\<close>

fun parse_lines :: "datetime \<Rightarrow> string list \<Rightarrow> protocol_parser \<Rightarrow> event option list \<times> protocol_parser" where
  "parse_lines now [] p = ([], p)"
| "parse_lines now (l # ls) p =
     (let (r, p') = parse_line now l p; (es, p'') = parse_lines now ls p'
      in ((case r of Inl _ \<Rightarrow> None | Inr e \<Rightarrow> e) # es, p''))"

subsection \<open>Tokens and tables\<close>

lemma normalize_token_word:
  assumes "v \<noteq> []" "\<forall>c \<in> set v. \<not> is_space c"
  shows "normalize_token v = upper v"
proof -
  have "\<forall>c \<in> set (upper v). \<not> is_space c" using assms(2) by (auto simp: upper_def)
  then show ?thesis
    using assms by (simp add: normalize_token_def strip_no_space split_ws_def split_by_none)
qed

lemma upper_no_space: "upper v = w \<Longrightarrow> \<forall>c \<in> set w. \<not> is_space c \<Longrightarrow> \<forall>c \<in> set v. \<not> is_space c"
  by (auto simp: upper_def)

lemma token_two:
  assumes "upper v = w" "w \<noteq> []" "\<forall>c \<in> set w. \<not> is_space c"
  shows "normalize_token v = w"
  using assms normalize_token_word [of v] upper_no_space [OF assms(1,3)] by auto

definition direction_text :: "string \<Rightarrow> direction option" where
  "direction_text v = map_of DIRECTION_MAP (upper v)"

definition transport_text :: "string \<Rightarrow> transport option" where
  "transport_text v = (if upper v = ''RF'' then Some RF else if upper v = ''PL'' then Some PL else None)"

lemma direction_token:
  "upper v = ''TX'' \<Longrightarrow> table_get DIRECTION_MAP (normalize_token v) = Inr TX"
  "upper v = ''RX'' \<Longrightarrow> table_get DIRECTION_MAP (normalize_token v) = Inr RX"
  using token_two [of v "''TX''"] token_two [of v "''RX''"]
  by (simp_all add: table_get_def DIRECTION_MAP_def is_space_def)

lemma transport_token:
  "upper v = ''RF'' \<Longrightarrow> table_get TRANSPORT_MAP (normalize_token v) = Inr RF"
  "upper v = ''PL'' \<Longrightarrow> table_get TRANSPORT_MAP (normalize_token v) = Inr PL"
  using token_two [of v "''RF''"] token_two [of v "''PL''"]
  by (simp_all add: table_get_def TRANSPORT_MAP_def is_space_def)

lemma upper_literals: "upper ''Tx'' = ''TX''" "upper ''Rx'' = ''RX''" "upper ''RF'' = ''RF''" "upper ''PL'' = ''PL''"
  by code_simp+

lemma rmatch_direction:
  "rmatch direction_rx s s' e \<longleftrightarrow>
     (\<exists>v. e = [(''direction'', v)] \<and> s = v @ s' \<and> (upper v = ''TX'' \<or> upper v = ''RX''))"
  by (auto simp: direction_rx_def rmatch_simps rmatch_ci_word upper_literals)

lemma rmatch_transport:
  "rmatch transport_rx s s' e \<longleftrightarrow>
     (\<exists>v. e = [(''transport'', v)] \<and> s = v @ s' \<and> (upper v = ''RF'' \<or> upper v = ''PL''))"
  by (auto simp: transport_rx_def rmatch_simps rmatch_ci_word upper_literals)

lemma rmatch_address:
  "rmatch (Group ''address'' ADDRESS) s s' e \<longleftrightarrow>
     (\<exists>h u. e = [(''address'', h # u)] \<and> s = h # u @ s' \<and> house_char (upper_char h) \<and> unit_text u)"
  by (auto simp: ADDRESS_def rmatch_simps rmatch_unit_any ci_range_house)

lemma rmatch_house:
  "rmatch (Group ''house'' HOUSE) s s' e \<longleftrightarrow>
     (\<exists>h. e = [(''house'', [h])] \<and> s = h # s' \<and> house_char (upper_char h))"
  by (auto simp: HOUSE_def rmatch_simps ci_range_house)

lemma address_captured:
  assumes "house_char (upper_char h)" "unit_text u"
  shows "normalize_address (h # u) = Inr (upper_char h # u)" and "valid_address (upper_char h # u)"
proof -
  have "\<forall>c \<in> set (h # u). \<not> is_space c"
    using assms house_char_not_space [OF assms(1)] unit_text_digits [OF assms(2)] digit_not_space
    by auto
  then have "canon (h # u) = upper_char h # u"
    using unit_text_digits [OF assms(2)]
    by (auto simp: strip_no_space upper_def upper_char_digit intro!: map_idI)
  moreover show "valid_address (upper_char h # u)"
    using assms by (simp add: valid_address_def)
  ultimately show "normalize_address (h # u) = Inr (upper_char h # u)"
    by (simp add: normalize_address_spec)
qed

lemma house_captured:
  "house_char (upper_char h) \<Longrightarrow> normalize_house [h] = Inr [upper_char h]"
  using house_char_not_space [of "upper_char h"]
  by (simp add: normalize_house_spec strip_no_space upper_def)

subsection \<open>The parser never raises\<close>

definition house_text :: "string \<Rightarrow> bool" where
  "house_text h \<longleftrightarrow> (case h of [c] \<Rightarrow> house_char c | _ \<Rightarrow> False)"

fun event_ok :: "event \<Rightarrow> bool" where
  "event_ok (DeviceEvent e) \<longleftrightarrow> valid_address (de_address e) \<and>
     (de_transport e = RF \<or> de_transport e = PL)"
| "event_ok (HouseEvent e) \<longleftrightarrow> house_text (he_house e) \<and>
     (he_transport e = RF \<or> he_transport e = PL)"
| "event_ok (StatusSnapshot ss) \<longleftrightarrow> snapshot_ok ss \<and> ss_completed ss"
| "event_ok (UnknownEvent e) \<longleftrightarrow> True"

definition pp_inv :: "protocol_parser \<Rightarrow> bool" where
  "pp_inv p \<longleftrightarrow> sp_inv (pp_status p)"

lemma pp_inv_new [simp]: "pp_inv new_parser"
  by (simp add: pp_inv_def new_parser_def)

lemma record_transport_status [simp]: "pp_status (record_transport tr p) = pp_status p"
  by (simp add: record_transport_def Let_def)

lemma rmatch_next_group:
  assumes "rmatch (seqs (qs @ g # rs)) s s' m" "\<forall>q \<in> set qs. nocap q" "rs \<noteq> []"
  obtains s1 s2 e1 e2 where "rmatch g s1 s2 e1" "rmatch (seqs rs) s2 s' e2" "m = e1 @ e2"
proof -
  from rmatch_prefix [OF assms(2) _ assms(1)] obtain s1 where "rmatch (seqs (g # rs)) s1 s' m" by blast
  then have "rmatch (Cat g (seqs rs)) s1 s' m" by (simp add: rmatch_seqs_Cons)
  then show ?thesis using that by (auto simp: rmatch_simps)
qed

text \<open>
  The two event patterns differ only in the keyword and in the group that names the target.  Peeled
  one capture group at a time, a match determines the four captures.
\<close>

lemma event_captures:
  assumes "re_match (seqs (TIMESTAMP @
     [plus rx_space, direction_rx, plus rx_space, transport_rx, plus rx_space,
      ci_word kw, plus rx_space, target, plus rx_space,
      ci_word ''Func:'', plus rx_space, Group ''command'' (lazy_plus rx_dot), Eol])) l = Some m"
  shows "\<exists>d t s1 s2 e c. m = [(''direction'', d), (''transport'', t)] @ e @ [(''command'', c)] \<and>
    (upper d = ''TX'' \<or> upper d = ''RX'') \<and> (upper t = ''RF'' \<or> upper t = ''PL'') \<and>
    rmatch target s1 s2 e"
proof -
  let ?cmd = "Group ''command'' (lazy_plus rx_dot)"
  let ?t4 = "[plus rx_space, ci_word ''Func:'', plus rx_space] @ ?cmd # [Eol]"
  let ?t3 = "[plus rx_space, ci_word kw, plus rx_space] @ target # ?t4"
  let ?t2 = "[plus rx_space] @ transport_rx # ?t3"
  from re_match_Some [OF assms] obtain s' where
    "rmatch (seqs ((TIMESTAMP @ [plus rx_space]) @ direction_rx # ?t2)) l s' m"
    by auto
  then obtain a1 b1 e1 m1 where 1: "rmatch direction_rx a1 b1 e1" "rmatch (seqs ?t2) b1 s' m1" "m = e1 @ m1"
    by (rule rmatch_next_group) (use nocap_TIMESTAMP in auto)
  from 1(2) obtain a2 b2 e2 m2 where 2: "rmatch transport_rx a2 b2 e2" "rmatch (seqs ?t3) b2 s' m2" "m1 = e2 @ m2"
    by (rule rmatch_next_group) auto
  from 2(2) obtain a3 b3 e3 m3 where 3: "rmatch target a3 b3 e3" "rmatch (seqs ?t4) b3 s' m3" "m2 = e3 @ m3"
    by (rule rmatch_next_group) auto
  from 3(2) obtain a4 b4 e4 m4 where 4: "rmatch ?cmd a4 b4 e4" "rmatch (seqs [Eol]) b4 s' m4" "m3 = e4 @ m4"
    by (rule rmatch_next_group) auto
  from 4(1) obtain c where "e4 = [(''command'', c)]"
    by (auto simp: rmatch_simps rx_dot_def rmatch_lazy_plus_Cls)
  moreover from 4(2) have "m4 = []" by (auto simp: rmatch_simps)
  ultimately show ?thesis
    using 1(1,3) 2(1,3) 3(1,3) 4(3) by (auto simp: rmatch_direction rmatch_transport; blast)
qed

lemma device_event_captures:
  assumes "re_match DEVICE_EVENT_RE l = Some m"
  shows "\<exists>d t h u c. m = [(''direction'', d), (''transport'', t), (''address'', h # u), (''command'', c)] \<and>
    (upper d = ''TX'' \<or> upper d = ''RX'') \<and> (upper t = ''RF'' \<or> upper t = ''PL'') \<and>
    house_char (upper_char h) \<and> unit_text u"
  using event_captures [OF assms [unfolded DEVICE_EVENT_RE_def]] by (auto simp: rmatch_address)

lemma house_event_captures:
  assumes "re_match HOUSE_EVENT_RE l = Some m"
  shows "\<exists>d t h c. m = [(''direction'', d), (''transport'', t), (''house'', [h]), (''command'', c)] \<and>
    (upper d = ''TX'' \<or> upper d = ''RX'') \<and> (upper t = ''RF'' \<or> upper t = ''PL'') \<and>
    house_char (upper_char h)"
  using event_captures [OF assms [unfolded HOUSE_EVENT_RE_def]] by (auto simp: rmatch_house)

lemma parse_device_event_ok:
  assumes "re_match DEVICE_EVENT_RE l = Some m"
  shows "\<exists>e p'. parse_device_event now m p = (Inr (Some (DeviceEvent e)), p') \<and>
           event_ok (DeviceEvent e) \<and> pp_status p' = pp_status p"
  using device_event_captures [OF assms]
  by (auto simp: parse_device_event_def group_def transport_token direction_token address_captured)

lemma parse_house_event_ok:
  assumes "re_match HOUSE_EVENT_RE l = Some m"
  shows "\<exists>e p'. parse_house_event now m p = (Inr (Some (HouseEvent e)), p') \<and>
           event_ok (HouseEvent e) \<and> pp_status p' = pp_status p"
  using house_event_captures [OF assms]
  by (auto simp: parse_house_event_def group_def transport_token direction_token house_captured
      house_text_def)

lemma parse_line_total:
  assumes "pp_inv p"
  shows "\<exists>r p'. parse_line now l p = (Inr r, p') \<and> pp_inv p' \<and> pred_option event_ok r"
proof -
  consider "strip l = []" | "strip l \<noteq> []" "is_status_line (strip l)"
    | m where "strip l \<noteq> []" "\<not> is_status_line (strip l)" "re_match DEVICE_EVENT_RE (strip l) = Some m"
    | m where "strip l \<noteq> []" "\<not> is_status_line (strip l)" "re_match DEVICE_EVENT_RE (strip l) = None"
        "re_match HOUSE_EVENT_RE (strip l) = Some m"
    | "strip l \<noteq> []" "\<not> is_status_line (strip l)" "re_match DEVICE_EVENT_RE (strip l) = None"
        "re_match HOUSE_EVENT_RE (strip l) = None"
    by (meson option.exhaust)
  then show ?thesis
  proof cases
    case 2
    from assms have "sp_inv (pp_status p)" by (simp add: pp_inv_def)
    from feed_cases [OF this, of "strip l"] obtain r sp where
      "feed (strip l) (pp_status p) = (Inr r, sp)" "sp_inv sp"
      "\<forall>ss. r = Some ss \<longrightarrow> snapshot_ok ss \<and> ss_completed ss"
      by blast
    with 2 show ?thesis
      by (cases r) (auto simp: parse_line_def Let_def pp_inv_def)
  next
    case (3 m)
    with assms parse_device_event_ok [OF 3(3), of now p] show ?thesis
      by (auto simp: parse_line_def Let_def pp_inv_def)
  next
    case (4 m)
    with assms parse_house_event_ok [OF 4(4), of now p] show ?thesis
      by (auto simp: parse_line_def Let_def pp_inv_def)
  qed (use assms in \<open>auto simp: parse_line_def Let_def\<close>)
qed




subsection \<open>Rendered lines\<close>

text \<open>
  A command text as mochad prints it: no line break, no white space at either end.  The line below
  is what mochad writes for an event.
\<close>

definition command_text :: "string \<Rightarrow> bool" where
  "command_text c \<longleftrightarrow> c \<noteq> [] \<and> CHR 0x0A \<notin> set c \<and> \<not> is_space (hd c) \<and> \<not> is_space (last c)"

definition event_line :: "string \<Rightarrow> string \<Rightarrow> string \<Rightarrow> string \<Rightarrow> string \<Rightarrow> string \<Rightarrow> string" where
  "event_line ts d t kw a cmd =
     ts @ '' '' @ d @ '' '' @ t @ '' '' @ kw @ '' '' @ a @ '' Func: '' @ cmd"

lemma ms_direction:
  "d \<in> {''Tx'', ''Rx''} \<Longrightarrow> ms (Cat direction_rx r) (d @ s) = prepend [(''direction'', d)] (ms r s)"
  by (auto simp: direction_rx_def ci_word_def ci_eq_def str_eval)

lemma ms_transport:
  "t \<in> {''RF'', ''PL''} \<Longrightarrow> ms (Cat transport_rx r) (t @ s) = prepend [(''transport'', t)] (ms r s)"
  by (auto simp: transport_rx_def ci_word_def ci_eq_def str_eval)

lemma ms_space_one:
  "s \<noteq> [] \<Longrightarrow> \<not> is_space (hd s) \<Longrightarrow> ms (Cat (plus rx_space) r) (CHR '' '' # s) = ms r s"
  unfolding rx_space_def by (rule ms_plus_one) simp_all

lemma ms_command:
  assumes "command_text c"
  shows "\<exists>xs. ms (Cat (Group ''command'' (lazy_plus rx_dot)) Eol) c = ([], [(''command'', c)]) # xs"
proof (rule Group_Eol_match)
  from assms show "CHR 0x0A \<notin> set c" by (simp add: command_text_def)
  from assms show "rmatch (lazy_plus rx_dot) c [] []"
    by (cases c) (auto simp: command_text_def rx_dot_def rmatch_lazy_plus_Cls)
  show "e = []" if "rmatch (lazy_plus rx_dot) c s' e" for s' e
    using that by (simp add: rx_dot_def rmatch_lazy_plus_Cls)
qed

lemma event_prefix:
  assumes "timestamp_text ts" "d \<in> {''Tx'', ''Rx''}" "t \<in> {''RF'', ''PL''}" "s \<noteq> []" "\<not> is_space (hd s)"
  shows "ms (seqs (TIMESTAMP @ plus rx_space # direction_rx # plus rx_space # transport_rx #
      plus rx_space # r # rs)) (ts @ CHR '' '' # d @ CHR '' '' # t @ CHR '' '' # s) =
    prepend [(''direction'', d), (''transport'', t)] (ms (seqs (r # rs)) s)"
proof -
  let ?k = "seqs (r # rs)"
  have ns: "d \<noteq> []" "\<not> is_space (hd d)" "t \<noteq> []" "\<not> is_space (hd t)"
    using assms(2,3) by (auto simp: is_space_def)
  have "ms (seqs (direction_rx # plus rx_space # transport_rx # plus rx_space # r # rs))
      (d @ CHR '' '' # t @ CHR '' '' # s) =
    prepend [(''direction'', d)]
      (ms (Cat (plus rx_space) (Cat transport_rx (Cat (plus rx_space) ?k))) (CHR '' '' # t @ CHR '' '' # s))"
    unfolding seqs.simps by (rule ms_direction [OF assms(2)])
  also have "ms (Cat (plus rx_space) (Cat transport_rx (Cat (plus rx_space) ?k))) (CHR '' '' # t @ CHR '' '' # s) =
      ms (Cat transport_rx (Cat (plus rx_space) ?k)) (t @ CHR '' '' # s)"
    using ns by (intro ms_space_one) auto
  also have "\<dots> = prepend [(''transport'', t)] (ms (Cat (plus rx_space) ?k) (CHR '' '' # s))"
    by (rule ms_transport [OF assms(3)])
  also have "ms (Cat (plus rx_space) ?k) (CHR '' '' # s) = ms ?k s"
    using assms(4,5) by (rule ms_space_one)
  finally show ?thesis
    using ns by (subst ms_timestamp [OF assms(1)]) simp_all
qed

lemma event_match:
  assumes "timestamp_text ts" "d \<in> {''Tx'', ''Rx''}" "t \<in> {''RF'', ''PL''}" "command_text cmd"
    and kw: "kw \<noteq> []" "\<not> is_space (hd kw)" and a: "a \<noteq> []" "\<not> is_space (hd a)"
    and target: "\<And>r s. ms (Cat target (Cat (plus rx_space) r)) (a @ CHR '' '' # s) =
        prepend e (ms (Cat (plus rx_space) r) (CHR '' '' # s))"
  shows "re_match (seqs (TIMESTAMP @
     [plus rx_space, direction_rx, plus rx_space, transport_rx, plus rx_space,
      ci_word kw, plus rx_space, target, plus rx_space,
      ci_word ''Func:'', plus rx_space, Group ''command'' (lazy_plus rx_dot), Eol]))
     (event_line ts d t kw a cmd) = Some ([(''direction'', d), (''transport'', t)] @ e @ [(''command'', cmd)])"
proof -
  let ?r5 = "Cat (Group ''command'' (lazy_plus rx_dot)) Eol"
  let ?r4 = "Cat (plus rx_space) (Cat (ci_word ''Func:'') (Cat (plus rx_space) ?r5))"
  let ?r3 = "Cat (ci_word kw) (Cat (plus rx_space) (Cat target ?r4))"
  let ?s = "kw @ CHR '' '' # a @ CHR '' '' # ''Func:'' @ CHR '' '' # cmd"
  obtain xs where xs: "ms ?r5 cmd = ([], [(''command'', cmd)]) # xs"
    using ms_command [OF assms(4)] by blast
  have cmd: "cmd \<noteq> []" "\<not> is_space (hd cmd)" using assms(4) by (simp_all add: command_text_def)
  have 4: "ms ?r4 (CHR '' '' # ''Func:'' @ CHR '' '' # cmd) = ms ?r5 cmd"
    using cmd by (subst ms_space_one, simp, simp add: is_space_def, subst ms_ci_word, subst ms_space_one) auto
  have 3: "ms ?r3 ?s = prepend e (ms ?r5 cmd)"
    using a by (subst ms_ci_word, subst ms_space_one) (simp_all only: target 4, simp_all)
  have line: "event_line ts d t kw a cmd = ts @ CHR '' '' # d @ CHR '' '' # t @ CHR '' '' # ?s"
    by (simp add: event_line_def)
  have s: "?s \<noteq> []" "\<not> is_space (hd ?s)" using kw by simp_all
  show ?thesis
    unfolding re_match_def line event_prefix [OF assms(1-3) s] using 3 by (simp only: seqs.simps xs) simp
qed

lemma ms_address_group:
  assumes "valid_address a"
  shows "ms (Cat (Group ''address'' ADDRESS) (Cat (plus rx_space) r)) (a @ CHR '' '' # s) =
     prepend [(''address'', a)] (ms (Cat (plus rx_space) r) (CHR '' '' # s))"
proof -
  obtain h u where a: "a = h # u" "house_char h" "unit_text u"
    using assms by (auto simp: valid_address_def split: list.splits)
  have h: "ci_range CHR ''A'' CHR ''P'' h" using a(2) by (simp add: ci_range_house upper_house_char)
  from a(3) show ?thesis
    unfolding unit_text_def a(1)
    by (auto simp: ADDRESS_def h ms_unit_rx range_1_9 range_0_6 plus_def rx_space_def is_space_def)
qed

lemma ms_house_group:
  assumes "house_char h"
  shows "ms (Cat (Group ''house'' HOUSE) (Cat (plus rx_space) r)) ([h] @ CHR '' '' # s) =
     prepend [(''house'', [h])] (ms (Cat (plus rx_space) r) (CHR '' '' # s))"
  using assms by (simp add: HOUSE_def ci_range_house upper_house_char)

lemma ms_seqs_ci_word_fail:
  "w \<noteq> [] \<Longrightarrow> s = [] \<or> upper_char (hd s) \<noteq> upper_char (hd w) \<Longrightarrow> ms (seqs (ci_word w # rs)) s = []"
  unfolding ms_seqs_Cons by (rule ms_ci_word_fail)

lemma upper_char_literals:
  "upper_char CHR ''D'' = CHR ''D''" "upper_char CHR ''S'' = CHR ''S''" "upper_char CHR ''E'' = CHR ''E''"
  "upper_char CHR ''H'' = CHR ''H''"
  by code_simp+

text \<open>A stamped line whose first word starts with no keyword letter is not a status line.\<close>

lemma not_status_line:
  assumes "timestamp_text ts" "s \<noteq> []" "\<not> is_space (hd s)" "\<not> is_space (last s)"
    and "upper_char (hd s) \<notin> {CHR ''D'', CHR ''S'', CHR ''E'', CHR ''H''}"
  shows "\<not> is_status_line (ts @ CHR '' '' # s)"
proof -
  have fail: "ms (seqs (TIMESTAMP @ plus rx_space # ci_word w # rs)) (ts @ CHR '' '' # s) = []"
    if "w \<noteq> []" "upper_char (hd w) \<in> {CHR ''D'', CHR ''S'', CHR ''E'', CHR ''H''}" for w rs
    unfolding ms_timestamp [OF assms(1-3)]
    using that assms(5) by (intro ms_seqs_ci_word_fail) auto
  show ?thesis
    unfolding is_status_line_def Let_def strip_timestamp_line [OF assms(1,2,4)] matches_ms
      DEVICE_SELECTED_RE_def DEVICE_STATUS_RE_def SECURITY_STATUS_RE_def HOUSE_COUNT_RE_def
      STRICT_HOUSE_STATUS_RE_def END_STATUS_RE_def
    by (simp add: fail upper_char_literals)
qed

lemma event_line_facts:
  assumes "timestamp_text ts" "d \<in> {''Tx'', ''Rx''}" "command_text cmd"
  shows "strip (event_line ts d t kw a cmd) = event_line ts d t kw a cmd"
    and "\<not> is_status_line (event_line ts d t kw a cmd)" and "event_line ts d t kw a cmd \<noteq> []"
proof -
  let ?s = "d @ '' '' @ t @ '' '' @ kw @ '' '' @ a @ '' Func: '' @ cmd"
  have s: "?s \<noteq> []" "\<not> is_space (hd ?s)" "\<not> is_space (last ?s)"
    "upper_char (hd ?s) \<notin> {CHR ''D'', CHR ''S'', CHR ''E'', CHR ''H''}"
    using assms(2,3) by (auto simp: command_text_def str_eval is_space_def)
  have e: "event_line ts d t kw a cmd = ts @ CHR '' '' # ?s" by (simp add: event_line_def)
  show "strip (event_line ts d t kw a cmd) = event_line ts d t kw a cmd"
    unfolding e by (rule strip_timestamp_line [OF assms(1) s(1,3)])
  show "\<not> is_status_line (event_line ts d t kw a cmd)"
    unfolding e by (rule not_status_line [OF assms(1) s])
  show "event_line ts d t kw a cmd \<noteq> []" unfolding e by simp
qed

definition direction_of :: "string \<Rightarrow> direction" where
  "direction_of d = (if d = ''Tx'' then TX else RX)"

definition transport_of :: "string \<Rightarrow> transport" where
  "transport_of t = (if t = ''RF'' then RF else PL)"

lemma rendered_tokens:
  "d \<in> {''Tx'', ''Rx''} \<Longrightarrow> table_get DIRECTION_MAP (normalize_token d) = Inr (direction_of d)"
  "t \<in> {''RF'', ''PL''} \<Longrightarrow> table_get TRANSPORT_MAP (normalize_token t) = Inr (transport_of t)"
  using direction_token [of d] transport_token [of t]
  by (auto simp: direction_of_def transport_of_def upper_literals)

lemma recorded_transport:
  "t \<in> {''RF'', ''PL''} \<Longrightarrow> record_transport (transport_of t) p =
     p\<lparr>pp_capabilities := (if t = ''RF'' then (pp_capabilities p)\<lparr>pc_rf := True\<rparr> else (pp_capabilities p)\<lparr>pc_pl := True\<rparr>)\<rparr>"
  by (auto simp: record_transport_def transport_of_def Let_def)

lemma valid_address_edges: "valid_address a \<Longrightarrow> a \<noteq> [] \<and> \<not> is_space (hd a)"
  by (auto simp: valid_address_def house_char_not_space split: list.splits)

lemma device_line_parsed:
  assumes "timestamp_text ts" "d \<in> {''Tx'', ''Rx''}" "t \<in> {''RF'', ''PL''}" "valid_address a"
    and "command_text cmd"
  shows "parse_line now (event_line ts d t ''HouseUnit:'' a cmd) p =
    (Inr (Some (DeviceEvent \<lparr>de_timestamp = now, de_direction = direction_of d,
       de_transport = transport_of t, de_command = command_of_token (normalize_token cmd),
       de_address = a\<rparr>)), p\<lparr>pp_capabilities := (if t = ''RF'' then (pp_capabilities p)\<lparr>pc_rf := True\<rparr> else (pp_capabilities p)\<lparr>pc_pl := True\<rparr>)\<rparr>)"
proof -
  have "re_match DEVICE_EVENT_RE (event_line ts d t ''HouseUnit:'' a cmd) =
     Some ([(''direction'', d), (''transport'', t)] @ [(''address'', a)] @ [(''command'', cmd)])"
    unfolding DEVICE_EVENT_RE_def using valid_address_edges [OF assms(4)]
    by (intro event_match assms(1-3,5) ms_address_group [OF assms(4)]) (auto simp: is_space_def)
  moreover have "normalize_address a = Inr a"
    using assms(4) validation.norm_Inr_iff valid_address_canon by blast
  ultimately show ?thesis
    using event_line_facts [OF assms(1,2,5), of t "''HouseUnit:''" a]
    by (simp add: parse_line_def Let_def parse_device_event_def group_def rendered_tokens(1) [OF assms(2)] rendered_tokens(2) [OF assms(3)] recorded_transport [OF assms(3)])
qed

text \<open>
  C17. The line mochad prints for a device event (time stamp, direction, transport, \<^verbatim>\<open>HouseUnit:\<close>
  address, \<^verbatim>\<open>Func:\<close> command) is parsed, from any state of the parser, into a \<^verbatim>\<open>DeviceEvent\<close> with
  exactly those fields.  The status collector is not touched, and only the capability of the line's
  transport is recorded.
\<close>

theorem parse_device_line:
  assumes "timestamp_text ts" "d \<in> {''Tx'', ''Rx''}" "t \<in> {''RF'', ''PL''}" "valid_address a"
    and "command_text cmd"
  shows "parse_line now (event_line ts d t ''HouseUnit:'' a cmd) p =
    (Inr (Some (DeviceEvent \<lparr>de_timestamp = now, de_direction = direction_of d,
       de_transport = transport_of t, de_command = command_of_token (normalize_token cmd),
       de_address = a\<rparr>)), p\<lparr>pp_capabilities := (if t = ''RF'' then (pp_capabilities p)\<lparr>pc_rf := True\<rparr> else (pp_capabilities p)\<lparr>pc_pl := True\<rparr>)\<rparr>)"
  by (rule device_line_parsed [OF assms])

theorem parse_device_line_witness:
  "parse_line ''now'' (event_line ''07/11 12:00:02'' ''Rx'' ''RF'' ''HouseUnit:'' ''C11'' ''Bright'') new_parser =
    (Inr (Some (DeviceEvent \<lparr>de_timestamp = ''now'', de_direction = direction_of ''Rx'',
       de_transport = transport_of ''RF'', de_command = command_of_token (normalize_token ''Bright''),
       de_address = ''C11''\<rparr>)), new_parser\<lparr>pp_capabilities := (pp_capabilities new_parser)\<lparr>pc_rf := True\<rparr>\<rparr>)"
proof -
  have h: "timestamp_text ''07/11 12:00:02''" "''Rx'' \<in> {''Tx'', ''Rx''}" "''RF'' \<in> {''RF'', ''PL''}" "valid_address ''C11''"
    "command_text ''Bright''" by code_simp+
  show ?thesis using parse_device_line [OF h, of "''now''" new_parser] by (simp only: if_True refl)
qed

lemma house_line_not_device:
  assumes "timestamp_text ts" "d \<in> {''Tx'', ''Rx''}" "t \<in> {''RF'', ''PL''}"
  shows "re_match DEVICE_EVENT_RE (event_line ts d t ''House:'' a cmd) = None"
proof -
  let ?s = "''House:'' @ '' '' @ a @ '' Func: '' @ cmd"
  have kw: "ms (seqs (ci_word ''HouseUnit:'' # rs)) ?s = []" for rs
    unfolding ms_seqs_Cons by (simp add: ci_word_def ci_eq_def str_eval)
  have line: "event_line ts d t ''House:'' a cmd = ts @ CHR '' '' # d @ CHR '' '' # t @ CHR '' '' # ?s"
    by (simp add: event_line_def)
  have s: "?s \<noteq> []" "\<not> is_space (hd ?s)" by (simp_all add: is_space_def)
  show ?thesis
    unfolding re_match_def DEVICE_EVENT_RE_def line append_Cons append_Nil
      event_prefix [OF assms s, unfolded append_Cons append_Nil] using kw by (simp del: seqs.simps)
qed

text \<open>
  C18. The line mochad prints for a house event is parsed into a \<^verbatim>\<open>HouseEvent\<close> with exactly the
  direction, transport, command and house of the line; it is not taken for a device event although
  the keywords \<^verbatim>\<open>House:\<close> and \<^verbatim>\<open>HouseUnit:\<close> share a prefix.
\<close>

theorem parse_house_line:
  assumes "timestamp_text ts" "d \<in> {''Tx'', ''Rx''}" "t \<in> {''RF'', ''PL''}" "house_char h"
    and "command_text cmd"
  shows "parse_line now (event_line ts d t ''House:'' [h] cmd) p =
    (Inr (Some (HouseEvent \<lparr>he_timestamp = now, he_direction = direction_of d,
       he_transport = transport_of t, he_command = command_of_token (normalize_token cmd),
       he_house = [h]\<rparr>)), p\<lparr>pp_capabilities := (if t = ''RF'' then (pp_capabilities p)\<lparr>pc_rf := True\<rparr> else (pp_capabilities p)\<lparr>pc_pl := True\<rparr>)\<rparr>)"
proof -
  have "re_match HOUSE_EVENT_RE (event_line ts d t ''House:'' [h] cmd) =
     Some ([(''direction'', d), (''transport'', t)] @ [(''house'', [h])] @ [(''command'', cmd)])"
    unfolding HOUSE_EVENT_RE_def using house_char_not_space [OF assms(4)]
    by (intro event_match assms(1-3,5) ms_house_group [OF assms(4)]) (auto simp: is_space_def)
  then show ?thesis
    using event_line_facts [OF assms(1,2,5), of t "''House:''" "[h]"] house_captured [of h]
      house_line_not_device [OF assms(1-3)]
    by (simp add: parse_line_def Let_def parse_house_event_def group_def rendered_tokens(1) [OF assms(2)] rendered_tokens(2) [OF assms(3)] recorded_transport [OF assms(3)] assms(4)
        upper_house_char)
qed

theorem parse_house_line_witness:
  "parse_line ''now'' (event_line ''07/11 12:00:02'' ''Tx'' ''PL'' ''House:'' ''P'' ''All lights on'') new_parser =
    (Inr (Some (HouseEvent \<lparr>he_timestamp = ''now'', he_direction = direction_of ''Tx'',
       he_transport = transport_of ''PL'', he_command = command_of_token (normalize_token ''All lights on''),
       he_house = ''P''\<rparr>)), new_parser\<lparr>pp_capabilities := (pp_capabilities new_parser)\<lparr>pc_pl := True\<rparr>\<rparr>)"
proof -
  have h: "timestamp_text ''07/11 12:00:02''" "''Tx'' \<in> {''Tx'', ''Rx''}" "''PL'' \<in> {''RF'', ''PL''}" "house_char CHR ''P''"
    "command_text ''All lights on''" by code_simp+
  have "''PL'' \<noteq> ''RF''" by simp
  then show ?thesis using parse_house_line [OF h, of "''now''" new_parser] by (simp only: if_False)
qed

text \<open>A line that is no status line neither reads nor changes the status collector.\<close>

lemma parse_line_isolated:
  assumes "\<not> is_status_line (strip l)"
  shows "pp_status (snd (parse_line now l p)) = pp_status p"
    and "fst (parse_line now l p) = fst (parse_line now l p')"
  using assms
  by (auto simp: parse_line_def Let_def parse_device_event_def parse_house_event_def
      split: option.splits sum.splits)

end
