(* ===== verification/StatusBlock.thy ===== *)
theory StatusBlock
  imports LineParser
begin

section \<open>Status responses inside the event stream\<close>

text \<open>
  What the parser makes of a whole \<^verbatim>\<open>st\<close> response: \<^verbatim>\<open>Device selected\<close>, house lines, \<^verbatim>\<open>End status\<close>, with
  any other lines of the event stream in between.  The snapshot holds exactly the bits of the house
  lines, and every interleaved line gives the event it gives on its own.
\<close>

subsection \<open>Rendered responses\<close>

definition bit_text :: "bool \<Rightarrow> string" where
  "bit_text b = (if b then ''1'' else ''0'')"

definition entry_text :: "string \<times> bool \<Rightarrow> string" where
  "entry_text = (\<lambda>(u, b). u @ CHR ''='' # bit_text b)"

definition entries_text :: "(string \<times> bool) list \<Rightarrow> string" where
  "entries_text es = join '','' (map entry_text es)"

text \<open>One line between \<^verbatim>\<open>Device selected\<close> and \<^verbatim>\<open>End status\<close>.\<close>

datatype block_line =
    HouseLine string char "(string \<times> bool) list"
  | OtherLine string

fun block_text :: "block_line \<Rightarrow> string" where
  "block_text (HouseLine ts h es) = ts @ '' House '' @ [h] @ '': '' @ entries_text es"
| "block_text (OtherLine l) = l"

fun block_line_ok :: "block_line \<Rightarrow> bool" where
  "block_line_ok (HouseLine ts h es) \<longleftrightarrow>
     timestamp_text ts \<and> house_char h \<and> es \<noteq> [] \<and> list_all (\<lambda>(u, b). unit_text u) es"
| "block_line_ok (OtherLine l) \<longleftrightarrow> \<not> is_status_line (strip l)"

fun block_updates :: "block_line \<Rightarrow> (address \<times> command) list" where
  "block_updates (HouseLine ts h es) = map (\<lambda>(u, b). (h # u, if b then ON else OFF)) es"
| "block_updates (OtherLine l) = []"

text \<open>The event of an interleaved line is the one a fresh parser gives.\<close>

fun block_event :: "datetime \<Rightarrow> block_line \<Rightarrow> event option" where
  "block_event now (HouseLine ts h es) = None"
| "block_event now (OtherLine l) =
     (case fst (parse_line now l new_parser) of Inl _ \<Rightarrow> None | Inr e \<Rightarrow> e)"

subsection \<open>The entries\<close>

lemma bit_text_char: "\<exists>c. bit_text b = [c] \<and> bit_char c \<and> (c = CHR ''1'' \<longleftrightarrow> b)"
  by (simp add: bit_text_def bit_char_def)

lemma entry_text_of: "unit_text u \<Longrightarrow> \<exists>c. entry_of (entry_text (u, b)) u c \<and> (c = CHR ''1'' \<longleftrightarrow> b)"
  using bit_text_char [of b] entry_ofI [of u _ "[]" "[]" "[]" "[]"]
  unfolding entry_text_def by (metis append_Nil blanks_Nil case_prod_conv)

lemma entry_text_meaning:
  "unit_text u \<Longrightarrow> entry_unit (entry_text (u, b)) = u"
  "unit_text u \<Longrightarrow> entry_command (entry_text (u, b)) = (if b then ON else OFF)"
  using entry_text_of [of u b] entry_meaning by fastforce+

lemma rmatch_entry_text:
  assumes "unit_text u"
  shows "rmatch (seqs strict_entry) (entry_text (u, b) @ s) s []"
proof -
  obtain c where c: "bit_text b = [c]" "bit_char c" using bit_text_char [of b] by blast
  have "entry_text (u, b) @ s = u @ [] @ CHR ''='' # [] @ c # s" by (simp add: entry_text_def c)
  then show ?thesis unfolding rmatch_strict_entry using assms c(2) blanks_Nil by blast
qed

definition more_text :: "(string \<times> bool) list \<Rightarrow> string" where
  "more_text es = concat (map (\<lambda>e. CHR '','' # entry_text e) es)"

lemma entries_text_Cons: "entries_text (e # es) = entry_text e @ more_text es"
  by (induction es arbitrary: e) (simp_all add: entries_text_def more_text_def)

lemma rmatch_more_text:
  "list_all (\<lambda>(u, b). unit_text u) es \<Longrightarrow> rmatch (Star more_entry) (more_text es) [] []"
proof (induction es)
  case (Cons e es)
  obtain u b where e: "e = (u, b)" by (cases e)
  obtain c where c: "bit_text b = [c]" "bit_char c" using bit_text_char [of b] by blast
  have "more_text (e # es) = [] @ CHR '','' # [] @ u @ [] @ CHR ''='' # [] @ c # more_text es"
    by (simp add: more_text_def e entry_text_def c)
  then have "rmatch more_entry (more_text (e # es)) (more_text es) []"
    unfolding rmatch_more_entry using Cons.prems e c(2) blanks_Nil
    by (metis list.pred_inject(2) case_prod_conv)
  moreover have "length (more_text es) < length (more_text (e # es))"
    by (simp add: more_text_def)
  ultimately show ?case
    using rm_Star [of more_entry "more_text (e # es)" "more_text es" "[]" "[]" "[]"] Cons by simp
qed (simp add: more_text_def rm_Star0)

lemma rmatch_entries_text:
  assumes "es \<noteq> []" "list_all (\<lambda>(u, b). unit_text u) es"
  shows "rmatch strict_devices (entries_text es) [] []"
proof -
  obtain u b fs where es: "es = (u, b) # fs" using assms(1) by (cases es) auto
  then show ?thesis
    using rmatch_entry_text [of u b "more_text fs"] rmatch_more_text [of fs] assms(2)
    by (auto simp: rmatch_strict_devices entries_text_Cons)
qed

lemma entry_text_chars:
  "unit_text u \<Longrightarrow> c \<in> set (entry_text (u, b)) \<Longrightarrow> is_digit c \<or> c = CHR ''=''"
  using unit_text_digits [of u] by (auto simp: entry_text_def bit_text_def char_defs split: if_splits)

lemma entries_split:
  assumes "es \<noteq> []" "list_all (\<lambda>(u, b). unit_text u) es"
  shows "split_on CHR '','' (entries_text es) = map entry_text es"
proof -
  have "CHR '','' \<notin> set x" if "x \<in> set (map entry_text es)" for x
  proof -
    from that assms(2) obtain u b where "unit_text u" "x = entry_text (u, b)"
      by (auto simp: list_all_iff)
    then show ?thesis using entry_text_of [of u b] entry_no_comma by blast
  qed
  then show ?thesis
    unfolding entries_text_def using assms(1) by (intro split_on_join) auto
qed

lemma entries_text_chars:
  assumes "list_all (\<lambda>(u, b). unit_text u) es" "c \<in> set (entries_text es)"
  shows "is_digit c \<or> c = CHR ''='' \<or> c = CHR '',''"
  using assms
proof (induction es rule: induct_list012)
  case (2 e)
  then show ?case using entry_text_chars [of "fst e" c "snd e"] by (cases e) (auto simp: entries_text_def)
next
  case (3 e f es)
  have "entries_text (e # f # es) = entry_text e @ CHR '','' # entries_text (f # es)"
    by (simp add: entries_text_def)
  then show ?case using 3 entry_text_chars [of "fst e" c "snd e"] by (cases e) auto
qed (simp add: entries_text_def)

subsection \<open>The lines of a response\<close>

lemma ms_keyword_line:
  assumes "timestamp_text ts" "w \<noteq> []" "\<not> is_space (hd w)"
  shows "ms (seqs (TIMESTAMP @ [plus rx_space, ci_word v, Eol])) (ts @ CHR '' '' # w) =
     ms (seqs [ci_word v, Eol]) w"
  by (rule ms_timestamp [OF assms])

lemma keyword_line_matches:
  assumes "timestamp_text ts" "w \<noteq> []" "\<not> is_space (hd w)" "\<not> is_space (last w)"
  shows "ms (seqs (TIMESTAMP @ [plus rx_space, ci_word v, Eol])) (ts @ CHR '' '' # w) = [] \<longleftrightarrow> upper w \<noteq> upper v"
  unfolding ms_keyword_line [OF assms(1-3)] ms_ci_word_Eol
  using assms(4) by (auto simp: is_space_def)

definition selected_line :: "string \<Rightarrow> string" where
  "selected_line ts = ts @ '' Device selected''"

definition end_line :: "string \<Rightarrow> string" where
  "end_line ts = ts @ '' End status''"

lemma parse_selected:
  assumes "timestamp_text ts"
  shows "\<exists>p'. parse_line now (selected_line ts) p = (Inr None, p') \<and> pp_status p' = sp_reset\<lparr>sp_active := True\<rparr>"
proof -
  let ?l = "ts @ CHR '' '' # ''Device selected''"
  have st: "strip ?l = ?l" by (rule strip_timestamp_line [OF assms]) (simp_all add: is_space_def)
  have "matches DEVICE_SELECTED_RE ?l"
    unfolding matches_ms DEVICE_SELECTED_RE_def
    by (subst keyword_line_matches [OF assms]) (simp_all add: is_space_def)
  then show ?thesis
    using st by (auto simp: parse_line_def Let_def selected_line_def is_status_line_def feed_def)
qed

lemma ms_house_keyword:
  assumes "timestamp_text ts"
  shows "ms (seqs (TIMESTAMP @ plus rx_space # ci_word ''House'' # plus rx_space # r # rs))
     (ts @ CHR '' '' # ''House'' @ CHR '' '' # h # s) =
     ms (Cat (ci_word ''House'') (Cat (plus rx_space) (seqs (r # rs)))) (''House'' @ CHR '' '' # h # s)"
  by (subst ms_timestamp [OF assms]) (simp_all add: is_space_def)

lemma house_line_prefix:
  assumes "timestamp_text ts" "house_char h" "s \<noteq> []" "\<not> is_space (hd s)"
  shows "ms (seqs (TIMESTAMP @ plus rx_space # ci_word ''House'' # plus rx_space # Group ''house'' HOUSE #
      rx_chr CHR '':'' # plus rx_space # r # rs))
     (ts @ CHR '' '' # ''House'' @ CHR '' '' # h # CHR '':'' # CHR '' '' # s) =
     prepend [(''house'', [h])] (ms (seqs (r # rs)) s)"
proof -
  let ?k = "Cat (plus rx_space) (seqs (r # rs))"
  have "ms ?k (CHR '' '' # s) = ms (seqs (r # rs)) s" by (rule ms_space_one [OF assms(3,4)])
  moreover have "ms (Cat (Group ''house'' HOUSE) (Cat (rx_chr CHR '':'') ?k)) (h # CHR '':'' # CHR '' '' # s) =
     prepend [(''house'', [h])] (ms ?k (CHR '' '' # s))"
    using assms(2) by (simp add: HOUSE_def rx_chr_def ci_range_house upper_house_char)
  ultimately show ?thesis
    unfolding ms_house_keyword [OF assms(1)] ms_ci_word
    using assms(2) house_char_not_space by (subst ms_space_one) (simp_all only: seqs.simps, simp_all)
qed

lemma count_fails:
  assumes "CHR ''='' \<in> set s"
  shows "ms (Cat (Group ''count'' (plus rx_digit)) Eol) s = []"
proof -
  have "\<not> rmatch (Cat (Group ''count'' (plus rx_digit)) Eol) s s' e" for s' e
    using assms by (auto simp: rmatch_simps rx_digit_def rmatch_plus_Cls) (use punct_facts(3) in blast)+
  then show ?thesis using ms_iff_rmatch by (metis list.set_intros(1) neq_Nil_conv surj_pair)
qed

lemma digit_or_sep_not_space: "is_digit c \<or> c = CHR ''='' \<or> c = CHR '','' \<Longrightarrow> \<not> is_space c"
  using digit_not_space by auto

lemma entries_text_facts:
  assumes "es \<noteq> []" "list_all (\<lambda>(u, b). unit_text u) es"
  shows "entries_text es \<noteq> []" and "\<forall>c \<in> set (entries_text es). \<not> is_space c"
    and "CHR ''='' \<in> set (entries_text es)"
proof -
  show "CHR ''='' \<in> set (entries_text es)"
    using assms(1) by (cases es) (auto simp: entries_text_Cons entry_text_def)
  then show "entries_text es \<noteq> []" by auto
  show "\<forall>c \<in> set (entries_text es). \<not> is_space c"
    using entries_text_chars [OF assms(2)] digit_or_sep_not_space by blast
qed

lemma house_line_match:
  assumes "block_line_ok (HouseLine ts h es)"
  shows "re_match STRICT_HOUSE_STATUS_RE (block_text (HouseLine ts h es)) =
      Some [(''house'', [h]), (''devices'', entries_text es)]"
    and "\<not> matches HOUSE_COUNT_RE (block_text (HouseLine ts h es))"
    and "upper_char (hd w) \<noteq> CHR ''H'' \<Longrightarrow> w \<noteq> [] \<Longrightarrow>
      \<not> matches (seqs (TIMESTAMP @ [plus rx_space, ci_word w, Eol])) (block_text (HouseLine ts h es))"
    and "strip (block_text (HouseLine ts h es)) = block_text (HouseLine ts h es)"
proof -
  let ?s = "entries_text es"
  from assms have ok: "timestamp_text ts" "house_char h" "es \<noteq> []" "list_all (\<lambda>(u, b). unit_text u) es"
    by simp_all
  note facts = entries_text_facts [OF ok(3,4)]
  have s: "?s \<noteq> []" "\<not> is_space (hd ?s)" "\<not> is_space (last ?s)" using facts by auto
  have l: "block_text (HouseLine ts h es) = ts @ CHR '' '' # ''House'' @ CHR '' '' # h # CHR '':'' # CHR '' '' # ?s"
    by simp
  have "CHR 0x0A \<notin> set ?s" using facts(2) by (auto simp: is_space_def)
  then obtain xs where xs: "ms (Cat (Group ''devices'' strict_devices) Eol) ?s = ([], [(''devices'', ?s)]) # xs"
    using Group_Eol_match [OF _ rmatch_entries_text [OF ok(3,4)]] rmatch_strict_no_captures by blast
  show "re_match STRICT_HOUSE_STATUS_RE (block_text (HouseLine ts h es)) =
      Some [(''house'', [h]), (''devices'', entries_text es)]"
    unfolding re_match_def STRICT_HOUSE_STATUS_RE_def l house_line_prefix [OF ok(1,2) s(1,2)] seqs.simps xs
    by simp
  show "\<not> matches HOUSE_COUNT_RE (block_text (HouseLine ts h es))"
    unfolding matches_ms HOUSE_COUNT_RE_def l house_line_prefix [OF ok(1,2) s(1,2)] seqs.simps
      count_fails [OF facts(3)] by simp
  show "strip (block_text (HouseLine ts h es)) = block_text (HouseLine ts h es)"
    unfolding l by (rule strip_timestamp_line [OF ok(1)]) (use s in simp_all)
  show "\<not> matches (seqs (TIMESTAMP @ [plus rx_space, ci_word w, Eol])) (block_text (HouseLine ts h es))"
    if "upper_char (hd w) \<noteq> CHR ''H''" "w \<noteq> []"
    unfolding matches_ms l
    using that ms_seqs_ci_word_fail [of w "''House'' @ CHR '' '' # h # CHR '':'' # CHR '' '' # ?s" "[Eol]"]
    by (subst ms_keyword_line [OF ok(1)]) (simp_all add: is_space_def str_eval)
qed

lemmas keyword_patterns = DEVICE_SELECTED_RE_def DEVICE_STATUS_RE_def SECURITY_STATUS_RE_def END_STATUS_RE_def

lemma block_updates_entries:
  assumes "list_all (\<lambda>(u, b). unit_text u) es"
  shows "map (\<lambda>x. (h # entry_unit x, entry_command x)) (map entry_text es) =
     map (\<lambda>(u, b). (h # u, if b then ON else OFF)) es"
  using assms by (induction es) (auto simp: entry_text_meaning)

lemma parse_house_status:
  assumes "block_line_ok (HouseLine ts h es)" "sp_active (pp_status p)"
  shows "parse_line now (block_text (HouseLine ts h es)) p =
    (Inr None, p\<lparr>pp_status := (pp_status p)\<lparr>sp_snapshot := (sp_snapshot (pp_status p))\<lparr>ss_devices :=
        fold (\<lambda>(k, v). AList.update k v) (block_updates (HouseLine ts h es))
          (ss_devices (sp_snapshot (pp_status p)))\<rparr>\<rparr>\<rparr>)"
proof -
  let ?l = "block_text (HouseLine ts h es)"
  note m = house_line_match [OF assms(1)]
  from assms(1) have ok: "house_char h" "es \<noteq> []" "list_all (\<lambda>(u, b). unit_text u) es" by simp_all
  have nk: "\<not> matches DEVICE_SELECTED_RE ?l" "\<not> matches DEVICE_STATUS_RE ?l" "\<not> matches SECURITY_STATUS_RE ?l"
    unfolding keyword_patterns by (rule m(3); simp add: str_eval)+
  have st: "is_status_line ?l"
    using m(1,4) by (simp add: is_status_line_def matches_def del: block_text.simps)
  have en: "\<forall>x \<in> set (map entry_text es). \<exists>u b. entry_of x u b"
  proof
    fix x assume "x \<in> set (map entry_text es)"
    then obtain u b where "unit_text u" "x = entry_text (u, b)" using ok(3) by (auto simp: list_all_iff)
    then show "\<exists>u b. entry_of x u b" using entry_text_of [of u b] by blast
  qed
  have "feed_entries [h] (split_on CHR '','' (entries_text es)) d =
      (Inr (), fold (\<lambda>(k, v). AList.update k v) (block_updates (HouseLine ts h es)) d)" for d
    unfolding entries_split [OF ok(2,3)] feed_entries_ok [OF ok(1) en]
    by (simp only: block_updates_entries [OF ok(3)] block_updates.simps)
  moreover have "?l \<noteq> []" by simp
  ultimately show ?thesis
    using nk m st assms(2) ok(1)
    by (simp add: parse_line_def Let_def feed_def group_def upper_def upper_house_char
        del: block_text.simps block_updates.simps)
qed

lemma parse_end:
  assumes "timestamp_text ts" "sp_active (pp_status p)"
  shows "\<exists>p'. parse_line now (end_line ts) p =
      (Inr (Some (StatusSnapshot ((sp_snapshot (pp_status p))\<lparr>ss_completed := True\<rparr>))), p') \<and> pp_status p' = sp_reset"
proof -
  let ?w = "''End status''"
  let ?l = "ts @ CHR '' '' # ?w"
  have w: "?w \<noteq> []" "\<not> is_space (hd ?w)" "\<not> is_space (last ?w)" by (simp_all add: is_space_def)
  have st: "strip ?l = ?l" by (rule strip_timestamp_line [OF assms(1) w(1,3)])
  have kw: "matches (seqs (TIMESTAMP @ [plus rx_space, ci_word v, Eol])) ?l \<longleftrightarrow> upper ?w = upper v" for v
    unfolding matches_ms keyword_line_matches [OF assms(1) w] by simp
  have house: "ms (seqs (TIMESTAMP @ plus rx_space # ci_word ''House'' # rs)) ?l = []" for rs
    unfolding ms_timestamp [OF assms(1) w(1,2)] by (rule ms_seqs_ci_word_fail) (simp_all add: str_eval)
  have "\<not> matches HOUSE_COUNT_RE ?l" "re_match STRICT_HOUSE_STATUS_RE ?l = None"
    unfolding matches_ms re_match_def HOUSE_COUNT_RE_def STRICT_HOUSE_STATUS_RE_def house by simp_all
  moreover have "\<not> matches DEVICE_SELECTED_RE ?l" "\<not> matches DEVICE_STATUS_RE ?l"
    "\<not> matches SECURITY_STATUS_RE ?l" "matches END_STATUS_RE ?l"
    unfolding keyword_patterns kw by (simp_all add: upper_def)
  ultimately show ?thesis
    using st assms(2) by (auto simp: parse_line_def Let_def end_line_def is_status_line_def feed_def)
qed

subsection \<open>The whole response\<close>

lemma parse_block_lines:
  assumes "list_all block_line_ok bs" "sp_active (pp_status p)"
  shows "\<exists>p'. parse_lines now (map block_text bs) p = (map (block_event now) bs, p') \<and>
     pp_status p' = (pp_status p)\<lparr>sp_snapshot := (sp_snapshot (pp_status p))\<lparr>ss_devices :=
        fold (\<lambda>(k, v). AList.update k v) (concat (map block_updates bs)) (ss_devices (sp_snapshot (pp_status p)))\<rparr>\<rparr>"
  using assms
proof (induction bs arbitrary: p)
  case (Cons b bs)
  show ?case
  proof (cases b)
    case (HouseLine ts h es)
    with Cons show ?thesis
      using parse_house_status [of ts h es p now]
        Cons.IH [of "snd (parse_line now (block_text b) p)"]
      by (auto simp del: block_text.simps block_updates.simps)
  next
    case (OtherLine l)
    with Cons.prems parse_line_isolated [of l now p] parse_line_isolated(2) [of l now p new_parser]
      Cons.IH [of "snd (parse_line now l p)"]
    show ?thesis by (auto split: prod.splits)
  qed
qed simp

lemma parse_lines_append:
  "parse_lines now (ls @ ls') p =
     (let (es, p') = parse_lines now ls p; (es', p'') = parse_lines now ls' p' in (es @ es', p''))"
  by (induction ls arbitrary: p) (auto split: prod.splits)



end
