(* ===== verification/State.thy ===== *)
theory State
  imports LineParser
begin

section \<open>The state manager (\<^verbatim>\<open>state.py\<close>)\<close>

text \<open>
  \<^verbatim>\<open>StateManager\<close> owns the state of every device and turns events into actions.  The record
  \<open>state_manager\<close> has its fields; a method is a function that returns the actions it emits and the
  new state.  A method runs under the manager's lock, so one call is one step.  A \<^verbatim>\<open>DeviceState\<close>
  object is mutated through the dictionary entry that holds it (\<open>put_dev\<close>); \<open>now\<close> is the value of
  \<^verbatim>\<open>_now()\<close>, which every method reads at most once.
\<close>

subsection \<open>State\<close>

record state_manager =
  sm_devices :: "(address \<times> device_state) list"
  sm_device_configs :: "(address \<times> device_config) list"
  sm_statistics :: bridge_statistics
  sm_mqtt_connected :: bool
  sm_mqtt_has_connected :: bool
  sm_mochad_connected :: bool
  sm_available :: bool
  sm_mqtt_generation :: nat
  sm_optimistic_updates :: bool
  sm_allowed_housecodes :: "string set option"

definition STATE_COMMANDS :: "command set" where
  "STATE_COMMANDS = {ON, OFF, DIM, BRIGHT, STATUS_ON, STATUS_OFF}"

definition ON_COMMANDS :: "command set" where
  "ON_COMMANDS = {ON, BRIGHT, STATUS_ON}"

definition OFF_COMMANDS :: "command set" where
  "OFF_COMMANDS = {OFF, STATUS_OFF}"

text \<open>Access to the object stored for a key, and its mutation.\<close>

definition dev :: "state_manager \<Rightarrow> address \<Rightarrow> device_state" where
  "dev m k = (case map_of (sm_devices m) k of Some s \<Rightarrow> s | None \<Rightarrow> new_device_state k)"

definition put_dev :: "address \<Rightarrow> (device_state \<Rightarrow> device_state) \<Rightarrow> state_manager \<Rightarrow> state_manager" where
  "put_dev k f m = m\<lparr>sm_devices := dict_modify k f (sm_devices m)\<rparr>"

definition stat :: "(bridge_statistics \<Rightarrow> bridge_statistics) \<Rightarrow> state_manager \<Rightarrow> state_manager" where
  "stat f m = m\<lparr>sm_statistics := f (sm_statistics m)\<rparr>"

subsection \<open>Helpers of the class\<close>

definition authoritative_state :: "command \<Rightarrow> command" where
  "authoritative_state c =
     (if c \<in> ON_COMMANDS then ON else if c \<in> OFF_COMMANDS then OFF else c)"

definition normalize_housecodes :: "string list option \<Rightarrow> string set option" where
  "normalize_housecodes hs = (case hs of None \<Rightarrow> None
     | Some codes \<Rightarrow>
         let normalized = set (map canon (filter (\<lambda>c. strip c \<noteq> []) codes))
         in if normalized = {} then None else Some normalized)"

definition house_allowed :: "state_manager \<Rightarrow> string \<Rightarrow> bool" where
  "house_allowed m h = (case sm_allowed_housecodes m of None \<Rightarrow> True | Some hs \<Rightarrow> canon h \<in> hs)"

definition address_allowed :: "state_manager \<Rightarrow> string \<Rightarrow> bool" where
  "address_allowed m a = (case canon a of [] \<Rightarrow> False | c # _ \<Rightarrow> house_allowed m [c])"

definition ensure_device :: "string \<Rightarrow> state_manager \<Rightarrow> state_manager" where
  "ensure_device a m =
     (let k = canon a in
      case map_of (sm_devices m) k of
        Some s \<Rightarrow> m
      | None \<Rightarrow> m\<lparr>sm_devices := AList.update k (new_device_state k) (sm_devices m)\<rparr>)"

definition config_of :: "state_manager \<Rightarrow> string \<Rightarrow> device_config" where
  "config_of m a =
     (let k = canon a in
      case map_of (sm_device_configs m) k of Some d \<Rightarrow> d | None \<Rightarrow> default_device k k)"

definition devices_for_house :: "state_manager \<Rightarrow> string \<Rightarrow> address list" where
  "devices_for_house m h = filter (\<lambda>k. startswith k (canon h)) (map fst (sm_devices m))"

definition clear_confirmed_pending :: "command \<Rightarrow> device_state \<Rightarrow> device_state" where
  "clear_confirmed_pending c s =
     (if ds_pending_command s = Some c then s\<lparr>ds_pending_command := None\<rparr> else s)"

text \<open>\<^verbatim>\<open>_bridge_available()\<close>; its assignment to \<^verbatim>\<open>_available\<close> is made where the actions are built, so the
  property \<^verbatim>\<open>available\<close>, which computes the value again, leaves the state as it is.\<close>

definition bridge_available :: "state_manager \<Rightarrow> bool" where
  [simp]: "bridge_available m \<longleftrightarrow> sm_mqtt_connected m \<and> sm_mochad_connected m"

definition bridge_status_actions :: "state_manager \<Rightarrow> bridge_action list \<times> state_manager" where
  "bridge_status_actions m =
     (let online = bridge_available m in
      ([PublishAvailabilityAction online,
        PublishStatusAction (if online then ''online'' else ''offline'')
          (sm_mqtt_connected m) (sm_mochad_connected m) True],
       m\<lparr>sm_available := online\<rparr>))"

definition discovery_actions :: "address \<Rightarrow> state_manager \<Rightarrow> bridge_action list \<times> state_manager" where
  "discovery_actions k m =
     (if \<not> sm_mqtt_connected m \<or> ds_discovered (dev m k) then ([], m)
      else ([PublishDiscoveryAction (ds_address (dev m k))],
            stat (\<lambda>s. s\<lparr>st_discovery_messages := Suc (st_discovery_messages s)\<rparr>)
              (put_dev k (\<lambda>s. s\<lparr>ds_discovered := True\<rparr>) m)))"

definition set_device_state ::
  "address \<Rightarrow> command \<Rightarrow> datetime \<Rightarrow> bool \<Rightarrow> bool \<Rightarrow> state_manager \<Rightarrow> bridge_action list \<times> state_manager" where
  "set_device_state k c now retain clear_pending m =
     (let command = authoritative_state c;
          clear = (\<lambda>s. if clear_pending then clear_confirmed_pending command s else s)
      in if ds_current_state (dev m k) = Some command then
           ([], put_dev k (\<lambda>s. clear (s\<lparr>ds_last_seen := Some now\<rparr>))
                  (stat (\<lambda>s. s\<lparr>st_duplicates := Suc (st_duplicates s)\<rparr>) m))
         else
           ([PublishStateAction (ds_address (dev m k)) command retain],
            stat (\<lambda>s. s\<lparr>st_state_changes := Suc (st_state_changes s)\<rparr>)
              (put_dev k (\<lambda>s. clear (s\<lparr>ds_previous_state := ds_current_state s,
                  ds_current_state := Some command, ds_last_seen := Some now,
                  ds_last_changed := Some now\<rparr>)) m)))"

text \<open>\<^verbatim>\<open>state.available = True; state.last_seen = now\<close>\<close>

definition mark_seen :: "address \<Rightarrow> datetime \<Rightarrow> state_manager \<Rightarrow> state_manager" where
  "mark_seen k now m = put_dev k (\<lambda>s. s\<lparr>ds_available := True, ds_last_seen := Some now\<rparr>) m"

fun device_responds_to_house_command :: "device_config \<Rightarrow> command \<Rightarrow> bool" where
  "device_responds_to_house_command d ALL_UNITS_OFF = dc_all_units_off_response d"
| "device_responds_to_house_command d ALL_LIGHTS_OFF = dc_all_lights_off_response d"
| "device_responds_to_house_command d ALL_LIGHTS_ON = dc_all_lights_on_response d"
| "device_responds_to_house_command d _ = False"

subsection \<open>Inbound events\<close>

definition apply_device_event :: "device_event \<Rightarrow> state_manager \<Rightarrow> bridge_action list \<times> state_manager" where
  "apply_device_event e m =
     (if \<not> address_allowed m (de_address e) then ([], m)
      else
        let m = stat (\<lambda>s. s\<lparr>st_events_received := Suc (st_events_received s)\<rparr>) m;
            m = ensure_device (de_address e) m;
            k = canon (de_address e);
            device = config_of m (ds_address (dev m k));
            m = mark_seen k (de_timestamp e) m;
            (acts, m) = discovery_actions k m;
            acts = acts @ [PublishEventAction e]
        in if \<not> dc_stateful device \<or> de_command e \<notin> STATE_COMMANDS then (acts, m)
           else let (acts', m) = set_device_state k (de_command e) (de_timestamp e) True True m
                in (acts @ acts', m))"

fun house_loop :: "house_event \<Rightarrow> address list \<Rightarrow> state_manager \<Rightarrow> bridge_action list \<times> state_manager" where
  "house_loop e [] m = ([], m)"
| "house_loop e (k # ks) m =
     (let device = config_of m (ds_address (dev m k)) in
      if \<not> dc_stateful device then house_loop e ks m
      else if \<not> device_responds_to_house_command device (he_command e) then house_loop e ks m
      else
        let m = mark_seen k (he_timestamp e) m;
            command = (if he_command e \<in> {ALL_UNITS_OFF, ALL_LIGHTS_OFF} then OFF else ON);
            (acts, m) = set_device_state k command (he_timestamp e) True True m;
            (acts', m) = house_loop e ks m
        in (acts @ acts', m))"

definition apply_house_event :: "house_event \<Rightarrow> state_manager \<Rightarrow> bridge_action list \<times> state_manager" where
  "apply_house_event e m =
     (if \<not> house_allowed m (he_house e) then ([], m)
      else
        let m = stat (\<lambda>s. s\<lparr>st_events_received := Suc (st_events_received s)\<rparr>) m in
        if he_command e \<notin> {ALL_UNITS_OFF, ALL_LIGHTS_OFF, ALL_LIGHTS_ON} then ([], m)
        else house_loop e (devices_for_house m (he_house e)) m)"

fun snapshot_loop ::
  "datetime \<Rightarrow> (address \<times> command) list \<Rightarrow> state_manager \<Rightarrow> bridge_action list \<times> state_manager" where
  "snapshot_loop now [] m = ([], m)"
| "snapshot_loop now ((a, c) # ds) m =
     (if \<not> address_allowed m a then snapshot_loop now ds m
      else
        let m = ensure_device a m;
            k = canon a;
            device = config_of m (ds_address (dev m k))
        in if \<not> dc_stateful device then snapshot_loop now ds m
           else
             let m = mark_seen k now m;
                 (acts, m) = set_device_state k c now True True m;
                 (acts', m) = snapshot_loop now ds m
             in (acts @ acts', m))"

definition apply_status_snapshot ::
  "datetime \<Rightarrow> status_snapshot \<Rightarrow> state_manager \<Rightarrow> bridge_action list \<times> state_manager" where
  "apply_status_snapshot now ss m =
     snapshot_loop now (ss_devices ss)
       (stat (\<lambda>s. s\<lparr>st_status_syncs := Suc (st_status_syncs s)\<rparr>) m)"

fun sm_apply :: "datetime \<Rightarrow> event option \<Rightarrow> state_manager \<Rightarrow> bridge_action list \<times> state_manager" where
  "sm_apply now None m = ([], m)"
| "sm_apply now (Some (DeviceEvent e)) m = apply_device_event e m"
| "sm_apply now (Some (HouseEvent e)) m = apply_house_event e m"
| "sm_apply now (Some (StatusSnapshot ss)) m = apply_status_snapshot now ss m"
| "sm_apply now (Some (UnknownEvent e)) m =
     ([LogUnknownEventAction e], stat (\<lambda>s. s\<lparr>st_unknown_packets := Suc (st_unknown_packets s)\<rparr>) m)"

subsection \<open>Outbound commands\<close>

definition command_event_payload :: "datetime \<Rightarrow> address \<Rightarrow> command \<Rightarrow> (string \<times> json) list" where
  "command_event_payload now a c =
     [(''timestamp'', JStr now), (''device'', JStr a), (''command'', JStr (command_name c)),
      (''stateful'', JBool False), (''transmission'', JStr ''unconfirmed''),
      (''confirmed'', JBool False),
      (''message'', JStr ''Command sent to mochad; physical device state is unconfirmed.'')]"

definition optimistic_update ::
  "datetime \<Rightarrow> string \<Rightarrow> command \<Rightarrow> state_manager \<Rightarrow> bridge_action list \<times> state_manager" where
  "optimistic_update now a c m =
     (if \<not> address_allowed m a then ([], m)
      else
        let m = ensure_device a m;
            k = canon a;
            sa = ds_address (dev m k);
            device = config_of m sa
        in if c \<notin> dc_supported_commands device then ([], m)
           else
             let m = put_dev k (\<lambda>s. s\<lparr>ds_pending_command := Some c\<rparr>) m;
                 m = stat (\<lambda>s. s\<lparr>st_commands_sent := Suc (st_commands_sent s)\<rparr>) m;
                 (acts, m) = discovery_actions k m;
                 acts = acts @ [SendDeviceCommandAction sa c]
             in if \<not> dc_stateful device then
                  (acts @ [PublishCommandEventAction sa (command_event_payload now sa c) False], m)
                else
                  let acts = acts @ [PublishAttributesAction sa
                        [(''last_command_sent'', JStr (command_name c)),
                         (''optimistic'', JBool (sm_optimistic_updates m))] True]
                  in if sm_optimistic_updates m then
                       let (acts', m) = set_device_state k c now True False m in (acts @ acts', m)
                     else (acts, m))"

subsection \<open>Connections\<close>

fun rediscover_loop :: "address list \<Rightarrow> state_manager \<Rightarrow> bridge_action list \<times> state_manager" where
  "rediscover_loop [] m = ([], m)"
| "rediscover_loop (k # ks) m =
     (let m = put_dev k (\<lambda>s. s\<lparr>ds_discovered := False\<rparr>) m;
          act = PublishDiscoveryAction (ds_address (dev m k));
          m = stat (\<lambda>s. s\<lparr>st_discovery_messages := Suc (st_discovery_messages s)\<rparr>) m;
          m = put_dev k (\<lambda>s. s\<lparr>ds_discovered := True\<rparr>) m;
          acts = act # (case ds_current_state (dev m k) of
             None \<Rightarrow> [] | Some c \<Rightarrow> [PublishStateAction (ds_address (dev m k)) c True]);
          (acts', m) = rediscover_loop ks m
      in (acts @ acts', m))"

definition sm_mqtt_connect :: "state_manager \<Rightarrow> bridge_action list \<times> state_manager" where
  "sm_mqtt_connect m =
     (let was_connected = sm_mqtt_connected m;
          m = m\<lparr>sm_mqtt_connected := True, sm_mqtt_generation := Suc (sm_mqtt_generation m)\<rparr>;
          m = (if sm_mqtt_has_connected m \<and> \<not> was_connected
               then stat (\<lambda>s. s\<lparr>st_mqtt_reconnects := Suc (st_mqtt_reconnects s)\<rparr>) m else m);
          m = stat (\<lambda>s. s\<lparr>st_mqtt_connections := Suc (st_mqtt_connections s)\<rparr>)
                (m\<lparr>sm_mqtt_has_connected := True\<rparr>);
          (acts, m) = bridge_status_actions m;
          (acts', m) = rediscover_loop (map fst (sm_devices m)) m
      in (acts @ acts', m))"

definition sm_mqtt_disconnect :: "state_manager \<Rightarrow> bridge_action list \<times> state_manager" where
  "sm_mqtt_disconnect m =
     (let m = (if sm_mqtt_connected m
               then stat (\<lambda>s. s\<lparr>st_mqtt_disconnects := Suc (st_mqtt_disconnects s)\<rparr>) m else m)
      in bridge_status_actions (m\<lparr>sm_mqtt_connected := False\<rparr>))"

definition sm_mochad_connect :: "state_manager \<Rightarrow> bridge_action list \<times> state_manager" where
  "sm_mochad_connect m =
     (let m = stat (\<lambda>s. s\<lparr>st_mochad_reconnects := Suc (st_mochad_reconnects s)\<rparr>)
                (m\<lparr>sm_mochad_connected := True\<rparr>);
          (acts, m) = bridge_status_actions m
      in (acts @ [RequestStatusAction], m))"

definition sm_mochad_disconnect :: "state_manager \<Rightarrow> bridge_action list \<times> state_manager" where
  "sm_mochad_disconnect m =
     bridge_status_actions (m\<lparr>sm_mochad_connected := False,
       sm_devices := map (\<lambda>(k, s). (k, s\<lparr>ds_available := False\<rparr>)) (sm_devices m)\<rparr>)"

subsection \<open>Construction\<close>

text \<open>The devices of the constructor are the values of the configuration's dictionary, in its order.\<close>

fun add_configs :: "device_config list \<Rightarrow> state_manager \<Rightarrow> state_manager" where
  "add_configs [] m = m"
| "add_configs (d # ds) m =
     add_configs ds
       (if address_allowed m (dc_address d)
        then ensure_device (dc_address d)
               (m\<lparr>sm_device_configs := AList.update (canon (dc_address d)) d (sm_device_configs m)\<rparr>)
        else m)"

definition new_state_manager :: "device_config list \<Rightarrow> bool \<Rightarrow> string list option \<Rightarrow> state_manager" where
  "new_state_manager devices optimistic housecodes =
     add_configs devices
       \<lparr>sm_devices = [], sm_device_configs = [], sm_statistics = zero_statistics,
        sm_mqtt_connected = False, sm_mqtt_has_connected = False, sm_mochad_connected = False,
        sm_available = False, sm_mqtt_generation = 0, sm_optimistic_updates = optimistic,
        sm_allowed_housecodes = normalize_housecodes housecodes\<rparr>"

subsection \<open>Reading the state after an update\<close>

definition has_dev :: "state_manager \<Rightarrow> address \<Rightarrow> bool" where
  "has_dev m k \<longleftrightarrow> k \<in> set (map fst (sm_devices m))"

lemma has_dev_map_of: "has_dev m k \<longleftrightarrow> map_of (sm_devices m) k \<noteq> None"
  by (simp add: has_dev_def map_of_eq_None_iff)

lemma dev_put_dev [dict_simps]:
  "dev (put_dev k f m) j = (if j = k \<and> has_dev m k then f (dev m k) else dev m j)"
  by (auto simp: dev_def put_dev_def has_dev_map_of split: option.splits)

lemma has_dev_put_dev [dict_simps]: "has_dev (put_dev k f m) j = has_dev m j"
  by (simp add: has_dev_def put_dev_def)

lemma dev_ensure_device [dict_simps]: "dev (ensure_device a m) j = dev m j"
  by (auto simp: dev_def ensure_device_def Let_def split: option.splits)

lemma has_dev_ensure_device [dict_simps]: "has_dev (ensure_device a m) j \<longleftrightarrow> has_dev m j \<or> j = canon a"
  by (auto simp: has_dev_map_of ensure_device_def Let_def split: option.splits)

lemma dev_stat [dict_simps]: "dev (stat f m) = dev m" "has_dev (stat f m) = has_dev m"
  by (auto simp: dev_def stat_def has_dev_def fun_eq_iff)

text \<open>What no method changes after construction.\<close>

definition same_config :: "state_manager \<Rightarrow> state_manager \<Rightarrow> bool" where
  "same_config m m' \<longleftrightarrow> sm_device_configs m' = sm_device_configs m \<and>
     sm_allowed_housecodes m' = sm_allowed_housecodes m \<and>
     sm_optimistic_updates m' = sm_optimistic_updates m"

lemma same_config_refl [simp]: "same_config m m"
  by (simp add: same_config_def)

lemma same_config_trans [trans]: "same_config m m' \<Longrightarrow> same_config m' m'' \<Longrightarrow> same_config m m''"
  by (simp add: same_config_def)

lemma same_config_basic [simp]:
  "same_config m (put_dev k f m)" "same_config m (stat g m)" "same_config m (ensure_device a m)"
  by (auto simp: same_config_def put_dev_def stat_def ensure_device_def Let_def split: option.splits)

lemma same_config_iff [simp]:
  "same_config m (put_dev k f m') = same_config m m'" "same_config m (stat g m') = same_config m m'"
  "same_config m (ensure_device a m') = same_config m m'"
  by (auto simp: same_config_def put_dev_def stat_def ensure_device_def Let_def split: option.splits)

lemma same_config_reads:
  assumes "same_config m m'"
  shows "config_of m' = config_of m" "address_allowed m' = address_allowed m"
    "house_allowed m' = house_allowed m"
proof -
  show h: "house_allowed m' = house_allowed m"
    using assms by (simp add: same_config_def house_allowed_def fun_eq_iff)
  show "config_of m' = config_of m"
    using assms by (simp add: same_config_def config_of_def fun_eq_iff)
  show "address_allowed m' = address_allowed m"
    unfolding address_allowed_def h fun_eq_iff by simp
qed

lemmas basic_reads [simp] =
  same_config_reads [OF same_config_basic(1)] same_config_reads [OF same_config_basic(2)]
  same_config_reads [OF same_config_basic(3)]

subsection \<open>The invariant\<close>

text \<open>
  A stored device carries its key as its address; the key is normalised and its house allowed; a
  device without state never has one; a stored state is one \<^verbatim>\<open>_authoritative_state\<close> produces; a pending
  command is one the device supports.
\<close>

definition dev_ok :: "state_manager \<Rightarrow> address \<Rightarrow> device_state \<Rightarrow> bool" where
  "dev_ok m k s \<longleftrightarrow> ds_address s = k \<and> canon k = k \<and> address_allowed m k \<and>
     (\<not> dc_stateful (config_of m k) \<longrightarrow> ds_current_state s = None) \<and>
     (\<forall>c. ds_current_state s = Some c \<longrightarrow> authoritative_state c = c) \<and>
     (\<forall>c. ds_pending_command s = Some c \<longrightarrow> c \<in> dc_supported_commands (config_of m k))"

definition sm_inv :: "state_manager \<Rightarrow> bool" where
  "sm_inv m \<longleftrightarrow> distinct (map fst (sm_devices m)) \<and> (\<forall>k. has_dev m k \<longrightarrow> dev_ok m k (dev m k))"

lemma authoritative_idem [simp]: "authoritative_state (authoritative_state c) = authoritative_state c"
  by (simp add: authoritative_state_def ON_COMMANDS_def OFF_COMMANDS_def)

lemma sm_inv_dev: "sm_inv m \<Longrightarrow> has_dev m k \<Longrightarrow> dev_ok m k (dev m k)"
  by (simp add: sm_inv_def)

lemma sm_inv_address [simp]: "sm_inv m \<Longrightarrow> has_dev m k \<Longrightarrow> ds_address (dev m k) = k"
  using sm_inv_dev by (auto simp: dev_ok_def)

lemma dev_ok_cong: "same_config m m' \<Longrightarrow> dev_ok m' = dev_ok m"
  by (simp add: dev_ok_def same_config_reads fun_eq_iff)

lemma sm_inv_put_dev [inv_intros]:
  assumes "sm_inv m" and "dev_ok m k (dev m k) \<Longrightarrow> dev_ok m k (f (dev m k))"
  shows "sm_inv (put_dev k f m)"
  using assms
  by (auto simp: sm_inv_def has_dev_put_dev dev_put_dev dev_ok_cong [OF same_config_basic(1)])
     (simp_all add: put_dev_def)

lemma sm_inv_stat [simp]: "sm_inv (stat f m) = sm_inv m"
  by (simp add: sm_inv_def dev_stat dev_ok_cong [OF same_config_basic(2)]) (simp add: stat_def)

lemma address_allowed_canon [simp]: "address_allowed m (canon a) = address_allowed m a"
  by (simp add: address_allowed_def)

lemma config_of_canon [simp]: "config_of m (canon a) = config_of m a"
  by (simp add: config_of_def)

lemma dev_absent: "\<not> has_dev m k \<Longrightarrow> dev m k = new_device_state k"
  by (auto simp: dev_def has_dev_map_of split: option.splits)

lemma sm_inv_ensure_device [inv_intros]:
  assumes "sm_inv m" "address_allowed m a"
  shows "sm_inv (ensure_device a m)"
proof -
  have "dev_ok m k (dev m k)" if "has_dev (ensure_device a m) k" for k
  proof (cases "has_dev m k")
    case False
    with that have "k = canon a" by (simp add: has_dev_ensure_device)
    with False show ?thesis using assms by (simp add: dev_absent dev_ok_def)
  qed (use assms sm_inv_dev in blast)
  moreover have "distinct (map fst (sm_devices (ensure_device a m)))"
    using assms(1) by (auto simp: sm_inv_def ensure_device_def Let_def distinct_keys_update split: option.splits)
  ultimately show ?thesis
    by (auto simp: sm_inv_def dev_ensure_device dev_ok_cong [OF same_config_basic(3)])
qed

end
