(* ===== verification/StateLaws.thy ===== *)
theory StateLaws
  imports State
begin

section \<open>What the state manager promises\<close>

text \<open>
  An observer who sees only the actions can keep a ledger: the state last published for each
  address, how often a published state differed from the one before, and how many discovery,
  command and log actions there were.  Every method keeps the manager's invariant, emits only
  permitted actions, and moves the manager's own counters and states exactly as the ledger of its
  actions moves.
\<close>

subsection \<open>The observer's ledger\<close>

record ledger =
  lg_view :: "address \<Rightarrow> command option"
  lg_changes :: nat
  lg_discoveries :: nat
  lg_commands :: nat
  lg_unknown :: nat

fun book :: "bridge_action \<Rightarrow> ledger \<Rightarrow> ledger" where
  "book (PublishStateAction a c r) l =
     l\<lparr>lg_view := (lg_view l)(a := Some c),
       lg_changes := (if lg_view l a = Some c then lg_changes l else Suc (lg_changes l))\<rparr>"
| "book (PublishDiscoveryAction a) l = l\<lparr>lg_discoveries := Suc (lg_discoveries l)\<rparr>"
| "book (SendDeviceCommandAction a c) l = l\<lparr>lg_commands := Suc (lg_commands l)\<rparr>"
| "book (LogUnknownEventAction e) l = l\<lparr>lg_unknown := Suc (lg_unknown l)\<rparr>"
| "book _ l = l"

definition known :: "state_manager \<Rightarrow> address \<Rightarrow> command option" where
  "known m a = ds_current_state (dev m a)"

definition ledger_of :: "state_manager \<Rightarrow> ledger" where
  "ledger_of m = \<lparr>lg_view = known m, lg_changes = st_state_changes (sm_statistics m),
     lg_discoveries = st_discovery_messages (sm_statistics m),
     lg_commands = st_commands_sent (sm_statistics m),
     lg_unknown = st_unknown_packets (sm_statistics m)\<rparr>"

text \<open>
  Permitted actions: they concern a normalised address of an allowed house; a published state is
  retained, final and belongs to a device that has state; a command is one the device supports; an
  unconfirmed command event is not retained and belongs to a device without state.
\<close>

definition normal_address :: "state_manager \<Rightarrow> address \<Rightarrow> bool" where
  "normal_address m a \<longleftrightarrow> canon a = a \<and> address_allowed m a"

fun act_ok :: "state_manager \<Rightarrow> bridge_action \<Rightarrow> bool" where
  "act_ok m (PublishStateAction a c r) \<longleftrightarrow> normal_address m a \<and> r \<and>
     dc_stateful (config_of m a) \<and> authoritative_state c = c"
| "act_ok m (PublishEventAction e) \<longleftrightarrow> address_allowed m (de_address e)"
| "act_ok m (PublishCommandEventAction a p r) \<longleftrightarrow>
     normal_address m a \<and> \<not> r \<and> \<not> dc_stateful (config_of m a)"
| "act_ok m (PublishAttributesAction a p r) \<longleftrightarrow>
     normal_address m a \<and> r \<and> dc_stateful (config_of m a)"
| "act_ok m (PublishDiscoveryAction a) \<longleftrightarrow> normal_address m a"
| "act_ok m (SendDeviceCommandAction a c) \<longleftrightarrow>
     normal_address m a \<and> c \<in> dc_supported_commands (config_of m a)"
| "act_ok m (PublishStatusAction s mq mo r) \<longleftrightarrow> r \<and> s = (if mq \<and> mo then ''online'' else ''offline'')"
| "act_ok m (SendMochadCommandAction c) \<longleftrightarrow> False"
| "act_ok m (PublishBridgeResponseAction c ok msg p r) \<longleftrightarrow> False"
| "act_ok m _ \<longleftrightarrow> True"

definition lawful :: "state_manager \<Rightarrow> bridge_action list \<times> state_manager \<Rightarrow> bool" where
  "lawful m r \<longleftrightarrow> sm_inv (snd r) \<and> same_config m (snd r) \<and>
     ledger_of (snd r) = fold book (fst r) (ledger_of m) \<and> list_all (act_ok m) (fst r)"

lemma act_ok_cong: "same_config m m' \<Longrightarrow> act_ok m' = act_ok m"
proof -
  assume "same_config m m'"
  then have "act_ok m' x = act_ok m x" for x
    by (cases x) (simp_all add: same_config_reads normal_address_def)
  then show ?thesis by blast
qed

lemma lawful_same: "same_config m m' \<Longrightarrow> sm_inv m' \<Longrightarrow> ledger_of m' = ledger_of m \<Longrightarrow> lawful m ([], m')"
  by (simp add: lawful_def)

lemma lawful_seq:
  assumes "lawful m (acts, m')" "lawful m' (acts', m'')"
  shows "lawful m (acts @ acts', m'')"
  using assms act_ok_cong [of m m'] same_config_trans [of m m' m''] by (auto simp: lawful_def)

lemma lawful_act:
  assumes "lawful m (acts, m')" "act_ok m x" "\<And>l. book x l = l"
  shows "lawful m (acts @ [x], m')"
  using assms by (simp add: lawful_def)

text \<open>Steps that change neither a state nor a counter of the ledger.\<close>

lemma ledger_put_dev:
  "(has_dev m k \<Longrightarrow> ds_current_state (f (dev m k)) = ds_current_state (dev m k)) \<Longrightarrow>
   ledger_of (put_dev k f m) = ledger_of m"
  by (auto simp: ledger_of_def known_def fun_eq_iff dev_put_dev) (simp_all add: put_dev_def)

lemma ledger_stat:
  "(\<And>s. st_state_changes (f s) = st_state_changes s \<and> st_discovery_messages (f s) = st_discovery_messages s \<and>
     st_commands_sent (f s) = st_commands_sent s \<and> st_unknown_packets (f s) = st_unknown_packets s) \<Longrightarrow>
   ledger_of (stat f m) = ledger_of m"
  by (simp add: ledger_of_def known_def dev_stat fun_eq_iff) (simp add: stat_def)

lemma ledger_ensure [simp]: "ledger_of (ensure_device a m) = ledger_of m"
  by (simp add: ledger_of_def known_def dev_ensure_device fun_eq_iff)
     (simp add: ensure_device_def Let_def split: option.splits)

subsection \<open>The laws of the helpers\<close>

lemma lawful_set_device_state:
  assumes "sm_inv m" "has_dev m k" "dc_stateful (config_of m k)"
  shows "lawful m (set_device_state k c now True cp m)" and "has_dev (snd (set_device_state k c now r cp m)) = has_dev m"
proof -
  have ok: "dev_ok m k (dev m k)" using sm_inv_dev [OF assms(1,2)] .
  show "has_dev (snd (set_device_state k c now r cp m)) = has_dev m"
    by (auto simp: set_device_state_def Let_def dict_simps fun_eq_iff)
  show "lawful m (set_device_state k c now True cp m)"
  proof (cases "ds_current_state (dev m k) = Some (authoritative_state c)")
    case True
    have "set_device_state k c now True cp m =
      ([], put_dev k (\<lambda>s. (if cp then clear_confirmed_pending (authoritative_state c) else id) (s\<lparr>ds_last_seen := Some now\<rparr>))
              (stat (\<lambda>s. s\<lparr>st_duplicates := Suc (st_duplicates s)\<rparr>) m))" (is "_ = ([], put_dev k ?f ?m)")
      using True by (auto simp: set_device_state_def Let_def)
    moreover have "sm_inv (put_dev k ?f ?m)"
      using assms ok by (intro sm_inv_put_dev) (auto simp: dict_simps dev_ok_def clear_confirmed_pending_def)
    moreover have "ledger_of (put_dev k ?f ?m) = ledger_of m"
      by (subst ledger_put_dev) (auto simp: dict_simps clear_confirmed_pending_def ledger_stat)
    ultimately show ?thesis
      by (auto intro!: lawful_same)
  next
    case False
    let ?f = "\<lambda>s. (if cp then clear_confirmed_pending (authoritative_state c) else id)
      (s\<lparr>ds_previous_state := ds_current_state s, ds_current_state := Some (authoritative_state c),
         ds_last_seen := Some now, ds_last_changed := Some now\<rparr>)"
    let ?m' = "stat (\<lambda>s. s\<lparr>st_state_changes := Suc (st_state_changes s)\<rparr>) (put_dev k ?f m)"
    have eq: "set_device_state k c now True cp m = ([PublishStateAction k (authoritative_state c) True], ?m')"
      using False assms by (auto simp: set_device_state_def Let_def)
    have inv: "sm_inv ?m'"
      using assms ok by (auto intro!: sm_inv_put_dev simp: dev_ok_def clear_confirmed_pending_def)
    have known: "known ?m' = (known m)(k := Some (authoritative_state c))"
      using assms(2) by (auto simp: known_def dict_simps clear_confirmed_pending_def fun_eq_iff)
    have "ledger_of ?m' = book (PublishStateAction k (authoritative_state c) True) (ledger_of m)"
      using False unfolding ledger_of_def known by (simp add: known_def [of m k]) (simp add: stat_def put_dev_def)
    moreover have "act_ok m (PublishStateAction k (authoritative_state c) True)"
      using ok assms(3) by (simp add: dev_ok_def normal_address_def)
    ultimately show ?thesis
      unfolding eq lawful_def using inv by simp
  qed
qed

lemma mark_seen_laws [simp]:
  assumes "sm_inv m"
  shows "sm_inv (mark_seen k now m)" "ledger_of (mark_seen k now m) = ledger_of m"
  using assms
  by (auto simp: mark_seen_def dev_ok_def intro!: sm_inv_put_dev ledger_put_dev)

lemma mark_seen_reads [simp]:
  "same_config m' (mark_seen k now m) = same_config m' m" "has_dev (mark_seen k now m) = has_dev m"
  "config_of (mark_seen k now m) = config_of m" "address_allowed (mark_seen k now m) = address_allowed m"
  by (auto simp: mark_seen_def dict_simps fun_eq_iff)

lemma lawful_discovery_actions:
  assumes "sm_inv m" "has_dev m k"
  shows "lawful m (discovery_actions k m)" and "has_dev (snd (discovery_actions k m)) = has_dev m"
proof -
  have ok: "dev_ok m k (dev m k)" using sm_inv_dev [OF assms] .
  let ?m' = "stat (\<lambda>s. s\<lparr>st_discovery_messages := Suc (st_discovery_messages s)\<rparr>)
    (put_dev k (\<lambda>s. s\<lparr>ds_discovered := True\<rparr>) m)"
  have inv: "sm_inv ?m'" using assms(1) by (auto intro!: sm_inv_put_dev simp: dev_ok_def)
  have "known ?m' = known m" by (auto simp: known_def dict_simps fun_eq_iff)
  then have "ledger_of ?m' = book (PublishDiscoveryAction k) (ledger_of m)"
    by (simp add: ledger_of_def) (simp add: stat_def put_dev_def)
  then have "lawful m ([PublishDiscoveryAction k], ?m')"
    unfolding lawful_def using inv ok
    by (simp add: dev_ok_def normal_address_def)
  with assms show "lawful m (discovery_actions k m)"
    by (auto simp: discovery_actions_def intro: lawful_same)
  show "has_dev (snd (discovery_actions k m)) = has_dev m"
    by (auto simp: discovery_actions_def dict_simps fun_eq_iff)
qed

lemma lawful_config: "lawful m r \<Longrightarrow> same_config m (snd r)"
  by (simp add: lawful_def)

lemma lawful_inv: "lawful m r \<Longrightarrow> sm_inv (snd r)"
  by (simp add: lawful_def)

text \<open>Prefixing a method by a change that the ledger does not see.\<close>

lemma lawful_silent:
  assumes "lawful m' r" "same_config m m'" "ledger_of m' = ledger_of m"
  shows "lawful m r"
  using assms act_ok_cong [OF assms(2)] same_config_trans by (auto simp: lawful_def)

subsection \<open>The laws of the methods\<close>

lemma lawful_then:
  assumes "lawful m r" "lawful (snd r) r'"
  shows "lawful m (fst r @ fst r', snd r')"
  using lawful_seq [of m "fst r" "snd r" "fst r'" "snd r'"] assms by simp

lemma lawful_apply_device_event:
  assumes "sm_inv m"
  shows "lawful m (apply_device_event e m)"
proof (cases "address_allowed m (de_address e)")
  case True
  let ?k = "canon (de_address e)"
  let ?m0 = "ensure_device (de_address e) (stat (\<lambda>s. s\<lparr>st_events_received := Suc (st_events_received s)\<rparr>) m)"
  let ?m1 = "mark_seen ?k (de_timestamp e) ?m0"
  let ?r = "discovery_actions ?k ?m1"
  have inv0: "sm_inv ?m0" using assms True by (simp add: sm_inv_ensure_device)
  have k0: "has_dev ?m0 ?k" by (simp add: has_dev_ensure_device)
  have a0: "ds_address (dev ?m0 ?k) = ?k" using inv0 k0 by simp
  have inv1: "sm_inv ?m1" using inv0 by simp
  have k1: "has_dev ?m1 ?k" using k0 by simp
  have led: "ledger_of ?m1 = ledger_of m" using inv0 by (simp add: ledger_stat)
  have conf: "same_config m ?m1" by (simp add: mark_seen_def)
  note disc = lawful_discovery_actions [OF inv1 k1]
  have r: "lawful m (fst ?r @ [PublishEventAction e], snd ?r)"
    using lawful_silent [OF disc(1) conf led] True by (intro lawful_act) simp_all
  have set: "lawful (snd ?r) (set_device_state ?k (de_command e) (de_timestamp e) True True (snd ?r))"
    if "dc_stateful (config_of m ?k)"
    using that lawful_inv [OF disc(1)] disc(2) k1 same_config_reads(1) [OF lawful_config [OF r]]
    by (intro lawful_set_device_state) simp_all
  show ?thesis
    using lawful_then [OF r] set a0 r True
    by (auto simp: apply_device_event_def Let_def split: prod.splits)
qed (use assms in \<open>simp add: apply_device_event_def lawful_same\<close>)

lemma lawful_house_loop:
  assumes "sm_inv m" "\<forall>k \<in> set ks. has_dev m k"
  shows "lawful m (house_loop e ks m)"
  using assms
proof (induction ks arbitrary: m)
  case (Cons k ks)
  let ?m1 = "mark_seen k (he_timestamp e) m"
  let ?r = "set_device_state k (if he_command e \<in> {ALL_UNITS_OFF, ALL_LIGHTS_OFF} then OFF else ON)
    (he_timestamp e) True True ?m1"
  have k: "has_dev m k" "ds_address (dev m k) = k" using Cons.prems by simp_all
  show ?case
  proof (cases "dc_stateful (config_of m k) \<and> device_responds_to_house_command (config_of m k) (he_command e)")
    case True
    then have set: "lawful ?m1 ?r" "has_dev (snd ?r) = has_dev m"
      using Cons.prems k lawful_set_device_state [of ?m1 k] by simp_all
    then have "lawful ?m1 (fst ?r @ fst (house_loop e ks (snd ?r)), snd (house_loop e ks (snd ?r)))"
      using Cons.prems lawful_inv [OF set(1)] by (intro lawful_then [OF set(1)] Cons.IH) simp_all
    from lawful_silent [OF this] Cons.prems True k(2) show ?thesis
      by (auto simp: Let_def split: prod.splits)
  next
    case False
    with Cons k(2) show ?thesis by (auto simp: Let_def)
  qed
qed (simp add: lawful_same)

lemma lawful_apply_house_event:
  assumes "sm_inv m"
  shows "lawful m (apply_house_event e m)"
proof -
  let ?m1 = "stat (\<lambda>s. s\<lparr>st_events_received := Suc (st_events_received s)\<rparr>) m"
  have "lawful ?m1 (house_loop e (devices_for_house ?m1 (he_house e)) ?m1)"
    using assms by (intro lawful_house_loop) (auto simp: devices_for_house_def has_dev_def)
  then have "lawful m (house_loop e (devices_for_house ?m1 (he_house e)) ?m1)"
    by (rule lawful_silent) (simp_all add: ledger_stat)
  then show ?thesis
    using assms by (auto simp: apply_house_event_def Let_def ledger_stat intro!: lawful_same)
qed

lemma lawful_snapshot_loop: "sm_inv m \<Longrightarrow> lawful m (snapshot_loop now ds m)"
proof (induction ds arbitrary: m)
  case (Cons d ds)
  obtain a c where d: "d = (a, c)" by (cases d)
  let ?k = "canon a"
  let ?m0 = "ensure_device a m"
  let ?m1 = "mark_seen ?k now ?m0"
  let ?r = "set_device_state ?k c now True True ?m1"
  show ?case
  proof (cases "address_allowed m a")
    case True
    then have inv0: "sm_inv ?m0" using Cons.prems by (simp add: sm_inv_ensure_device)
    have k0: "has_dev ?m0 ?k" by (simp add: has_dev_ensure_device)
    then have a0: "ds_address (dev ?m0 ?k) = ?k" using inv0 by simp
    show ?thesis
    proof (cases "dc_stateful (config_of m ?k)")
      case True
      have set: "lawful ?m1 ?r" using inv0 k0 True by (intro lawful_set_device_state) simp_all
      have "lawful (snd ?r) (snapshot_loop now ds (snd ?r))"
        by (rule Cons.IH [OF lawful_inv [OF set]])
      from lawful_silent [OF lawful_then [OF set this], of m] show ?thesis
        using inv0 \<open>address_allowed m a\<close> a0 True d
        by (auto simp: Let_def split: prod.splits)
    next
      case False
      then have "lawful ?m0 (snapshot_loop now ds ?m0)"
        by (intro Cons.IH inv0)
      from lawful_silent [OF this, of m] show ?thesis
        using \<open>address_allowed m a\<close> a0 False d by (auto simp: Let_def)
    qed
  qed (use Cons d in simp)
qed (simp add: lawful_same)

lemma lawful_apply_status_snapshot:
  assumes "sm_inv m"
  shows "lawful m (apply_status_snapshot now ss m)"
  unfolding apply_status_snapshot_def
  by (rule lawful_silent [OF lawful_snapshot_loop]) (use assms in \<open>simp_all add: ledger_stat\<close>)

lemma lawful_sm_apply:
  assumes "sm_inv m"
  shows "lawful m (sm_apply now ev m)"
proof (cases "(now, ev, m)" rule: sm_apply.cases)
  case (5 now' e m')
  have "ledger_of (stat (\<lambda>s. s\<lparr>st_unknown_packets := Suc (st_unknown_packets s)\<rparr>) m) =
      book (LogUnknownEventAction e) (ledger_of m)"
    by (simp add: ledger_of_def known_def dev_stat fun_eq_iff) (simp add: stat_def)
  with 5 assms show ?thesis by (simp add: lawful_def)
qed (use assms in \<open>auto intro: lawful_same lawful_apply_device_event lawful_apply_house_event lawful_apply_status_snapshot\<close>)

lemma lawful_optimistic_update:
  assumes "sm_inv m"
  shows "lawful m (optimistic_update now a c m)"
proof (cases "address_allowed m a")
  case allowed: True
  let ?k = "canon a"
  let ?m0 = "ensure_device a m"
  have inv0: "sm_inv ?m0" using assms allowed by (simp add: sm_inv_ensure_device)
  have k0: "has_dev ?m0 ?k" by (simp add: has_dev_ensure_device)
  have a0: "ds_address (dev m ?k) = ?k" using inv0 k0 sm_inv_address by (metis dev_ensure_device)
  show ?thesis
  proof (cases "c \<in> dc_supported_commands (config_of m ?k)")
    case sup: True
    let ?p = "put_dev ?k (\<lambda>s. s\<lparr>ds_pending_command := Some c\<rparr>) ?m0"
    let ?m1 = "stat (\<lambda>s. s\<lparr>st_commands_sent := Suc (st_commands_sent s)\<rparr>) ?p"
    let ?r = "discovery_actions ?k ?m1"
    have invp: "sm_inv ?p" using inv0 sup by (intro sm_inv_put_dev) (simp_all add: dev_ok_def)
    then have inv1: "sm_inv ?m1" by simp
    have k1: "has_dev ?m1 ?k" using k0 by (simp add: dict_simps)
    note disc = lawful_discovery_actions [OF inv1 k1]
    have ledp: "ledger_of ?p = ledger_of m" by (subst ledger_put_dev) simp_all
    have led1: "ledger_of ?m1 = book (SendDeviceCommandAction ?k c) (ledger_of m)"
      unfolding ledp [symmetric] by (simp add: ledger_of_def known_def dev_stat fun_eq_iff) (simp add: stat_def)
    have comm: "fold book (fst ?r) (book (SendDeviceCommandAction ?k c) l) =
        book (SendDeviceCommandAction ?k c) (fold book (fst ?r) l)" for l
      by (simp add: discovery_actions_def)
    have r: "lawful m (fst ?r @ [SendDeviceCommandAction ?k c], snd ?r)"
      using disc(1) led1 comm allowed sup act_ok_cong [of m ?m1] same_config_trans [of m ?m1 "snd ?r"]
      by (simp add: lawful_def normal_address_def)
    have r2: "lawful m ((fst ?r @ [SendDeviceCommandAction ?k c]) @ [x], snd ?r)"
      if "act_ok m x" "\<And>l. book x l = l" for x
      using lawful_act [OF r that] .
    have set: "lawful (snd ?r) (set_device_state ?k c now True False (snd ?r))"
      if "dc_stateful (config_of m ?k)"
      using that lawful_inv [OF disc(1)] disc(2) k1 same_config_reads(1) [OF lawful_config [OF r]]
      by (intro lawful_set_device_state) simp_all
    have att: "act_ok m (PublishAttributesAction ?k pl True)" if "dc_stateful (config_of m ?k)" for pl
      using that allowed by (simp add: normal_address_def)
    have cev: "act_ok m (PublishCommandEventAction ?k pl False)" if "\<not> dc_stateful (config_of m ?k)" for pl
      using that allowed by (simp add: normal_address_def)
    show ?thesis
      using lawful_then [OF r2 [OF att]] r2 [OF att] r2 [OF cev] set sup allowed a0
      by (auto simp: optimistic_update_def Let_def dev_ensure_device split: prod.splits)
  qed (use allowed a0 inv0 in \<open>auto simp: optimistic_update_def Let_def dev_ensure_device intro!: lawful_same\<close>)
qed (use assms in \<open>simp add: optimistic_update_def lawful_same\<close>)

text \<open>Changes of the connection flags are invisible to the ledger and to the invariant.\<close>

definition same_devices :: "state_manager \<Rightarrow> state_manager \<Rightarrow> bool" where
  "same_devices m m' \<longleftrightarrow> same_config m m' \<and> sm_devices m' = sm_devices m \<and> ledger_of m' = ledger_of m"

lemma same_devices_inv: "same_devices m m' \<Longrightarrow> sm_inv m \<Longrightarrow> sm_inv m'"
  unfolding same_devices_def sm_inv_def has_dev_def dev_def
  using dev_ok_cong [of m m'] by auto

lemma lawful_bridge_status:
  assumes "sm_inv m"
  shows "lawful m (bridge_status_actions m)"
proof -
  have *: "same_devices m (m\<lparr>sm_available := b\<rparr>)" for b
    by (simp add: same_devices_def same_config_def ledger_of_def known_def dev_def fun_eq_iff)
  then show ?thesis
    using same_devices_inv [OF * assms]
    by (simp add: bridge_status_actions_def Let_def lawful_def same_devices_def)
qed

lemma devices_bridge_status [simp]: "sm_devices (snd (bridge_status_actions m)) = sm_devices m"
  by (simp add: bridge_status_actions_def Let_def)

lemma lawful_rediscover:
  assumes "sm_inv m" "\<forall>k \<in> set ks. has_dev m k"
  shows "lawful m (rediscover_loop ks m)"
  using assms
proof (induction ks arbitrary: m)
  case (Cons k ks)
  let ?m1 = "put_dev k (\<lambda>s. s\<lparr>ds_discovered := True\<rparr>)
    (stat (\<lambda>s. s\<lparr>st_discovery_messages := Suc (st_discovery_messages s)\<rparr>)
      (put_dev k (\<lambda>s. s\<lparr>ds_discovered := False\<rparr>) m))"
  let ?acts = "PublishDiscoveryAction k # (case known m k of None \<Rightarrow> [] | Some c \<Rightarrow> [PublishStateAction k c True])"
  have ok: "dev_ok m k (dev m k)" and k: "has_dev m k" using Cons.prems sm_inv_dev by auto
  have inv: "sm_inv ?m1"
    using Cons.prems(1) ok k by (auto intro!: sm_inv_put_dev simp: dict_simps dev_ok_def)
  have "known ?m1 = known m" by (auto simp: known_def dict_simps fun_eq_iff)
  then have "ledger_of ?m1 = fold book ?acts (ledger_of m)"
    by (auto simp: ledger_of_def fun_upd_idem split: option.splits) (simp_all add: stat_def put_dev_def)
  moreover have "list_all (act_ok m) ?acts"
    using ok by (auto simp: dev_ok_def normal_address_def known_def split: option.splits)
  ultimately have "lawful m (?acts, ?m1)" using inv by (simp add: lawful_def)
  from lawful_seq [OF this, of "fst (rediscover_loop ks ?m1)" "snd (rediscover_loop ks ?m1)"] Cons inv
  have "lawful m (?acts @ fst (rediscover_loop ks ?m1), snd (rediscover_loop ks ?m1))"
    by (simp add: dict_simps)
  moreover have "rediscover_loop (k # ks) m = (?acts @ fst (rediscover_loop ks ?m1), snd (rediscover_loop ks ?m1))"
    using ok k by (auto simp: Let_def dict_simps known_def dev_ok_def split: prod.splits option.splits)
  ultimately show ?case by simp
qed (simp add: lawful_same)

lemma same_devices_basic:
  "same_devices m (m\<lparr>sm_mqtt_connected := b, sm_mqtt_generation := g\<rparr>)"
  "same_devices m (m\<lparr>sm_mqtt_has_connected := b\<rparr>)" "same_devices m (m\<lparr>sm_mqtt_connected := b\<rparr>)"
  "same_devices m (m\<lparr>sm_mochad_connected := b\<rparr>)"
  "same_devices m (stat (\<lambda>s. s\<lparr>st_mqtt_reconnects := h s\<rparr>) m)"
  "same_devices m (stat (\<lambda>s. s\<lparr>st_mqtt_connections := h s\<rparr>) m)"
  "same_devices m (stat (\<lambda>s. s\<lparr>st_mqtt_disconnects := h s\<rparr>) m)"
  "same_devices m (stat (\<lambda>s. s\<lparr>st_mochad_reconnects := h s\<rparr>) m)"
  by (simp_all add: same_devices_def same_config_def ledger_of_def known_def dev_def fun_eq_iff stat_def)

lemma same_devices_trans [trans]: "same_devices m m' \<Longrightarrow> same_devices m' m'' \<Longrightarrow> same_devices m m''"
  by (simp add: same_devices_def same_config_def)

lemma lawful_same_devices: "same_devices m m' \<Longrightarrow> (sm_inv m' \<Longrightarrow> lawful m' r) \<Longrightarrow> sm_inv m \<Longrightarrow> lawful m r"
  using same_devices_inv [of m m'] lawful_silent [of m' r m] by (simp add: same_devices_def)

text \<open>The state \<^verbatim>\<open>mqtt_connected\<close> reaches before it emits anything.\<close>

definition mqtt_up :: "state_manager \<Rightarrow> state_manager" where
  "mqtt_up m =
     (let m' = m\<lparr>sm_mqtt_connected := True, sm_mqtt_generation := Suc (sm_mqtt_generation m)\<rparr>;
          m' = (if sm_mqtt_has_connected m' \<and> \<not> sm_mqtt_connected m
                then stat (\<lambda>s. s\<lparr>st_mqtt_reconnects := Suc (st_mqtt_reconnects s)\<rparr>) m' else m')
      in stat (\<lambda>s. s\<lparr>st_mqtt_connections := Suc (st_mqtt_connections s)\<rparr>)
           (m'\<lparr>sm_mqtt_has_connected := True\<rparr>))"

lemma mqtt_up_same: "same_devices m (mqtt_up m)"
  unfolding mqtt_up_def Let_def
  by (auto intro!: same_devices_trans [OF _ same_devices_basic(6)] same_devices_trans [OF _ same_devices_basic(2)]
      same_devices_trans [OF same_devices_basic(1) same_devices_basic(5)] same_devices_basic(1))

lemma sm_mqtt_connect_eq:
  "sm_mqtt_connect m =
     (let (acts, m') = bridge_status_actions (mqtt_up m);
          (acts', m'') = rediscover_loop (map fst (sm_devices m)) m'
      in (acts @ acts', m''))"
  using mqtt_up_same [of m]
  by (auto simp: sm_mqtt_connect_def mqtt_up_def same_devices_def Let_def bridge_status_actions_def split: prod.splits)

lemma lawful_mqtt_connect:
  assumes "sm_inv m"
  shows "lawful m (sm_mqtt_connect m)"
proof (rule lawful_same_devices [OF mqtt_up_same _ assms])
  assume inv: "sm_inv (mqtt_up m)"
  let ?b = "bridge_status_actions (mqtt_up m)"
  have b: "lawful (mqtt_up m) ?b" using inv by (rule lawful_bridge_status)
  have "sm_devices (snd ?b) = sm_devices m" using mqtt_up_same [of m] by (simp add: same_devices_def)
  then have "lawful (snd ?b) (rediscover_loop (map fst (sm_devices m)) (snd ?b))"
    by (intro lawful_rediscover lawful_inv [OF b]) (auto simp: has_dev_def)
  from lawful_then [OF b this] show "lawful (mqtt_up m) (sm_mqtt_connect m)"
    by (simp add: sm_mqtt_connect_eq case_prod_unfold Let_def)
qed

lemma lawful_mqtt_disconnect:
  assumes "sm_inv m"
  shows "lawful m (sm_mqtt_disconnect m)"
proof -
  let ?m = "if sm_mqtt_connected m
    then stat (\<lambda>s. s\<lparr>st_mqtt_disconnects := Suc (st_mqtt_disconnects s)\<rparr>) m else m"
  have "same_devices m (?m\<lparr>sm_mqtt_connected := False\<rparr>)"
    by (auto intro: same_devices_trans same_devices_basic)
  from lawful_same_devices [OF this lawful_bridge_status assms] show ?thesis
    by (simp add: sm_mqtt_disconnect_def Let_def)
qed

lemma lawful_mochad_connect:
  assumes "sm_inv m"
  shows "lawful m (sm_mochad_connect m)"
proof -
  let ?m = "stat (\<lambda>s. s\<lparr>st_mochad_reconnects := Suc (st_mochad_reconnects s)\<rparr>) (m\<lparr>sm_mochad_connected := True\<rparr>)"
  have "same_devices m ?m" by (auto intro: same_devices_trans same_devices_basic)
  from lawful_act [of m "fst (bridge_status_actions ?m)" "snd (bridge_status_actions ?m)" RequestStatusAction]
    lawful_same_devices [OF this lawful_bridge_status assms] show ?thesis
    by (simp add: sm_mochad_connect_def Let_def case_prod_unfold)
qed

lemma lawful_mochad_disconnect:
  assumes "sm_inv m"
  shows "lawful m (sm_mochad_disconnect m)"
proof -
  let ?f = "\<lambda>(k, s). (k, s\<lparr>ds_available := False\<rparr>)"
  let ?m = "m\<lparr>sm_mochad_connected := False, sm_devices := map ?f (sm_devices m)\<rparr>"
  have keys: "map fst (sm_devices ?m) = map fst (sm_devices m)" by auto
  have look: "map_of (map ?f ds) k = map_option (\<lambda>s. s\<lparr>ds_available := False\<rparr>) (map_of ds k)"
    for ds :: "(address \<times> device_state) list" and k
    by (induction ds) auto
  have dev: "dev ?m k = (if has_dev m k then (dev m k)\<lparr>ds_available := False\<rparr> else dev m k)" for k
    by (auto simp: dev_def has_dev_map_of look split: option.splits)
  have conf: "same_config m ?m" by (simp add: same_config_def)
  have "dev_ok m k (dev ?m k)" if "has_dev m k" for k
    using sm_inv_dev [OF assms that] that unfolding dev by (simp add: dev_ok_def)
  then have "sm_inv ?m"
    using assms keys unfolding sm_inv_def has_dev_def dev_ok_cong [OF conf] by presburger
  moreover have "known ?m = known m" unfolding known_def dev by (simp add: fun_eq_iff)
  then have "ledger_of ?m = ledger_of m" by (simp add: ledger_of_def)
  ultimately show ?thesis
    unfolding sm_mochad_disconnect_def 
    using conf by (intro lawful_silent [OF lawful_bridge_status]) auto
qed

end
