(* ===== verification/StateSpec.thy ===== *)
theory StateSpec
  imports StateLaws
begin

section \<open>What each event does to the devices\<close>

text \<open>
  The functional behaviour of the methods of \<^verbatim>\<open>StateManager\<close>: which devices change, to which state,
  and exactly which actions are emitted, in which order.
\<close>

subsection \<open>Setting one device\<close>

lemma known_put_dev:
  "(\<And>s. ds_current_state (f s) = ds_current_state s) \<Longrightarrow> known (put_dev k f m) = known m"
  by (auto simp: known_def dev_put_dev)

lemma known_basic [simp]:
  "known (stat f m) = known m" "known (ensure_device a m) = known m" "known (mark_seen k now m) = known m"
  by (simp_all add: known_def dict_simps fun_eq_iff mark_seen_def)

lemma set_device_state_spec:
  assumes "sm_inv m" "has_dev m k"
  shows "known (snd (set_device_state k c now r cp m)) = (known m)(k := Some (authoritative_state c))"
    and "fst (set_device_state k c now r cp m) =
      (if known m k = Some (authoritative_state c) then [] else [PublishStateAction k (authoritative_state c) r])"
  using assms
  by (auto simp: set_device_state_def Let_def known_def dict_simps clear_confirmed_pending_def fun_eq_iff)

lemma set_device_state_keys [simp]:
  "map fst (sm_devices (snd (set_device_state k c now r cp m))) = map fst (sm_devices m)"
  by (simp add: set_device_state_def Let_def stat_def put_dev_def)

lemma set_device_state_config [simp]:
  "same_config m' (snd (set_device_state k c now r cp m)) = same_config m' m"
  "config_of (snd (set_device_state k c now r cp m)) = config_of m"
  "address_allowed (snd (set_device_state k c now r cp m)) = address_allowed m"
  by (simp_all add: set_device_state_def Let_def)

lemma basic_keys [simp]:
  "map fst (sm_devices (stat f m)) = map fst (sm_devices m)"
  "map fst (sm_devices (put_dev k g m)) = map fst (sm_devices m)"
  "map fst (sm_devices (mark_seen k now m)) = map fst (sm_devices m)"
  by (simp_all add: stat_def put_dev_def mark_seen_def)

subsection \<open>House events\<close>

definition house_target :: "house_event \<Rightarrow> command" where
  "house_target e = (if he_command e \<in> {ALL_UNITS_OFF, ALL_LIGHTS_OFF} then OFF else ON)"

definition house_affected :: "state_manager \<Rightarrow> house_event \<Rightarrow> address \<Rightarrow> bool" where
  "house_affected m e k \<longleftrightarrow> dc_stateful (config_of m k) \<and>
     device_responds_to_house_command (config_of m k) (he_command e)"

lemma house_target_final [simp]: "authoritative_state (house_target e) = house_target e"
  by (simp add: house_target_def authoritative_state_def ON_COMMANDS_def OFF_COMMANDS_def)

lemma house_loop_spec:
  assumes "sm_inv m" "\<forall>k \<in> set ks. has_dev m k" "distinct ks"
  shows "fst (house_loop e ks m) =
      map (\<lambda>k. PublishStateAction k (house_target e) True)
        (filter (\<lambda>k. house_affected m e k \<and> known m k \<noteq> Some (house_target e)) ks)"
    and "known (snd (house_loop e ks m)) =
      (\<lambda>k. if k \<in> set ks \<and> house_affected m e k then Some (house_target e) else known m k)"
proof -
  have "fst (house_loop e ks m) =
      map (\<lambda>k. PublishStateAction k (house_target e) True)
        (filter (\<lambda>k. house_affected m e k \<and> known m k \<noteq> Some (house_target e)) ks) \<and>
    known (snd (house_loop e ks m)) =
      (\<lambda>k. if k \<in> set ks \<and> house_affected m e k then Some (house_target e) else known m k)"
    using assms
  proof (induction ks arbitrary: m)
    case (Cons k ks)
    have k: "has_dev m k" "ds_address (dev m k) = k" using Cons.prems by simp_all
    show ?case
    proof (cases "house_affected m e k")
      case True
      let ?m1 = "mark_seen k (he_timestamp e) m"
      let ?r = "set_device_state k (house_target e) (he_timestamp e) True True ?m1"
      have inv1: "sm_inv ?m1" "has_dev ?m1 k" using Cons.prems k by simp_all
      note law = lawful_set_device_state [OF inv1, of "house_target e" "he_timestamp e" True]
      have aff: "house_affected (snd ?r) e = house_affected m e"
        by (simp add: house_affected_def fun_eq_iff)
      have IH: "fst (house_loop e ks (snd ?r)) = map (\<lambda>k. PublishStateAction k (house_target e) True)
          (filter (\<lambda>k. house_affected m e k \<and> known (snd ?r) k \<noteq> Some (house_target e)) ks)"
        "known (snd (house_loop e ks (snd ?r))) =
          (\<lambda>k. if k \<in> set ks \<and> house_affected m e k then Some (house_target e) else known (snd ?r) k)"
        using Cons.IH [of "snd ?r"] Cons.prems law True lawful_inv [OF law(1)]
        by (auto simp: aff house_affected_def)
      have eq: "house_loop e (k # ks) m = (fst ?r @ fst (house_loop e ks (snd ?r)), snd (house_loop e ks (snd ?r)))"
        using True k(2) by (simp add: Let_def house_affected_def house_target_def case_prod_unfold)
      have flt: "filter (\<lambda>j. house_affected m e j \<and> known (snd ?r) j \<noteq> Some (house_target e)) ks =
          filter (\<lambda>j. house_affected m e j \<and> known m j \<noteq> Some (house_target e)) ks"
        using Cons.prems(3) by (intro filter_cong) (auto simp: set_device_state_spec [OF inv1])
      show ?thesis
        unfolding eq fst_conv snd_conv IH flt set_device_state_spec(2) [OF inv1]
        using True Cons.prems(3) by (auto simp: set_device_state_spec(1) [OF inv1] fun_eq_iff)
    next
      case False
      then have "house_loop e (k # ks) m = house_loop e ks m"
        using k(2) by (auto simp: Let_def house_affected_def)
      with False Cons show ?thesis by (auto simp: fun_eq_iff)
    qed
  qed (simp add: fun_eq_iff)
  then show "fst (house_loop e ks m) =
      map (\<lambda>k. PublishStateAction k (house_target e) True)
        (filter (\<lambda>k. house_affected m e k \<and> known m k \<noteq> Some (house_target e)) ks)"
    "known (snd (house_loop e ks m)) =
      (\<lambda>k. if k \<in> set ks \<and> house_affected m e k then Some (house_target e) else known m k)"
    by blast+
qed

text \<open>
  C20. An \<^verbatim>\<open>ALL UNITS OFF\<close>, \<^verbatim>\<open>ALL LIGHTS OFF\<close> or \<^verbatim>\<open>ALL LIGHTS ON\<close> of an allowed house sets exactly the
  known devices of that house that have state and respond to the command, leaves every other device
  alone, and publishes the new state of exactly those whose state changed, in the order in which the
  devices were first seen.
\<close>

theorem house_event_effect:
  assumes "sm_inv m" "house_allowed m (he_house e)"
    and "he_command e \<in> {ALL_UNITS_OFF, ALL_LIGHTS_OFF, ALL_LIGHTS_ON}"
  shows "let (acts, m') = apply_house_event e m;
             hit = (\<lambda>k. startswith k (canon (he_house e)) \<and> house_affected m e k)
         in known m' = (\<lambda>k. if has_dev m k \<and> hit k then Some (house_target e) else known m k) \<and>
            acts = map (\<lambda>k. PublishStateAction k (house_target e) True)
              (filter (\<lambda>k. hit k \<and> known m k \<noteq> Some (house_target e)) (map fst (sm_devices m)))"
proof -
  let ?m = "stat (\<lambda>s. s\<lparr>st_events_received := Suc (st_events_received s)\<rparr>) m"
  let ?ks = "devices_for_house ?m (he_house e)"
  have ks: "?ks = filter (\<lambda>k. startswith k (canon (he_house e))) (map fst (sm_devices m))"
    by (simp add: devices_for_house_def)
  have pre: "sm_inv ?m" "\<forall>k \<in> set ?ks. has_dev ?m k" "distinct ?ks"
    using assms(1) by (simp, auto simp: ks dev_stat has_dev_def) (simp add: sm_inv_def)
  have "apply_house_event e m = house_loop e ?ks ?m"
    using assms(2,3) by (simp add: apply_house_event_def Let_def)
  moreover have "house_affected ?m = house_affected m" by (simp add: house_affected_def fun_eq_iff)
  ultimately show ?thesis
    using house_loop_spec [OF pre, of e]
    by (auto simp: case_prod_unfold Let_def ks has_dev_def fun_eq_iff conj_commute conj_left_commute)
qed

subsection \<open>Device events\<close>

lemma discovery_actions_known [simp]:
  "known (snd (discovery_actions k m)) = known m"
  "same_config m' (snd (discovery_actions k m)) = same_config m' m"
  by (auto simp: discovery_actions_def intro!: known_put_dev)

lemma device_event_spec:
  assumes "sm_inv m" "address_allowed m (de_address e)"
  shows "let k = canon (de_address e);
             (acts, m') = apply_device_event e m;
             sets = (dc_stateful (config_of m k) \<and> de_command e \<in> STATE_COMMANDS);
             target = authoritative_state (de_command e)
         in known m' = (if sets then (known m)(k := Some target) else known m) \<and>
            acts = (if sm_mqtt_connected m \<and> \<not> ds_discovered (dev m k) then [PublishDiscoveryAction k] else []) @
              [PublishEventAction e] @
              (if sets \<and> known m k \<noteq> Some target then [PublishStateAction k target True] else [])"
proof -
  let ?k = "canon (de_address e)"
  let ?m0 = "ensure_device (de_address e) (stat (\<lambda>s. s\<lparr>st_events_received := Suc (st_events_received s)\<rparr>) m)"
  let ?m1 = "mark_seen ?k (de_timestamp e) ?m0"
  let ?r = "discovery_actions ?k ?m1"
  let ?s = "set_device_state ?k (de_command e) (de_timestamp e) True True (snd ?r)"
  have inv0: "sm_inv ?m0" using assms by (simp add: sm_inv_ensure_device)
  have k0: "has_dev ?m0 ?k" by (simp add: has_dev_ensure_device)
  have a0: "ds_address (dev m ?k) = ?k"
    using inv0 k0 sm_inv_address [OF inv0 k0] by (simp add: dict_simps)
  have inv1: "sm_inv ?m1" "has_dev ?m1 ?k" using inv0 k0 by simp_all
  note disc = lawful_discovery_actions [OF inv1]
  have inv2: "sm_inv (snd ?r)" "has_dev (snd ?r) ?k"
    using lawful_inv [OF disc(1)] disc(2) inv1 by simp_all
  have d1: "dev ?m1 ?k = (dev m ?k)\<lparr>ds_available := True, ds_last_seen := Some (de_timestamp e)\<rparr>"
    using k0 by (simp add: mark_seen_def dict_simps)
  have conn: "sm_mqtt_connected ?m1 = sm_mqtt_connected m"
    by (simp add: mark_seen_def put_dev_def stat_def ensure_device_def Let_def split: option.splits)
  have fr: "fst ?r = (if sm_mqtt_connected m \<and> \<not> ds_discovered (dev m ?k) then [PublishDiscoveryAction ?k] else [])"
    unfolding discovery_actions_def conn d1 using a0 by simp
  have eq: "apply_device_event e m =
     (if dc_stateful (config_of m ?k) \<and> de_command e \<in> STATE_COMMANDS
      then (fst ?r @ [PublishEventAction e] @ fst ?s, snd ?s) else (fst ?r @ [PublishEventAction e], snd ?r))"
    using assms(2) a0 by (simp add: apply_device_event_def Let_def case_prod_unfold dict_simps)
  show ?thesis
    unfolding eq Let_def case_prod_unfold
    using set_device_state_spec [OF inv2] by (simp add: fr)
qed

text \<open>
  C21. A device event of an allowed address always publishes the event, after the discovery message
  of a device that was not yet announced on a live MQTT connection.  If the device has state and the
  command is one that carries state, its state becomes the command's authoritative state and is
  published when it changed; otherwise no state changes.  No other device changes.
\<close>

theorem device_event_effect:
  assumes "sm_inv m" "address_allowed m (de_address e)"
  shows "let k = canon (de_address e);
             (acts, m') = apply_device_event e m;
             sets = (dc_stateful (config_of m k) \<and> de_command e \<in> STATE_COMMANDS);
             target = authoritative_state (de_command e)
         in known m' = (if sets then (known m)(k := Some target) else known m) \<and>
            acts = (if sm_mqtt_connected m \<and> \<not> ds_discovered (dev m k) then [PublishDiscoveryAction k] else []) @
              [PublishEventAction e] @
              (if sets \<and> known m k \<noteq> Some target then [PublishStateAction k target True] else [])"
  by (rule device_event_spec [OF assms])

subsection \<open>Status snapshots\<close>

definition snapshot_applies :: "state_manager \<Rightarrow> address \<Rightarrow> bool" where
  "snapshot_applies m a \<longleftrightarrow> address_allowed m a \<and> dc_stateful (config_of m a)"

lemma snapshot_loop_known:
  "sm_inv m \<Longrightarrow> known (snd (snapshot_loop now ds m)) =
     fold (\<lambda>(a, c) v. if snapshot_applies m a then v(canon a := Some (authoritative_state c)) else v) ds (known m)"
proof (induction ds arbitrary: m)
  case (Cons d ds)
  obtain a c where d: "d = (a, c)" by (cases d)
  let ?k = "canon a"
  let ?m0 = "ensure_device a m"
  let ?m1 = "mark_seen ?k now ?m0"
  let ?r = "set_device_state ?k c now True True ?m1"
  show ?case
  proof (cases "address_allowed m a")
    case True
    then have inv0: "sm_inv ?m0" using Cons.prems by (simp add: sm_inv_ensure_device)
    have k0: "has_dev ?m0 ?k" by (simp add: has_dev_ensure_device)
    have a0: "ds_address (dev ?m0 ?k) = ?k" using inv0 k0 by simp
    have inv1: "sm_inv ?m1" "has_dev ?m1 ?k" using inv0 k0 by simp_all
    have inv2: "sm_inv (snd ?r)" if "dc_stateful (config_of m a)"
      using that lawful_inv [OF lawful_set_device_state(1) [OF inv1]] by simp
    have app: "snapshot_applies (snd ?r) = snapshot_applies m" "snapshot_applies ?m0 = snapshot_applies m"
      by (simp_all add: snapshot_applies_def fun_eq_iff)
    show ?thesis
      using Cons.IH [OF inv0] Cons.IH [OF inv2] set_device_state_spec(1) [OF inv1] True a0
      by (auto simp: d Let_def case_prod_unfold snapshot_applies_def [of m a] app fun_upd_def)
  next
    case False
    with Cons d show ?thesis by (simp add: snapshot_applies_def)
  qed
qed simp

text \<open>
  C22. A status snapshot sets every device it lists whose house is allowed and that has state, known
  before or not, to the authoritative state of its bit, in the order of the snapshot; filtered
  addresses, devices without state and devices it does not list keep the state they had.
\<close>

theorem status_snapshot_effect:
  assumes "sm_inv m"
  shows "known (snd (apply_status_snapshot now ss m)) =
     fold (\<lambda>(a, c) v. if snapshot_applies m a then v(canon a := Some (authoritative_state c)) else v)
       (ss_devices ss) (known m)"
proof -
  let ?m = "stat (\<lambda>s. s\<lparr>st_status_syncs := Suc (st_status_syncs s)\<rparr>) m"
  have "sm_inv ?m" using assms by simp
  moreover have "snapshot_applies ?m = snapshot_applies m" by (simp add: snapshot_applies_def fun_eq_iff)
  ultimately show ?thesis
    unfolding apply_status_snapshot_def using snapshot_loop_known [of ?m now "ss_devices ss"] by simp
qed

subsection \<open>Connections\<close>

text \<open>The actions of one device when MQTT comes back.\<close>

definition announce :: "state_manager \<Rightarrow> address \<Rightarrow> bridge_action list" where
  "announce m k = PublishDiscoveryAction k #
     (case known m k of None \<Rightarrow> [] | Some c \<Rightarrow> [PublishStateAction k c True])"

lemma rediscover_loop_spec:
  assumes "sm_inv m" "\<forall>k \<in> set ks. has_dev m k"
  shows "fst (rediscover_loop ks m) = concat (map (announce m) ks) \<and>
    (\<forall>k. ds_discovered (dev (snd (rediscover_loop ks m)) k) = (k \<in> set ks \<or> ds_discovered (dev m k))) \<and>
    known (snd (rediscover_loop ks m)) = known m \<and>
    map fst (sm_devices (snd (rediscover_loop ks m))) = map fst (sm_devices m)"
  using assms
proof (induction ks arbitrary: m)
  case (Cons k ks)
  let ?m1 = "put_dev k (\<lambda>s. s\<lparr>ds_discovered := True\<rparr>)
    (stat (\<lambda>s. s\<lparr>st_discovery_messages := Suc (st_discovery_messages s)\<rparr>)
      (put_dev k (\<lambda>s. s\<lparr>ds_discovered := False\<rparr>) m))"
  have ok: "dev_ok m k (dev m k)" and k: "has_dev m k" using Cons.prems sm_inv_dev by auto
  have inv: "sm_inv ?m1"
    using Cons.prems(1) ok k by (auto intro!: sm_inv_put_dev simp: dict_simps dev_ok_def)
  have kn: "known ?m1 = known m" by (auto simp: known_def dict_simps fun_eq_iff)
  have ann: "announce ?m1 = announce m" using kn by (simp add: announce_def fun_eq_iff)
  have d1: "dev ?m1 j = (if j = k then (dev m k)\<lparr>ds_discovered := True\<rparr> else dev m j)" for j
    using k by (auto simp: dict_simps)
  have pre: "\<forall>k\<in>set ks. has_dev ?m1 k" using Cons.prems by (simp add: dict_simps)
  have eq: "rediscover_loop (k # ks) m = (announce m k @ fst (rediscover_loop ks ?m1), snd (rediscover_loop ks ?m1))"
    using ok k by (auto simp: Let_def announce_def dict_simps known_def dev_ok_def case_prod_unfold split: option.splits)
  from Cons.IH [OF inv pre] show ?case
    unfolding eq kn ann d1 by simp
qed simp

lemma mqtt_connect_spec:
  assumes "sm_inv m"
  shows "let (acts, m') = sm_mqtt_connect m; online = sm_mochad_connected m in
     acts = [PublishAvailabilityAction online,
             PublishStatusAction (if online then ''online'' else ''offline'') True online True] @
            concat (map (announce m) (map fst (sm_devices m))) \<and>
     known m' = known m \<and> (\<forall>k. has_dev m' k \<longrightarrow> ds_discovered (dev m' k)) \<and>
     sm_mqtt_generation m' = Suc (sm_mqtt_generation m) \<and> sm_available m' = online"
proof -
  let ?u = "mqtt_up m"
  let ?b = "bridge_status_actions ?u"
  let ?r = "rediscover_loop (map fst (sm_devices m)) (snd ?b)"
  have u: "sm_devices ?u = sm_devices m" "known ?u = known m" "sm_inv ?u"
    using mqtt_up_same [of m] same_devices_inv [OF mqtt_up_same assms]
    by (auto simp: same_devices_def ledger_of_def)
  have up: "sm_mqtt_connected ?u" "sm_mochad_connected ?u = sm_mochad_connected m"
    "sm_mqtt_generation ?u = Suc (sm_mqtt_generation m)"
    by (simp_all add: mqtt_up_def Let_def stat_def)
  have invb: "sm_inv (snd ?b)" using lawful_inv [OF lawful_bridge_status [OF u(3)]] .
  have kb: "known (snd ?b) = known m" "announce (snd ?b) = announce m" "dev (snd ?b) = dev m"
    using u by (simp_all add: announce_def fun_eq_iff known_def dev_def)
  have pre: "\<forall>k \<in> set (map fst (sm_devices m)). has_dev (snd ?b) k" using u(1) by (simp add: has_dev_def)
  note spec = rediscover_loop_spec [OF invb pre, unfolded kb]
  have gen: "sm_mqtt_generation (snd (rediscover_loop ks m')) = sm_mqtt_generation m'"
      "sm_available (snd (rediscover_loop ks m')) = sm_available m'" for ks m'
    by (induction ks arbitrary: m') (auto simp: Let_def case_prod_unfold put_dev_def stat_def)
  have keys: "has_dev (snd ?r) k \<Longrightarrow> k \<in> set (map fst (sm_devices m))" for k
    using spec u(1) by (simp add: has_dev_def)
  have eq: "sm_mqtt_connect m = (fst ?b @ fst ?r, snd ?r)"
    by (simp add: sm_mqtt_connect_eq case_prod_unfold Let_def)
  show ?thesis
    unfolding eq Let_def case_prod_unfold fst_conv snd_conv gen
    using spec keys up by (auto simp: bridge_status_actions_def Let_def)
qed

text \<open>
  When MQTT (re)connects, the manager emits the availability and the status of the bridge and
  then, for every known device in order, its discovery message followed by its last known state; all
  devices count as announced afterwards and no state changes.  So a broker that lost its retained
  messages gets all of them again.
\<close>

lemma mqtt_connect_republishes:
  assumes "sm_inv m"
  shows "let (acts, m') = sm_mqtt_connect m; online = sm_mochad_connected m in
     acts = [PublishAvailabilityAction online,
             PublishStatusAction (if online then ''online'' else ''offline'') True online True] @
            concat (map (announce m) (map fst (sm_devices m))) \<and>
     known m' = known m \<and> (\<forall>k. has_dev m' k \<longrightarrow> ds_discovered (dev m' k)) \<and>
     sm_mqtt_generation m' = Suc (sm_mqtt_generation m)"
  using mqtt_connect_spec [OF assms] by (auto simp: Let_def case_prod_unfold)

end
