(* ===== verification/StateRuns.thy ===== *)
theory StateRuns
  imports StateSpec
begin

section \<open>Runs of the state manager\<close>

text \<open>
  The bridge calls the state manager in some order: parsed events, requested commands, connection
  changes.  A run is a list of such calls.  The contract of \<open>StateLaws\<close> is lifted to every run by
  interpreting the locale \<open>observed_system\<close> on the manager.
\<close>

subsection \<open>Calls and runs\<close>

datatype sm_call =
    Apply datetime "event option"
  | Request datetime string command
  | MqttConnected
  | MqttDisconnected
  | MochadConnected
  | MochadDisconnected

fun sm_exec :: "sm_call \<Rightarrow> state_manager \<Rightarrow> bridge_action list \<times> state_manager" where
  "sm_exec (Apply now ev) m = sm_apply now ev m"
| "sm_exec (Request now a c) m = optimistic_update now a c m"
| "sm_exec MqttConnected m = sm_mqtt_connect m"
| "sm_exec MqttDisconnected m = sm_mqtt_disconnect m"
| "sm_exec MochadConnected m = sm_mochad_connect m"
| "sm_exec MochadDisconnected m = sm_mochad_disconnect m"

fun sm_run :: "sm_call list \<Rightarrow> state_manager \<Rightarrow> bridge_action list \<times> state_manager" where
  "sm_run [] m = ([], m)"
| "sm_run (c # cs) m =
     (let (acts, m') = sm_exec c m; (acts', m'') = sm_run cs m' in (acts @ acts', m''))"

inductive sm_step :: "state_manager \<Rightarrow> bridge_action list \<Rightarrow> state_manager \<Rightarrow> bool" where
  call: "sm_exec c m = (acts, m') \<Longrightarrow> sm_step m acts m'"

inductive_cases sm_stepE: "sm_step m acts m'"

lemma lawful_exec: "sm_inv m \<Longrightarrow> lawful m (sm_exec c m)"
  by (cases c) (simp_all add: lawful_sm_apply lawful_optimistic_update lawful_mqtt_connect
      lawful_mqtt_disconnect lawful_mochad_connect lawful_mochad_disconnect)

lemma lawful_step: "sm_inv m \<Longrightarrow> sm_step m acts m' \<Longrightarrow> lawful m (acts, m')"
  by (elim sm_stepE) (metis lawful_exec)

interpretation manager: observed_system sm_step sm_inv ledger_of book act_ok
proof
  fix m acts m' assume "sm_inv m" and "sm_step m acts m'"
  from lawful_step [OF this] show "sm_inv m'" "ledger_of m' = fold book acts (ledger_of m)"
    "list_all (act_ok m) acts" "act_ok m' = act_ok m"
    by (simp_all add: lawful_def act_ok_cong)
qed

lemma trace_Cons:
  assumes "step s as s'" "trace step s' bs s''"
  shows "trace step s (as @ bs) s''"
  using assms(2,1)
proof (induction rule: trace.induct)
  case (trace_refl s')
  then show ?case using trace.trace_step [OF trace.trace_refl] by force
next
  case (trace_step s' bs t cs u)
  then show ?case using trace.trace_step [of step s "as @ bs" t cs u] by simp
qed

lemma run_trace: "trace sm_step m (fst (sm_run cs m)) (snd (sm_run cs m))"
proof (induction cs arbitrary: m)
  case (Cons c cs)
  have "sm_step m (fst (sm_exec c m)) (snd (sm_exec c m))" by (rule call) simp
  from trace_Cons [OF this Cons.IH] show ?case by (simp add: case_prod_unfold Let_def)
qed (simp add: trace_refl)

subsection \<open>The freshly constructed manager\<close>

definition fresh :: "state_manager \<Rightarrow> bool" where
  "fresh m \<longleftrightarrow> sm_inv m \<and> (\<forall>k. dev m k = new_device_state k) \<and> sm_statistics m = zero_statistics"

lemma fresh_add_config:
  assumes "fresh m" "address_allowed m (dc_address d)"
  shows "fresh (ensure_device (dc_address d)
    (m\<lparr>sm_device_configs := AList.update (canon (dc_address d)) d (sm_device_configs m)\<rparr>))"
    (is "fresh (ensure_device _ ?m)")
proof -
  have allowed: "address_allowed ?m = address_allowed m"
    by (simp add: address_allowed_def [abs_def] house_allowed_def [abs_def] fun_eq_iff cong: list.case_cong)
  have dev: "dev ?m = dev m" "has_dev ?m = has_dev m"
    by (simp_all add: dev_def has_dev_def fun_eq_iff)
  have "sm_inv ?m"
    using assms(1) unfolding fresh_def sm_inv_def dev by (auto simp: dev_ok_def allowed)
  then show ?thesis
    using assms unfolding fresh_def
    by (simp add: sm_inv_ensure_device allowed dev_ensure_device dev)
       (simp add: ensure_device_def Let_def split: option.splits)
qed

lemma fresh_add_configs: "fresh m \<Longrightarrow> fresh (add_configs ds m)"
  by (induction ds arbitrary: m) (simp_all add: fresh_add_config)

lemma fresh_new: "fresh (new_state_manager ds opt hs)"
  unfolding new_state_manager_def
  by (rule fresh_add_configs) (simp add: fresh_def sm_inv_def has_dev_def dev_def)

definition empty_ledger :: ledger where
  "empty_ledger = \<lparr>lg_view = (\<lambda>_. None), lg_changes = 0, lg_discoveries = 0, lg_commands = 0, lg_unknown = 0\<rparr>"

lemma ledger_new: "ledger_of (new_state_manager ds opt hs) = empty_ledger"
  using fresh_new [of ds opt hs]
  by (simp add: fresh_def ledger_of_def empty_ledger_def known_def zero_statistics_def fun_eq_iff)

lemma run_ledger: "ledger_of (snd (sm_run cs (new_state_manager ds opt hs))) =
    fold book (fst (sm_run cs (new_state_manager ds opt hs))) empty_ledger"
  using manager.trace_abs [OF run_trace, of "new_state_manager ds opt hs"] fresh_new [of ds opt hs]
  by (simp add: fresh_def ledger_new)

text \<open>
  C5. Whatever the bridge calls and in whatever order, an observer who starts with nothing and keeps,
  for each address, the last state among the emitted \<^verbatim>\<open>PublishStateAction\<close>s knows exactly the
  \<^verbatim>\<open>current_state\<close> of every device: no state change is kept silent and no other state is published.
\<close>

theorem published_state_is_known:
  "known (snd (sm_run cs (new_state_manager ds opt hs))) =
     lg_view (fold book (fst (sm_run cs (new_state_manager ds opt hs))) empty_ledger)"
  unfolding run_ledger [symmetric] by (simp add: ledger_of_def)

text \<open>
  C23. The statistics are exact over every run: \<^verbatim>\<open>state_changes\<close> is the number of published states
  that differ from the state published before for the address (so a republication after a reconnect
  is not counted and no change is missed), \<^verbatim>\<open>discovery_messages\<close>, \<^verbatim>\<open>commands_sent\<close> and
  \<^verbatim>\<open>unknown_packets\<close> are the numbers of discovery, device command and log actions emitted.
\<close>

theorem statistics_account_actions:
  "let (acts, m) = sm_run cs (new_state_manager ds opt hs); l = fold book acts empty_ledger;
       n = (\<lambda>P. length (filter P acts)) in
   st_state_changes (sm_statistics m) = lg_changes l \<and>
   st_discovery_messages (sm_statistics m) = n (\<lambda>a. \<exists>k. a = PublishDiscoveryAction k) \<and>
   st_commands_sent (sm_statistics m) = n (\<lambda>a. \<exists>k c. a = SendDeviceCommandAction k c) \<and>
   st_unknown_packets (sm_statistics m) = n (\<lambda>a. \<exists>e. a = LogUnknownEventAction e)"
proof -
  have single: "lg_discoveries (book a l) = lg_discoveries l + (if \<exists>k. a = PublishDiscoveryAction k then 1 else 0)"
    "lg_commands (book a l) = lg_commands l + (if \<exists>k c. a = SendDeviceCommandAction k c then 1 else 0)"
    "lg_unknown (book a l) = lg_unknown l + (if \<exists>e. a = LogUnknownEventAction e then 1 else 0)" for a l
    by (cases a; simp)+
  have count: "lg_discoveries (fold book acts l) =
        lg_discoveries l + length (filter (\<lambda>a. \<exists>k. a = PublishDiscoveryAction k) acts)"
    "lg_commands (fold book acts l) =
        lg_commands l + length (filter (\<lambda>a. \<exists>k c. a = SendDeviceCommandAction k c) acts)"
    "lg_unknown (fold book acts l) =
        lg_unknown l + length (filter (\<lambda>a. \<exists>e. a = LogUnknownEventAction e) acts)"
    for acts l
    by (induction acts arbitrary: l) (simp_all add: single)
  have sel: "st_state_changes (sm_statistics m) = lg_changes (ledger_of m)"
    "st_discovery_messages (sm_statistics m) = lg_discoveries (ledger_of m)"
    "st_commands_sent (sm_statistics m) = lg_commands (ledger_of m)"
    "st_unknown_packets (sm_statistics m) = lg_unknown (ledger_of m)" for m
    by (simp_all add: ledger_of_def)
  have zero: "lg_discoveries empty_ledger = 0" "lg_commands empty_ledger = 0" "lg_unknown empty_ledger = 0"
    by (simp_all add: empty_ledger_def)
  show ?thesis
    unfolding case_prod_unfold Let_def sel run_ledger by (simp add: count zero)
qed

text \<open>
  Over every run the manager's invariant holds and every emitted action is permitted: it concerns
  a normalised address of an allowed house code; states are published retained, only for devices that
  have state; commands sent to mochad are ones the device supports; command events of devices without
  state are not retained; the status text agrees with the connection flags.
\<close>

lemma run_safe:
  "let (acts, m) = sm_run cs (new_state_manager ds opt hs) in sm_inv m \<and> list_all (act_ok m) acts"
proof -
  let ?m = "new_state_manager ds opt hs"
  have "sm_inv ?m" using fresh_new by (simp add: fresh_def)
  then show ?thesis
    using manager.trace_inv [OF run_trace, of ?m cs] manager.trace_permitted [OF run_trace, of ?m cs]
    by (simp add: case_prod_unfold)
qed

subsection \<open>A manager at work\<close>

text \<open>
  A manager with a light \<^verbatim>\<open>A1\<close>, a switch \<^verbatim>\<open>A2\<close> and a chime \<^verbatim>\<open>A3\<close> that only allows house \<^verbatim>\<open>A\<close>, after MQTT
  and mochad connected and the light and the switch were turned on.
\<close>

definition demo_device :: "address \<Rightarrow> device_type \<Rightarrow> device_config" where
  "demo_device a t = post_init ((device_config_defaults a a)\<lparr>dc_entity_type := t\<rparr>)"

definition demo_event :: "address \<Rightarrow> command \<Rightarrow> device_event" where
  "demo_event a c = \<lparr>de_timestamp = ''t1'', de_direction = RX, de_transport = RF, de_command = c, de_address = a\<rparr>"

definition demo_house :: "command \<Rightarrow> house_event" where
  "demo_house c = \<lparr>he_timestamp = ''t2'', he_direction = RX, he_transport = PL, he_command = c, he_house = ''A''\<rparr>"

definition demo_fresh :: state_manager where
  "demo_fresh = new_state_manager
     [demo_device ''A1'' LIGHT, demo_device ''A2'' SWITCH, demo_device ''A3'' CHIME] True (Some [''a''])"

definition demo_manager :: state_manager where
  "demo_manager = snd (sm_run
     [MqttConnected, MochadConnected, Apply ''t1'' (Some (DeviceEvent (demo_event ''A1'' BRIGHT))),
      Apply ''t1'' (Some (DeviceEvent (demo_event ''A2'' ON)))] demo_fresh)"

lemma demo_inv: "sm_inv demo_manager" "sm_inv demo_fresh"
proof -
  show "sm_inv demo_fresh" unfolding demo_fresh_def using fresh_new by (simp add: fresh_def)
  from manager.trace_inv [OF run_trace this] show "sm_inv demo_manager" unfolding demo_manager_def .
qed

theorem house_event_effect_witness:
  "fst (apply_house_event (demo_house ALL_LIGHTS_OFF) demo_manager) = [PublishStateAction ''A1'' OFF True]"
proof -
  have h: "house_allowed demo_manager (he_house (demo_house ALL_LIGHTS_OFF))" by code_simp
  have c: "he_command (demo_house ALL_LIGHTS_OFF) \<in> {ALL_UNITS_OFF, ALL_LIGHTS_OFF, ALL_LIGHTS_ON}" by code_simp
  from house_event_effect [OF demo_inv(1) h c] have "fst (apply_house_event (demo_house ALL_LIGHTS_OFF) demo_manager) =
    map (\<lambda>k. PublishStateAction k (house_target (demo_house ALL_LIGHTS_OFF)) True)
     (filter (\<lambda>k. (startswith k (canon (he_house (demo_house ALL_LIGHTS_OFF))) \<and>
         house_affected demo_manager (demo_house ALL_LIGHTS_OFF) k) \<and>
         known demo_manager k \<noteq> Some (house_target (demo_house ALL_LIGHTS_OFF))) (map fst (sm_devices demo_manager)))"
    unfolding case_prod_unfold Let_def by blast
  also have "\<dots> = [PublishStateAction ''A1'' OFF True]" by code_simp
  finally show ?thesis .
qed

theorem device_event_effect_witness:
  "known (snd (apply_device_event (demo_event ''a2'' STATUS_OFF) demo_manager)) =
     (known demo_manager)(''A2'' := Some OFF)"
proof -
  have a: "address_allowed demo_manager (de_address (demo_event ''a2'' STATUS_OFF))" by code_simp
  have "dc_stateful (config_of demo_manager (canon (de_address (demo_event ''a2'' STATUS_OFF)))) \<and>
    de_command (demo_event ''a2'' STATUS_OFF) \<in> STATE_COMMANDS" by code_simp
  moreover have "canon (de_address (demo_event ''a2'' STATUS_OFF)) = ''A2''"
    "authoritative_state (de_command (demo_event ''a2'' STATUS_OFF)) = OFF" by code_simp+
  ultimately show ?thesis
    using device_event_effect [OF demo_inv(1) a] unfolding case_prod_unfold Let_def by metis
qed

theorem status_snapshot_effect_witness:
  "known (snd (apply_status_snapshot ''t3'' \<lparr>ss_devices = [(''A2'', OFF), (''B1'', ON)], ss_completed = True\<rparr> demo_manager)) =
     (known demo_manager)(''A2'' := Some OFF)"
proof -
  have "snapshot_applies demo_manager ''A2''" "\<not> snapshot_applies demo_manager ''B1''"
    "canon ''A2'' = ''A2''" "authoritative_state OFF = OFF" by code_simp+
  then show ?thesis using status_snapshot_effect [OF demo_inv(1)] by simp
qed

theorem mqtt_connect_republishes_witness:
  "fst (sm_mqtt_connect demo_manager) =
     [PublishAvailabilityAction True, PublishStatusAction ''online'' True True True,
      PublishDiscoveryAction ''A1'', PublishStateAction ''A1'' ON True,
      PublishDiscoveryAction ''A2'', PublishStateAction ''A2'' ON True, PublishDiscoveryAction ''A3'']"
proof -
  have "concat (map (announce demo_manager) (map fst (sm_devices demo_manager))) =
     [PublishDiscoveryAction ''A1'', PublishStateAction ''A1'' ON True,
      PublishDiscoveryAction ''A2'', PublishStateAction ''A2'' ON True, PublishDiscoveryAction ''A3'']"
    "sm_mochad_connected demo_manager" by code_simp+
  then show ?thesis
    using mqtt_connect_republishes [OF demo_inv(1)] by (simp add: case_prod_unfold Let_def)
qed

end
