(* ===== verification/DeviceRegistry.thy ===== *)
theory DeviceRegistry
  imports Models
begin

section \<open>Device profiles (\<^verbatim>\<open>device_registry.py\<close>)\<close>

text \<open>
  The table of product profiles and \<^verbatim>\<open>apply_profile\<close>, which replaces the behaviour of a configured
  device by that of a profile.
\<close>

record device_profile =
  dp_profile_id :: string
  dp_model :: string
  dp_description :: string
  dp_entity_type :: device_type
  dp_capabilities :: "device_capability set"
  dp_supported_commands :: "command set"
  dp_stateful :: bool
  dp_repeatable_actions :: "command set"
  dp_all_lights_on_response :: bool
  dp_all_lights_off_response :: bool
  dp_all_units_off_response :: bool
  dp_learned_addressing :: bool
  dp_secondary_channels :: "secondary_channel list"
  dp_exclusive_groups :: "string set"
  dp_operation_mode :: operation_mode
  dp_command_sequences :: "command_sequence list"
  dp_rf_identity :: rf_identity

text \<open>The constructors with the defaults of the data classes.\<close>

definition profile ::
  "string \<Rightarrow> string \<Rightarrow> string \<Rightarrow> device_type \<Rightarrow> device_capability set \<Rightarrow> command set \<Rightarrow> bool \<Rightarrow> device_profile" where
  "profile pid model descr ty caps cmds stateful =
     \<lparr>dp_profile_id = pid, dp_model = model, dp_description = descr, dp_entity_type = ty,
      dp_capabilities = caps, dp_supported_commands = cmds, dp_stateful = stateful,
      dp_repeatable_actions = {}, dp_all_lights_on_response = False,
      dp_all_lights_off_response = False, dp_all_units_off_response = True,
      dp_learned_addressing = False, dp_secondary_channels = [], dp_exclusive_groups = {},
      dp_operation_mode = MODE_CONTINUOUS, dp_command_sequences = [], dp_rf_identity = ID_STANDARD\<rparr>"

definition channel :: "channel_kind \<Rightarrow> int \<Rightarrow> string \<Rightarrow> bool \<Rightarrow> secondary_channel" where
  "channel k off descr enabled =
     \<lparr>sc_kind = k, sc_offset = off, sc_description = descr, sc_enabled_by_default = enabled\<rparr>"

definition sequence :: "string \<Rightarrow> command list \<Rightarrow> command_sequence" where
  "sequence n cs = \<lparr>cs_name = n, cs_commands = cs, cs_repeatable = True, cs_description = []\<rparr>"

definition ON_OFF :: "command set" where "ON_OFF = {ON, OFF}"
definition ON_ONLY :: "command set" where "ON_ONLY = {ON}"
definition LIGHT_COMMANDS :: "command set" where "LIGHT_COMMANDS = {ON, OFF, DIM, BRIGHT}"

text \<open>The table, in two parts: modules and motion sensors, then alarm and transceiver accessories.\<close>

definition MODULE_PROFILES :: "(string \<times> device_profile) list" where
  "MODULE_PROFILES =
    [(''generic_switch'', profile ''generic_switch''
        ''Generic X10 switch or appliance module''
        ''Stateful ON/OFF device with no All Lights response.''
        SWITCH {CAP_ON_OFF} ON_OFF True),
     (''generic_light'', (profile ''generic_light''
        ''Generic X10 light module''
        ''Stateful dimmable light responding to All Lights commands.''
        LIGHT {CAP_ON_OFF, CAP_DIM} LIGHT_COMMANDS True)\<lparr>dp_all_lights_on_response := True,
          dp_all_lights_off_response := True\<rparr>),
     (''lm15a_socket_rocket'', (profile ''lm15a_socket_rocket''
        ''LM15A Socket Rocket''
        ''Learned-address lamp socket; ON/OFF only, no dimming.''
        LIGHT {CAP_ON_OFF} ON_OFF True)\<lparr>dp_all_lights_on_response := True,
          dp_all_lights_off_response := True,
          dp_all_units_off_response := True,
          dp_learned_addressing := True\<rparr>),
     (''um506_momentary'', (profile ''um506_momentary''
        ''UM506 Universal Module, momentary mode''
        ''Momentary contact closure; ON is an action, not state.''
        SWITCH {CAP_ACTION} ON_ONLY False)\<lparr>dp_repeatable_actions := ON_ONLY,
          dp_all_units_off_response := True,
          dp_operation_mode := MODE_MOMENTARY\<rparr>),
     (''um506_continuous'', (profile ''um506_continuous''
        ''UM506 Universal Module, continuous mode''
        ''Continuous contact closure controlled by ON/OFF.''
        SWITCH {CAP_ON_OFF} ON_OFF True)\<lparr>dp_all_lights_on_response := False,
          dp_all_units_off_response := True,
          dp_operation_mode := MODE_CONTINUOUS\<rparr>),
     (''sc546a_chime'', (profile ''sc546a_chime''
        ''SC546A Remote Chime''
        ''Action-only chime; ON triggers sound and no state is retained.''
        CHIME {CAP_ACTION} ON_ONLY False)\<lparr>dp_repeatable_actions := ON_ONLY,
          dp_all_units_off_response := False,
          dp_operation_mode := MODE_ACTION\<rparr>),
     (''ms13a_motion'', (profile ''ms13a_motion''
        ''MS13A EagleEye Motion Sensor''
        ''Standard RF motion address plus base+1 dusk/dawn channel.''
        SWITCH {CAP_ON_OFF} ON_OFF True)\<lparr>dp_secondary_channels := [channel CH_MOTION 0 ''motion on/off'' True, channel CH_DUSK_DAWN 1 ''dusk/dawn on/off'' True],
          dp_operation_mode := MODE_SENSOR\<rparr>),
     (''ms14a_motion'', (profile ''ms14a_motion''
        ''MS14A Motion Sensor''
        ''Standard RF motion address plus base+1 dusk/dawn channel.''
        SWITCH {CAP_ON_OFF} ON_OFF True)\<lparr>dp_secondary_channels := [channel CH_MOTION 0 ''motion on/off'' True, channel CH_DUSK_DAWN 1 ''dusk/dawn on/off'' True],
          dp_operation_mode := MODE_SENSOR\<rparr>),
     (''ms16a_activeeye'', (profile ''ms16a_activeeye''
        ''MS16A ActiveEye Motion Sensor''
        ''Standard RF motion address with optional base+1 dusk/dawn channel.''
        SWITCH {CAP_ON_OFF} ON_OFF True)\<lparr>dp_secondary_channels := [channel CH_MOTION 0 ''motion on/off'' True, channel CH_DUSK_DAWN 1 ''dusk/dawn on/off, controlled by sensor option'' False],
          dp_operation_mode := MODE_SENSOR\<rparr>),
     (''pr511_motion_monitor'', (profile ''pr511_motion_monitor''
        ''PR511 Motion Monitor''
        ''Floodlight with sensor channels at +1..+4 and dusk channels at +5..+8.''
        LIGHT {CAP_ON_OFF} ON_OFF True)\<lparr>dp_secondary_channels := [channel CH_FLOODLIGHT 0 ''local floodlight'' True, channel CH_SENSOR 1 ''sensor 1'' True, channel CH_SENSOR 2 ''sensor 2'' True, channel CH_SENSOR 3 ''sensor 3'' True, channel CH_SENSOR 4 ''sensor 4'' True, channel CH_DUSK_DAWN 5 ''dusk 1'' True, channel CH_DUSK_DAWN 6 ''dusk 2'' True, channel CH_DUSK_DAWN 7 ''dusk 3'' True, channel CH_DUSK_DAWN 8 ''dusk 4'' True]\<rparr>)]"

definition ACCESSORY_PROFILES :: "(string \<times> device_profile) list" where
  "ACCESSORY_PROFILES =
    [(''powerflash_mode_1'', (profile ''powerflash_mode_1''
        ''PowerFlash PF284/PSC01 mode 1''
        ''Compound alarm mode using same-address and same-house responses.''
        SWITCH {CAP_ON_OFF, CAP_ALL_LIGHTS} ON_OFF True)\<lparr>dp_command_sequences := [sequence ''alarm_on'' [ALL_LIGHTS_ON, ON], sequence ''alarm_reset'' [OFF]],
          dp_operation_mode := MODE_ALARM_SEQUENCE\<rparr>),
     (''powerflash_mode_2'', (profile ''powerflash_mode_2''
        ''PowerFlash PF284/PSC01 mode 2''
        ''Compound flashing alarm mode; reset leaves lights on.''
        SWITCH {CAP_ALL_LIGHTS} ON_OFF False)\<lparr>dp_repeatable_actions := ON_OFF,
          dp_command_sequences := [sequence ''flash_alarm'' [ALL_LIGHTS_ON, ALL_LIGHTS_OFF]],
          dp_operation_mode := MODE_ALARM_SEQUENCE\<rparr>),
     (''powerflash_mode_3'', profile ''powerflash_mode_3''
        ''PowerFlash PF284/PSC01 mode 3''
        ''Same-address ON/OFF mode.''
        SWITCH {CAP_ON_OFF} ON_OFF True),
     (''powerhorn'', (profile ''powerhorn''
        ''PowerHorn SH10A/PH508''
        ''Siren triggered by repeated ON/OFF or All Lights/All Units sequences.''
        CHIME {CAP_ACTION, CAP_ALL_LIGHTS} {ON, OFF, DIM, BRIGHT, ALL_LIGHTS_ON, ALL_UNITS_OFF} False)\<lparr>dp_repeatable_actions := {ON, OFF},
          dp_command_sequences := [sequence ''unit_alarm'' [ON, OFF, ON], sequence ''house_alarm'' [ALL_LIGHTS_ON, ALL_UNITS_OFF], sequence ''ding_dong'' [DIM, BRIGHT]],
          dp_all_units_off_response := False,
          dp_operation_mode := MODE_ALARM_SEQUENCE\<rparr>),
     (''rr501_unit_1'', (profile ''rr501_unit_1''
        ''RR501 Transceiver internal outlet, Unit 1''
        ''Selectable internal outlet responds to unit 1 ON/OFF.''
        SWITCH {CAP_ON_OFF} ON_OFF True)\<lparr>dp_secondary_channels := [channel CH_INTERNAL_OUTLET 0 ''selected unit 1'' True],
          dp_exclusive_groups := {''rr501_internal_outlet''}\<rparr>),
     (''rr501_unit_9'', (profile ''rr501_unit_9''
        ''RR501 Transceiver internal outlet, Unit 9''
        ''Selectable internal outlet responds to unit 9 ON/OFF.''
        SWITCH {CAP_ON_OFF} ON_OFF True)\<lparr>dp_secondary_channels := [channel CH_INTERNAL_OUTLET 8 ''selected unit 9'' True],
          dp_exclusive_groups := {''rr501_internal_outlet''}\<rparr>),
     (''grouped_address_function'', (profile ''grouped_address_function''
        ''Grouped X10 address/function sequence''
        ''Multiple accumulated addresses followed by one function.''
        SWITCH {CAP_ON_OFF} ON_OFF True)\<lparr>dp_secondary_channels := [channel CH_GROUPED_ADDRESS 0 ''function applies to accumulated address set'' True]\<rparr>)]"

definition DEVICE_PROFILES :: "(string \<times> device_profile) list" where
  "DEVICE_PROFILES = MODULE_PROFILES @ ACCESSORY_PROFILES"

definition profile_ids :: "string set" where
  "profile_ids = set (map fst DEVICE_PROFILES)"

definition get_profile :: "string \<Rightarrow> device_profile result" where
  "get_profile pid =
     (case map_of DEVICE_PROFILES (lower (strip pid)) of
        Some p \<Rightarrow> Inr p
      | None \<Rightarrow> Inl (ValueError (''Unknown X10 device profile '' @ quoted pid @ ''.'')))"

text \<open>\<^verbatim>\<open>dataclasses.replace\<close> builds a new object, so \<^verbatim>\<open>__post_init__\<close> runs on the result.\<close>

definition apply_profile :: "device_config \<Rightarrow> string \<Rightarrow> device_config result" where
  "apply_profile d pid =
     rbind (get_profile pid) (\<lambda>p. Inr (post_init (d\<lparr>
       dc_profile := Some (dp_profile_id p), dc_entity_type := dp_entity_type p,
       dc_capabilities := dp_capabilities p, dc_supported_commands := dp_supported_commands p,
       dc_stateful := dp_stateful p, dc_repeatable_actions := dp_repeatable_actions p,
       dc_all_lights_on_response := dp_all_lights_on_response p,
       dc_all_lights_off_response := dp_all_lights_off_response p,
       dc_all_units_off_response := dp_all_units_off_response p,
       dc_learned_addressing := dp_learned_addressing p,
       dc_secondary_channels := dp_secondary_channels p,
       dc_exclusive_groups := dp_exclusive_groups p, dc_operation_mode := dp_operation_mode p,
       dc_command_sequences := dp_command_sequences p, dc_rf_identity := dp_rf_identity p\<rparr>)))"

subsection \<open>The table\<close>

text \<open>
  What every profile of the table has: its key as identifier, in the normal form of the lookup; some
  supported command; for a device with state only commands whose state is final, among them \<^verbatim>\<open>ON\<close> and
  \<^verbatim>\<open>OFF\<close>; secondary channels that stay within the sixteen units.
\<close>

definition profile_ok :: "string \<times> device_profile \<Rightarrow> bool" where
  "profile_ok = (\<lambda>(k, p). dp_profile_id p = k \<and> lower (strip k) = k \<and> dp_supported_commands p \<noteq> {} \<and>
     (dp_stateful p \<longrightarrow> {ON, OFF} \<subseteq> dp_supported_commands p \<and>
        dp_supported_commands p \<subseteq> {ON, OFF, DIM, BRIGHT}) \<and>
     (dp_stateful p \<longrightarrow> (DIM \<in> dp_supported_commands p \<longleftrightarrow> CAP_DIM \<in> dp_capabilities p)) \<and>
     dp_repeatable_actions p \<subseteq> dp_supported_commands p \<and>
     list_all (\<lambda>c. 0 \<le> sc_offset c \<and> sc_offset c < 16) (dp_secondary_channels p))"

lemma profiles_ok: "list_all profile_ok DEVICE_PROFILES"
  by code_simp

lemma profiles_distinct: "distinct (map fst DEVICE_PROFILES)"
  by code_simp

lemma profile_lookup_ok: "map_of DEVICE_PROFILES k = Some p \<Longrightarrow> profile_ok (k, p)"
  using profiles_ok by (auto simp: list_all_iff dest: map_of_SomeD)

lemma get_profile_Inr: "get_profile pid = Inr p \<longleftrightarrow> map_of DEVICE_PROFILES (lower (strip pid)) = Some p"
  by (auto simp: get_profile_def split: option.splits)

text \<open>
  Applying a profile succeeds exactly for the names of the table, up to case and surrounding white
  space.  The device keeps its address, name and repeat settings and gets every behaviour field of the
  profile unchanged (\<^verbatim>\<open>__post_init__\<close> never overrides one), and applying the profile it names again
  changes nothing.
\<close>

lemma apply_profile_spec:
  "case apply_profile d pid of
     Inl e \<Rightarrow> is_ValueError e \<and> lower (strip pid) \<notin> profile_ids
   | Inr d' \<Rightarrow> \<exists>p. map_of DEVICE_PROFILES (lower (strip pid)) = Some p \<and>
       dc_address d' = dc_address d \<and> dc_name d' = dc_name d \<and>
       dc_command_repeats d' = dc_command_repeats d \<and>
       dc_command_repeat_delay_ms d' = dc_command_repeat_delay_ms d \<and>
       dc_profile d' = Some (lower (strip pid)) \<and> dc_entity_type d' = dp_entity_type p \<and>
       dc_supported_commands d' = dp_supported_commands p \<and> dc_capabilities d' = dp_capabilities p \<and>
       dc_stateful d' = dp_stateful p \<and> dc_repeatable_actions d' = dp_repeatable_actions p \<and>
       dc_all_lights_on_response d' = dp_all_lights_on_response p \<and>
       dc_all_lights_off_response d' = dp_all_lights_off_response p \<and>
       dc_all_units_off_response d' = dp_all_units_off_response p \<and>
       dc_operation_mode d' = dp_operation_mode p \<and>
       apply_profile d' (lower (strip pid)) = Inr d'"
proof -
  define k where "k = lower (strip pid)"
  have get: "get_profile pid = (case map_of DEVICE_PROFILES k of Some p \<Rightarrow> Inr p
      | None \<Rightarrow> Inl (ValueError (''Unknown X10 device profile '' @ quoted pid @ ''.'')))"
    by (simp add: get_profile_def k_def)
  show ?thesis
  proof (cases "map_of DEVICE_PROFILES k")
    case None
    then have "k \<notin> profile_ids" by (simp add: profile_ids_def map_of_eq_None_iff)
    with None show ?thesis
      unfolding k_def [symmetric] by (simp add: apply_profile_def get)
  next
    case (Some p)
    from profile_lookup_ok [OF this] have ok: "dp_profile_id p = k" "lower (strip k) = k"
      "dp_supported_commands p \<noteq> {}"
      by (auto simp: profile_ok_def)
    have get_k: "get_profile k = Inr p" unfolding get_profile_def ok(2) Some by simp
    have "get_profile pid = Inr p" unfolding get Some by simp
    then show ?thesis
      unfolding k_def [symmetric] by (simp add: apply_profile_def get_k post_init_def ok(1,3) Some)
  qed
qed

end
