(* ===== verification/MochadClient.thy ===== *)
theory MochadClient
  imports Models
begin

section \<open>The mochad TCP client (\<^verbatim>\<open>mochad_client.py\<close>)\<close>

text \<open>
  The transport is a parameter: what \<^verbatim>\<open>recv\<close> does is a list of outcomes, what \<^verbatim>\<open>sendall\<close> and
  \<^verbatim>\<open>create_connection\<close> do is an argument.  A chunk is the decoded text of the received bytes; mochad
  writes ASCII, for which \<^verbatim>\<open>decode("utf-8", errors="replace")\<close> is the identity and does not depend on
  where the chunks are cut.  The callbacks run under \<^verbatim>\<open>try\<close>/\<^verbatim>\<open>except Exception\<close>, so they never end the loop.
\<close>

subsection \<open>Definitions\<close>

definition is_crlf :: "char \<Rightarrow> bool" where
  "is_crlf c \<longleftrightarrow> c = CHR 0x0D \<or> c = CHR 0x0A"

text \<open>\<^verbatim>\<open>while "\n" in buffer: line, buffer = buffer.split("\n", 1)\<close>; the lines and what stays buffered.\<close>

fun drain :: "string \<Rightarrow> string \<Rightarrow> string list \<times> string" where
  "drain line [] = ([], line)"
| "drain line (c # cs) =
     (if c = CHR 0x0A
      then let (ls, rest) = drain [] cs in (strip_by is_crlf line # ls, rest)
      else drain (line @ [c]) cs)"

definition take_lines :: "string \<Rightarrow> string \<Rightarrow> string list \<times> string" where
  "take_lines buffer chunk = drain [] (buffer @ chunk)"

datatype recv =
    Data string
  | Timeout
  | Closed
  | Stopped
  | Failed

datatype mochad_callback =
    OnConnect
  | OnLine string
  | OnDisconnect bool

text \<open>
  The read loop.  \<open>Stopped\<close> is another thread's \<^verbatim>\<open>stop()\<close> or \<^verbatim>\<open>disconnect()\<close>, seen at the head of the
  loop; \<^verbatim>\<open>Failed\<close> an exception other than a timeout.  The result says whether an exception left the
  loop; a list that ends without a reason to leave stands for a loop that still waits.
\<close>

fun read_loop :: "recv list \<Rightarrow> string \<Rightarrow> string list \<times> bool" where
  "read_loop [] buffer = ([], False)"
| "read_loop (Timeout # rs) buffer = read_loop rs buffer"
| "read_loop (Closed # rs) buffer = ([], False)"
| "read_loop (Stopped # rs) buffer = ([], False)"
| "read_loop (Failed # rs) buffer = ([], True)"
| "read_loop (Data chunk # rs) buffer =
     (if chunk = [] then ([], False)
      else let (ls, buffer') = take_lines buffer chunk; (ls', err) = read_loop rs buffer'
           in (ls @ ls', err))"

datatype connect_outcome = Accepted | Refused

text \<open>
  One iteration of \<^verbatim>\<open>_run\<close>: connect, read until the connection ends, disconnect.  \<open>stop_set\<close> is the
  stop flag when \<^verbatim>\<open>connect\<close> looks at it under the lock.
\<close>

fun run_iteration :: "connect_outcome \<Rightarrow> bool \<Rightarrow> recv list \<Rightarrow> mochad_callback list" where
  "run_iteration Refused stop_set rs = [OnDisconnect True]"
| "run_iteration Accepted stop_set rs =
     (if stop_set then [OnDisconnect False]
      else let (ls, err) = read_loop rs [] in OnConnect # map OnLine ls @ [OnDisconnect err])"

text \<open>\<^verbatim>\<open>send_line\<close>: the bytes written, or the exception.  \<open>fault\<close> is what \<^verbatim>\<open>sendall\<close> raises, if it does.\<close>

definition send_line :: "bool \<Rightarrow> exn option \<Rightarrow> string \<Rightarrow> string result" where
  "send_line connected fault l =
     (if \<not> connected then Inl (ConnectionError ''mochad is not connected.'')
      else case fault of Some e \<Rightarrow> Inl e | None \<Rightarrow> Inr (rstrip_by is_crlf l @ [CHR 0x0A]))"

definition request_status :: "bool \<Rightarrow> exn option \<Rightarrow> string result" where
  "request_status connected fault = send_line connected fault ''st''"

subsection \<open>Splitting a stream\<close>

text \<open>
  The contract of a splitter that keeps an incomplete piece between calls: it may be fed in any
  pieces.  It is what the reader relies on, and what makes the lines independent of how TCP cuts the
  stream.
\<close>

locale stream_splitter =
  fixes feed_chunk :: "'b \<Rightarrow> 'c list \<Rightarrow> 'o list \<times> 'b"
    and pending :: "'b \<Rightarrow> bool"
  assumes feed_Nil: "pending b \<Longrightarrow> feed_chunk b [] = ([], b)"
    and feed_append: "feed_chunk b (xs @ ys) =
      (let (os, b') = feed_chunk b xs; (os', b'') = feed_chunk b' ys in (os @ os', b''))"
begin

fun feed_all :: "'b \<Rightarrow> 'c list list \<Rightarrow> 'o list \<times> 'b" where
  "feed_all b [] = ([], b)"
| "feed_all b (xs # xss) =
     (let (os, b') = feed_chunk b xs; (os', b'') = feed_all b' xss in (os @ os', b''))"

lemma feed_all_concat: "pending b \<Longrightarrow> feed_all b xss = feed_chunk b (concat xss)"
proof -
  have "xss \<noteq> [] \<Longrightarrow> feed_all b xss = feed_chunk b (concat xss)" for b
  proof (induction xss arbitrary: b)
    case (Cons xs xss)
    show ?case
    proof (cases "xss = []")
      case True
      then show ?thesis by (simp add: case_prod_unfold)
    next
      case False
      with Cons show ?thesis by (simp add: feed_append)
    qed
  qed simp
  then show "pending b \<Longrightarrow> ?thesis" using feed_Nil by (cases "xss = []") auto
qed

lemma feed_all_rechunk: "pending b \<Longrightarrow> concat xss = concat yss \<Longrightarrow> feed_all b xss = feed_all b yss"
  by (simp add: feed_all_concat)

end

lemma drain_no_newline: "CHR 0x0A \<notin> set s \<Longrightarrow> drain l s = ([], l @ s)"
  by (induction s arbitrary: l) auto

lemma drain_append: "drain l (xs @ ys) =
    (let (ls, rest) = drain l xs; (ls', rest') = drain rest ys in (ls @ ls', rest'))"
proof (induction xs arbitrary: l)
  case (Cons c xs)
  show ?case
  proof (cases "c = CHR 0x0A")
    case True
    with Cons.IH [of "[]"] show ?thesis by (simp add: case_prod_unfold Let_def)
  next
    case False
    with Cons.IH [of "l @ [c]"] show ?thesis by simp
  qed
qed (simp add: case_prod_unfold Let_def)

lemma drain_rest: "CHR 0x0A \<notin> set l \<Longrightarrow> CHR 0x0A \<notin> set (snd (drain l s))"
proof (induction s arbitrary: l)
  case (Cons c s)
  then show ?case
    using Cons.IH [of "[]"] Cons.IH [of "l @ [c]"] by (cases "c = CHR 0x0A") (simp_all add: case_prod_unfold Let_def)
qed simp

lemma drain_prefix: "CHR 0x0A \<notin> set l \<Longrightarrow> drain [] (l @ s) = drain l s"
  by (simp add: drain_append drain_no_newline)

interpretation lines: stream_splitter take_lines "\<lambda>b. CHR 0x0A \<notin> set b"
proof
  fix b :: string
  show "CHR 0x0A \<notin> set b \<Longrightarrow> take_lines b [] = ([], b)"
    by (simp add: take_lines_def drain_no_newline)
  fix xs ys
  have "CHR 0x0A \<notin> set (snd (drain [] (b @ xs)))" by (rule drain_rest) simp
  then show "take_lines b (xs @ ys) =
      (let (os, b') = take_lines b xs; (os', b'') = take_lines b' ys in (os @ os', b''))"
    using drain_append [of "[]" "b @ xs" ys]
    by (simp add: take_lines_def case_prod_unfold Let_def drain_prefix)
qed

text \<open>The data of a prefix of outcomes before the loop is left.\<close>

fun received :: "recv list \<Rightarrow> string list" where
  "received (Data chunk # rs) = (if chunk = [] then [] else chunk # received rs)"
| "received (Timeout # rs) = received rs"
| "received _ = []"

lemma read_loop_received: "fst (read_loop rs buffer) = fst (lines.feed_all buffer (received rs))"
proof (induction rs arbitrary: buffer)
  case (Cons r rs)
  then show ?case by (cases r) (simp_all add: case_prod_unfold Let_def)
qed simp



lemma drain_rendered:
  assumes "\<forall>l \<in> set ls. strip_by is_crlf l = l \<and> CHR 0x0A \<notin> set l"
  shows "drain [] (concat (map (\<lambda>l. l @ [CHR 0x0A]) ls)) = (ls, [])"
  using assms
proof (induction ls)
  case (Cons l ls)
  then show ?case
    using drain_append [of "[]" l "CHR 0x0A # concat (map (\<lambda>l. l @ [CHR 0x0A]) ls)"]
    by (simp add: drain_no_newline)
qed simp



end
