(* ===== verification/MochadThreads.thy ===== *)
theory MochadThreads
  imports "HOL-Library.Multiset" MochadClient
begin

section \<open>The threads of the mochad client (\<^verbatim>\<open>mochad_client.py\<close>)\<close>

text \<open>
  \<^verbatim>\<open>start()\<close> and \<^verbatim>\<open>stop()\<close> run in the thread of the bridge, \<^verbatim>\<open>_run()\<close> in one of its own; they share two
  flags and the socket, which is guarded by a lock.  A step is what one of them does between two points
  at which the other may come in: a test of the flags, a section under the lock, a call of the
  network, a close, a callback.  What the network does is an argument of the step.  Sockets are
  numbered in the order of their creation.  A second \<^verbatim>\<open>start()\<close> is modelled when the thread of the
  first is no longer alive.
\<close>

subsection \<open>State\<close>

text \<open>Where the reading thread is: in \<^verbatim>\<open>_run\<close>, \<^verbatim>\<open>connect\<close>, \<^verbatim>\<open>_read_loop\<close> and \<^verbatim>\<open>disconnect\<close>.\<close>

datatype reader =
    NoThread
  | LoopHead
  | Connecting
  | Connected nat
  | ConnectCallback
  | ReadCheck
  | Reading string
  | Fetching string
  | Receiving string
  | Delivering "string list" string
  | Disconnecting bool
  | Closing nat bool
  | DisconnectCallback bool
  | Waiting
  | Ended

text \<open>Where the thread of the bridge is: the points of \<^verbatim>\<open>stop\<close> that follow a write of a shared variable.\<close>

datatype controller =
    Created
  | Started
  | SetEvent
  | TakeSocket
  | CloseSocket nat
  | Joining
  | StopReturned

record mochad_threads =
  th_running :: bool
  th_stop_event :: bool
  th_socket :: "nat option"
  th_opened :: nat
  th_closed :: "nat list"
  th_callbacks :: "mochad_callback list"
  th_reader :: reader
  th_controller :: controller

definition new_mochad_client :: mochad_threads where
  "new_mochad_client = \<lparr>th_running = False, th_stop_event = False, th_socket = None, th_opened = 0, th_closed = [],
     th_callbacks = [], th_reader = NoThread, th_controller = Created\<rparr>"

definition mc_connected :: "mochad_threads \<Rightarrow> bool" where
  "mc_connected s \<longleftrightarrow> th_socket s \<noteq> None"

definition thread_alive :: "mochad_threads \<Rightarrow> bool" where
  "thread_alive s \<longleftrightarrow> th_reader s \<noteq> NoThread \<and> th_reader s \<noteq> Ended"

subsection \<open>The reading thread\<close>

datatype network = Accept | Refuse | Receive recv | Nothing

definition go :: "reader \<Rightarrow> mochad_threads \<Rightarrow> mochad_threads" where
  "go r s = s\<lparr>th_reader := r\<rparr>"

definition call_back :: "mochad_callback \<Rightarrow> mochad_threads \<Rightarrow> mochad_threads" where
  "call_back c s = s\<lparr>th_callbacks := th_callbacks s @ [c]\<rparr>"

definition close_socket :: "nat \<Rightarrow> mochad_threads \<Rightarrow> mochad_threads" where
  "close_socket k s = s\<lparr>th_closed := th_closed s @ [k]\<rparr>"

definition keep_on :: "mochad_threads \<Rightarrow> bool" where
  "keep_on s \<longleftrightarrow> th_running s \<and> \<not> th_stop_event s"

text \<open>The sections under the lock: in \<^verbatim>\<open>connect\<close>, which looks at the stop event once more, and in \<^verbatim>\<open>disconnect\<close>.\<close>

definition install_socket :: "nat \<Rightarrow> mochad_threads \<Rightarrow> mochad_threads" where
  "install_socket k s =
     (if th_stop_event s then go ReadCheck (close_socket k s)
      else go ConnectCallback (s\<lparr>th_socket := Some k\<rparr>))"

definition detach_socket :: "bool \<Rightarrow> mochad_threads \<Rightarrow> mochad_threads" where
  "detach_socket err s =
     (case th_socket s of
        None \<Rightarrow> go (DisconnectCallback err) s
      | Some k \<Rightarrow> go (Closing k err) (s\<lparr>th_socket := None\<rparr>))"

text \<open>What \<^verbatim>\<open>recv(4096)\<close> gives; the text of a chunk has no more characters than the chunk has bytes.\<close>

fun receive_step :: "recv \<Rightarrow> string \<Rightarrow> mochad_threads \<Rightarrow> mochad_threads option" where
  "receive_step Timeout buffer s = Some (go (Reading buffer) s)"
| "receive_step Closed buffer s = Some (go (Disconnecting False) s)"
| "receive_step Failed buffer s = Some (go (Disconnecting True) s)"
| "receive_step Stopped buffer s = None"
| "receive_step (Data chunk) buffer s =
     (if 4096 < length chunk then None
      else if chunk = [] then Some (go (Disconnecting False) s)
      else let (ls, buffer) = take_lines buffer chunk in Some (go (Delivering ls buffer) s))"

definition reader_step :: "network \<Rightarrow> mochad_threads \<Rightarrow> mochad_threads option" where
  "reader_step n s = (case th_reader s of
     LoopHead \<Rightarrow> Some (go (if keep_on s then Connecting else Ended) s)
   | Connecting \<Rightarrow>
       (case n of
          Accept \<Rightarrow> Some (go (Connected (th_opened s)) (s\<lparr>th_opened := Suc (th_opened s)\<rparr>))
        | Refuse \<Rightarrow> Some (go (Disconnecting True) s)
        | _ \<Rightarrow> None)
   | Connected k \<Rightarrow> Some (install_socket k s)
   | ConnectCallback \<Rightarrow> Some (go ReadCheck (call_back OnConnect s))
   | ReadCheck \<Rightarrow> Some (go (if mc_connected s then Reading [] else Disconnecting False) s)
   | Reading buffer \<Rightarrow> Some (go (if keep_on s then Fetching buffer else Disconnecting False) s)
   | Fetching buffer \<Rightarrow> Some (go (if th_socket s = None then Disconnecting False else Receiving buffer) s)
   | Receiving buffer \<Rightarrow> (case n of Receive r \<Rightarrow> receive_step r buffer s | _ \<Rightarrow> None)
   | Delivering [] buffer \<Rightarrow> Some (go (Reading buffer) s)
   | Delivering (l # ls) buffer \<Rightarrow> Some (go (Delivering ls buffer) (call_back (OnLine l) s))
   | Disconnecting err \<Rightarrow> Some (detach_socket err s)
   | Closing k err \<Rightarrow> Some (go (DisconnectCallback err) (close_socket k s))
   | DisconnectCallback err \<Rightarrow> Some (go Waiting (call_back (OnDisconnect err) s))
   | Waiting \<Rightarrow> Some (go LoopHead s)
   | _ \<Rightarrow> None)"

subsection \<open>The controlling thread\<close>

definition mc_start :: "mochad_threads \<Rightarrow> mochad_threads option" where
  "mc_start s =
     (if th_controller s \<notin> {Created, Started, StopReturned} then None
      else if th_running s then Some s
      else if thread_alive s then None
      else Some (s\<lparr>th_running := True, th_stop_event := False, th_reader := LoopHead, th_controller := Started\<rparr>))"

text \<open>One step of \<^verbatim>\<open>stop()\<close>; the last one, \<^verbatim>\<open>join(timeout=2.0)\<close>, ends with or without the thread.\<close>

definition mc_stop_step :: "mochad_threads \<Rightarrow> mochad_threads option" where
  "mc_stop_step s = (case th_controller s of
     SetEvent \<Rightarrow> Some (s\<lparr>th_stop_event := True, th_controller := TakeSocket\<rparr>)
   | TakeSocket \<Rightarrow>
       Some (case th_socket s of
               None \<Rightarrow> s\<lparr>th_controller := Joining\<rparr>
             | Some k \<Rightarrow> s\<lparr>th_socket := None, th_controller := CloseSocket k\<rparr>)
   | CloseSocket k \<Rightarrow> Some ((close_socket k s)\<lparr>th_controller := Joining\<rparr>)
   | Joining \<Rightarrow> Some (s\<lparr>th_controller := StopReturned\<rparr>)
   | _ \<Rightarrow> Some (s\<lparr>th_running := False, th_controller := SetEvent\<rparr>))"

inductive mc_step :: "mochad_threads \<Rightarrow> mochad_threads \<Rightarrow> bool" where
  Reader: "reader_step n s = Some s' \<Longrightarrow> mc_step s s'"
| Start: "mc_start s = Some s' \<Longrightarrow> mc_step s s'"
| Stop: "mc_stop_step s = Some s' \<Longrightarrow> mc_step s s'"

subsection \<open>Reachable states\<close>

text \<open>What a step relation and a first state have to satisfy for a predicate to hold of every reachable state.\<close>

locale inductive_invariant =
  fixes step :: "'s \<Rightarrow> 's \<Rightarrow> bool" and start :: 's and inv :: "'s \<Rightarrow> bool"
  assumes inv_start: "inv start"
    and inv_step: "step s s' \<Longrightarrow> inv s \<Longrightarrow> inv s'"
begin

lemma inv_reachable: "step\<^sup>*\<^sup>* start s \<Longrightarrow> inv s"
  by (induction rule: rtranclp_induct) (auto intro: inv_start inv_step)

end

text \<open>The sockets a thread has to close: the installed one, and those taken into a local variable.\<close>

definition installed :: "nat option \<Rightarrow> nat list" where
  "installed k = (case k of None \<Rightarrow> [] | Some k \<Rightarrow> [k])"

fun held_by_reader :: "reader \<Rightarrow> nat list" where
  "held_by_reader (Connected k) = [k]"
| "held_by_reader (Closing k err) = [k]"
| "held_by_reader _ = []"

fun held_by_controller :: "controller \<Rightarrow> nat list" where
  "held_by_controller (CloseSocket k) = [k]"
| "held_by_controller _ = []"

definition open_sockets :: "mochad_threads \<Rightarrow> nat list" where
  "open_sockets s = installed (th_socket s) @ held_by_reader (th_reader s) @ held_by_controller (th_controller s)"

text \<open>The points of the reading thread at which no socket is installed.\<close>

fun no_socket_at :: "reader \<Rightarrow> bool" where
  "no_socket_at ConnectCallback = False"
| "no_socket_at ReadCheck = False"
| "no_socket_at (Reading b) = False"
| "no_socket_at (Fetching b) = False"
| "no_socket_at (Receiving b) = False"
| "no_socket_at (Delivering ls b) = False"
| "no_socket_at (Disconnecting e) = False"
| "no_socket_at _ = True"

text \<open>What \<^verbatim>\<open>stop()\<close> has established so far.\<close>

fun stop_progress :: "controller \<Rightarrow> mochad_threads \<Rightarrow> bool" where
  "stop_progress Created s = (\<not> th_running s \<and> th_reader s = NoThread)"
| "stop_progress Started s = (th_running s \<and> \<not> th_stop_event s)"
| "stop_progress SetEvent s = (\<not> th_running s)"
| "stop_progress TakeSocket s = (\<not> th_running s \<and> th_stop_event s)"
| "stop_progress _ s = (\<not> th_running s \<and> th_stop_event s \<and> th_socket s = None)"

definition sockets_inv :: "mochad_threads \<Rightarrow> bool" where
  "sockets_inv s \<longleftrightarrow> mset (th_closed s @ open_sockets s) = mset [0..<th_opened s] \<and>
     (no_socket_at (th_reader s) \<longrightarrow> th_socket s = None) \<and> stop_progress (th_controller s) s"

lemmas step_defs = install_socket_def detach_socket_def go_def call_back_def close_socket_def keep_on_def mc_connected_def

lemma receive_step_sockets:
  assumes "receive_step r buffer s = Some s'" "sockets_inv s" "th_reader s = Receiving buffer"
  shows "sockets_inv s'"
  using assms
  by (cases r)
     (auto simp: sockets_inv_def open_sockets_def step_defs case_prod_unfold Let_def split: if_splits;
      cases "th_controller s"; auto)+

lemma stop_progress_frame:
  "stop_progress c s \<Longrightarrow> th_running s' = th_running s \<Longrightarrow> th_stop_event s' = th_stop_event s \<Longrightarrow>
   th_socket s' = th_socket s \<or> th_socket s' = None \<Longrightarrow> th_reader s \<noteq> NoThread \<Longrightarrow> stop_progress c s'"
  by (cases c) auto

lemma reader_step_sockets:
  assumes "reader_step n s = Some s'" "sockets_inv s"
  shows "sockets_inv s'"
proof (cases "th_reader s")
  case (Connected k)
  show ?thesis
  proof (cases "th_stop_event s")
    case True
    with assms Connected show ?thesis
      by (auto simp: reader_step_def sockets_inv_def open_sockets_def step_defs installed_def intro: stop_progress_frame)
  next
    case False
    with assms(2) Connected have "th_controller s \<in> {Created, Started, SetEvent}"
      by (cases "th_controller s") (auto simp: sockets_inv_def)
    with False assms Connected show ?thesis
      by (auto simp: reader_step_def sockets_inv_def open_sockets_def step_defs installed_def)
  qed
next
  case (Receiving buffer)
  with assms show ?thesis by (auto simp: reader_step_def intro: receive_step_sockets split: network.splits)
next
  case (Delivering ls buffer)
  with assms show ?thesis
    by (cases ls) (auto simp: reader_step_def sockets_inv_def open_sockets_def step_defs intro: stop_progress_frame)
qed (use assms in \<open>auto simp: reader_step_def sockets_inv_def open_sockets_def step_defs installed_def atLeast0_lessThan_Suc
       intro: stop_progress_frame split: network.splits option.splits if_splits\<close>)

lemma mc_start_sockets: "mc_start s = Some s' \<Longrightarrow> sockets_inv s \<Longrightarrow> sockets_inv s'"
  by (auto simp: mc_start_def thread_alive_def sockets_inv_def open_sockets_def split: if_splits)

lemma mc_stop_sockets: "mc_stop_step s = Some s' \<Longrightarrow> sockets_inv s \<Longrightarrow> sockets_inv s'"
  by (cases "th_controller s")
     (auto simp: mc_stop_step_def sockets_inv_def open_sockets_def step_defs installed_def split: option.splits)

interpretation sockets: inductive_invariant mc_step new_mochad_client sockets_inv
proof
  show "sockets_inv new_mochad_client"
    by (simp add: new_mochad_client_def sockets_inv_def open_sockets_def installed_def)
  show "mc_step s s' \<Longrightarrow> sockets_inv s \<Longrightarrow> sockets_inv s'" for s s'
    by (erule mc_step.cases) (blast intro: reader_step_sockets mc_start_sockets mc_stop_sockets)+
qed


text \<open>A schedule: which thread moves next, and what the network does then.\<close>

datatype turn = ReaderTurn network | StartTurn | StopTurn

fun take_turn :: "turn \<Rightarrow> mochad_threads \<Rightarrow> mochad_threads option" where
  "take_turn (ReaderTurn n) s = reader_step n s"
| "take_turn StartTurn s = mc_start s"
| "take_turn StopTurn s = mc_stop_step s"

fun take_turns :: "turn list \<Rightarrow> mochad_threads \<Rightarrow> mochad_threads option" where
  "take_turns [] s = Some s"
| "take_turns (t # ts) s = (case take_turn t s of None \<Rightarrow> None | Some s' \<Rightarrow> take_turns ts s')"

lemma take_turn_step: "take_turn t s = Some s' \<Longrightarrow> mc_step s s'"
  by (cases t) (auto intro: mc_step.intros)

lemma take_turns_steps: "take_turns ts s = Some s' \<Longrightarrow> mc_step\<^sup>*\<^sup>* s s'"
proof (induction ts arbitrary: s)
  case (Cons t ts)
  then obtain s1 where "take_turn t s = Some s1" "take_turns ts s1 = Some s'" by (auto split: option.splits)
  with Cons.IH show ?case by (meson converse_rtranclp_into_rtranclp take_turn_step)
qed simp

text \<open>\<^verbatim>\<open>stop()\<close> comes in while the connection is being made.\<close>

definition late_connection :: "turn list" where
  "late_connection = [StartTurn, ReaderTurn Nothing, StopTurn, StopTurn, ReaderTurn Accept, StopTurn] @
     replicate 6 (ReaderTurn Nothing) @ [StopTurn]"


subsection \<open>The callbacks\<close>

definition iteration :: "mochad_callback list \<Rightarrow> bool" where
  "iteration cs \<longleftrightarrow> (\<exists>outcome stopped rs. cs = run_iteration outcome stopped rs)"

text \<open>The callbacks of an iteration up to a point of the read loop.\<close>

definition read_so_far :: "mochad_callback list \<Rightarrow> string \<Rightarrow> bool" where
  "read_so_far cs buffer \<longleftrightarrow> (\<exists>chunks ls. [] \<notin> set chunks \<and> lines.feed_all [] chunks = (ls, buffer) \<and>
     cs = OnConnect # map OnLine ls)"

fun in_progress :: "reader \<Rightarrow> mochad_callback list \<Rightarrow> bool" where
  "in_progress ReadCheck cs = (cs = [] \<or> cs = [OnConnect])"
| "in_progress (Reading buffer) cs = read_so_far cs buffer"
| "in_progress (Fetching buffer) cs = read_so_far cs buffer"
| "in_progress (Receiving buffer) cs = read_so_far cs buffer"
| "in_progress (Delivering ls buffer) cs = read_so_far (cs @ map OnLine ls) buffer"
| "in_progress (Disconnecting err) cs = iteration (cs @ [OnDisconnect err])"
| "in_progress (Closing k err) cs = iteration (cs @ [OnDisconnect err])"
| "in_progress (DisconnectCallback err) cs = iteration (cs @ [OnDisconnect err])"
| "in_progress _ cs = (cs = [])"

definition callbacks_inv :: "mochad_threads \<Rightarrow> bool" where
  "callbacks_inv s \<longleftrightarrow>
     (\<exists>its cs. th_callbacks s = concat its @ cs \<and> list_all iteration its \<and> in_progress (th_reader s) cs \<and>
        (th_reader s = ReadCheck \<and> mc_connected s \<longrightarrow> cs \<noteq> []))"

lemma received_data: "[] \<notin> set chunks \<Longrightarrow> received (map Data chunks @ [r]) = chunks @ received [r]"
  by (induction chunks) auto

lemma read_loop_data: "[] \<notin> set chunks \<Longrightarrow> snd (read_loop (map Data chunks @ [r]) b) = snd (read_loop [r] (snd (lines.feed_all b chunks)))"
  by (induction chunks arbitrary: b) (auto simp: case_prod_unfold Let_def)

lemma read_so_far_ends:
  assumes "read_so_far cs buffer"
  shows "iteration (cs @ [OnDisconnect err])"
proof -
  from assms obtain chunks ls where c: "[] \<notin> set chunks" "lines.feed_all [] chunks = (ls, buffer)" "cs = OnConnect # map OnLine ls"
    by (auto simp: read_so_far_def)
  define r where "r = (if err then Failed else Closed)"
  have "received [r] = []" "snd (read_loop [r] buffer) = err" by (simp_all add: r_def)
  then have "fst (read_loop (map Data chunks @ [r]) []) = ls" "snd (read_loop (map Data chunks @ [r]) []) = err"
    using received_data [OF c(1), of r] read_loop_data [OF c(1), of r "[]"] c(2) by (simp_all add: read_loop_received)
  then have "run_iteration Accepted False (map Data chunks @ [r]) = cs @ [OnDisconnect err]"
    by (simp add: c(3) case_prod_unfold Let_def)
  then show ?thesis unfolding iteration_def by metis
qed

lemma read_so_far_more:
  assumes "read_so_far cs buffer" "take_lines buffer chunk = (ls, buffer')" "chunk \<noteq> []"
  shows "read_so_far (cs @ map OnLine ls) buffer'"
proof -
  from assms(1) obtain chunks ls0 where c: "[] \<notin> set chunks" "lines.feed_all [] chunks = (ls0, buffer)" "cs = OnConnect # map OnLine ls0"
    by (auto simp: read_so_far_def)
  have "lines.feed_all b (xss @ [x]) = (let (os, b1) = lines.feed_all b xss; (os', b2) = take_lines b1 x in (os @ os', b2))" for b xss x
    by (induction xss arbitrary: b) (auto simp: case_prod_unfold Let_def)
  then have "lines.feed_all [] (chunks @ [chunk]) = (ls0 @ ls, buffer')" by (simp add: c(2) assms(2))
  moreover have "[] \<notin> set (chunks @ [chunk])" using c(1) assms(3) by simp
  ultimately show ?thesis unfolding read_so_far_def c(3) by (intro exI [of _ "chunks @ [chunk]"] exI [of _ "ls0 @ ls"]) simp
qed

lemma read_so_far_start: "read_so_far [OnConnect] []"
  unfolding read_so_far_def by (intro exI [of _ "[]"]) simp

lemma short_iterations:
  "iteration [OnDisconnect err]" "iteration [OnConnect, OnDisconnect False]"
proof -
  have "[OnDisconnect err] = run_iteration (if err then Refused else Accepted) True []" by simp
  then show "iteration [OnDisconnect err]" unfolding iteration_def by (intro exI)
  have "[OnConnect, OnDisconnect False] = run_iteration Accepted False []" by simp
  then show "iteration [OnConnect, OnDisconnect False]" unfolding iteration_def by (intro exI)
qed

text \<open>A step of the reading thread on the callbacks of the current iteration.\<close>

lemma callbacks_invI:
  assumes "th_callbacks s = concat its @ cs" "list_all iteration its" "in_progress (th_reader s) cs"
    and "th_reader s = ReadCheck \<Longrightarrow> mc_connected s \<Longrightarrow> cs \<noteq> []"
  shows "callbacks_inv s"
  using assms unfolding callbacks_inv_def by blast

lemma receive_step_callbacks:
  assumes "receive_step r buffer s = Some s'" "th_callbacks s = concat its @ cs" "list_all iteration its" "read_so_far cs buffer"
  shows "callbacks_inv s'"
  using assms
  by (cases r)
     (auto simp: step_defs case_prod_unfold Let_def read_so_far_ends split: if_splits
        intro!: callbacks_invI [of _ its cs] read_so_far_more)

lemma reader_step_callbacks:
  assumes "reader_step n s = Some s'" "sockets_inv s" "callbacks_inv s"
  shows "callbacks_inv s'"
proof -
  obtain its cs where c: "th_callbacks s = concat its @ cs" "list_all iteration its" "in_progress (th_reader s) cs"
      "th_reader s = ReadCheck \<Longrightarrow> mc_connected s \<Longrightarrow> cs \<noteq> []"
    using assms(3) unfolding callbacks_inv_def by blast
  show ?thesis
  proof (cases "th_reader s")
    case (Receiving buffer)
    with assms(1) c show ?thesis
      by (auto simp: reader_step_def intro: receive_step_callbacks split: network.splits)
  next
    case (Delivering ls buffer)
    show ?thesis
    proof (cases ls)
      case Nil
      with assms(1) c Delivering show ?thesis
        by (auto simp: reader_step_def step_defs intro!: callbacks_invI [of _ its cs])
    next
      case (Cons l ls')
      with assms(1) c Delivering show ?thesis
        by (auto simp: reader_step_def step_defs intro!: callbacks_invI [of _ its "cs @ [OnLine l]"])
    qed
  next
    case ConnectCallback
    with assms(1) c show ?thesis
      by (auto simp: reader_step_def step_defs intro!: callbacks_invI [of _ its "[OnConnect]"])
  next
    case (DisconnectCallback err)
    with assms(1) c show ?thesis
      by (auto simp: reader_step_def step_defs intro!: callbacks_invI [of _ "its @ [cs @ [OnDisconnect err]]" "[]"])
  next
    case ReadCheck
    with assms(1) c show ?thesis
      by (auto simp: reader_step_def step_defs read_so_far_start short_iterations intro!: callbacks_invI [of _ its cs])
  next
    case (Connected k)
    with assms(2) have "th_socket s = None" by (simp add: sockets_inv_def)
    with assms(1) c Connected show ?thesis
      by (cases "th_stop_event s") (auto simp: reader_step_def step_defs intro!: callbacks_invI [of _ its cs])
  qed (use assms(1) c in \<open>auto simp: reader_step_def step_defs read_so_far_ends short_iterations
         intro!: callbacks_invI [of _ its cs] split: network.splits option.splits if_splits\<close>)
qed

lemma mc_start_callbacks: "mc_start s = Some s' \<Longrightarrow> callbacks_inv s \<Longrightarrow> callbacks_inv s'"
  by (auto simp: mc_start_def thread_alive_def callbacks_inv_def split: if_splits)

lemma callbacks_frame:
  assumes "callbacks_inv s" "th_callbacks s' = th_callbacks s" "th_reader s' = th_reader s" "mc_connected s' \<Longrightarrow> mc_connected s"
  shows "callbacks_inv s'"
  using assms unfolding callbacks_inv_def by auto

lemma mc_stop_callbacks: "mc_stop_step s = Some s' \<Longrightarrow> callbacks_inv s \<Longrightarrow> callbacks_inv s'"
  by (erule callbacks_frame; cases "th_controller s"; cases "th_socket s")
     (auto simp: mc_stop_step_def step_defs)

interpretation callbacks: inductive_invariant mc_step new_mochad_client "\<lambda>s. sockets_inv s \<and> callbacks_inv s"
proof
  have "callbacks_inv new_mochad_client" by (intro callbacks_invI [of _ "[]" "[]"]) (simp_all add: new_mochad_client_def)
  with sockets.inv_start show "sockets_inv new_mochad_client \<and> callbacks_inv new_mochad_client" ..
  show "sockets_inv s' \<and> callbacks_inv s'" if "mc_step s s'" "sockets_inv s \<and> callbacks_inv s" for s s'
    using that sockets.inv_step
    by (metis mc_start_callbacks mc_step.cases mc_stop_callbacks reader_step_callbacks)
qed

lemma in_progress_prefix:
  assumes "in_progress r cs"
  shows "\<exists>rest. iteration (cs @ rest)"
proof -
  have "cs = [] \<or> cs = [OnConnect] \<or> (\<exists>ls buffer. read_so_far (cs @ map OnLine ls) buffer) \<or>
      (\<exists>err. iteration (cs @ [OnDisconnect err]))"
    using assms read_so_far_ends [of cs] by (cases r) auto
  then show ?thesis
  proof (elim disjE exE)
    show ?thesis if "cs = []" using short_iterations(1) that by auto
    show ?thesis if "cs = [OnConnect]" using short_iterations(2) that by (intro exI [of _ "[OnDisconnect False]"]) simp
    show ?thesis if "read_so_far (cs @ map OnLine ls) buffer" for ls buffer
      using read_so_far_ends [OF that, of False] by (intro exI [of _ "map OnLine ls @ [OnDisconnect False]"]) simp
  qed blast
qed

text \<open>
  C12.  The interleaved threads refine the sequential iterations of \<open>run_iteration\<close>: at any moment
  the callbacks made so far are those of complete iterations, followed by a beginning of one more; when
  the thread has ended or is about to connect, by nothing.  So the bridge is told of a connection before
  its lines and of exactly one disconnection after them, also when \<^verbatim>\<open>stop()\<close> takes the socket away.
\<close>

theorem mochad_callbacks_refine:
  assumes "mc_step\<^sup>*\<^sup>* new_mochad_client s"
  shows "\<exists>its cs rest. th_callbacks s = concat its @ cs \<and>
     (\<forall>it \<in> set its. \<exists>outcome stopped rs. it = run_iteration outcome stopped rs) \<and>
     (\<exists>outcome stopped rs. cs @ rest = run_iteration outcome stopped rs) \<and>
     (th_reader s \<in> {NoThread, Ended, LoopHead, Connecting, Waiting} \<longrightarrow> cs = [])"
proof -
  have "callbacks_inv s" using callbacks.inv_reachable [OF assms] ..
  then obtain its cs where c: "th_callbacks s = concat its @ cs" "list_all iteration its" "in_progress (th_reader s) cs"
    unfolding callbacks_inv_def by blast
  have "\<exists>rest. iteration (cs @ rest)" by (rule in_progress_prefix [OF c(3)])
  moreover have "th_reader s \<in> {NoThread, Ended, LoopHead, Connecting, Waiting} \<longrightarrow> cs = []" using c(3) by auto
  ultimately show ?thesis using c(1,2) unfolding iteration_def list_all_iff by blast
qed

theorem mochad_callbacks_refine_witness:
  "\<exists>s its cs. take_turns late_connection new_mochad_client = Some s \<and> th_callbacks s = concat its @ cs \<and> cs = [] \<and>
     (\<forall>it \<in> set its. \<exists>outcome stopped rs. it = run_iteration outcome stopped rs) \<and> th_callbacks s = [OnDisconnect False]"
proof -
  let ?r = "take_turns late_connection new_mochad_client"
  have "?r \<noteq> None" "th_reader (the ?r) = Ended \<and> th_callbacks (the ?r) = [OnDisconnect False]" by code_simp+
  then obtain s where s: "?r = Some s" "th_reader s = Ended" "th_callbacks s = [OnDisconnect False]" by auto
  from mochad_callbacks_refine [OF take_turns_steps [OF s(1)]] s show ?thesis by blast
qed

subsection \<open>The thread ends\<close>

text \<open>How many steps the reading thread can still make once the stop event is set.\<close>

fun rank :: "reader \<Rightarrow> nat" where
  "rank LoopHead = 1"
| "rank Waiting = 2"
| "rank (DisconnectCallback err) = 3"
| "rank (Closing k err) = 4"
| "rank (Disconnecting err) = 5"
| "rank (Reading buffer) = 6"
| "rank (Delivering ls buffer) = 7 + length ls"
| "rank (Receiving buffer) = 4104"
| "rank (Fetching buffer) = 4105"
| "rank ReadCheck = 7"
| "rank ConnectCallback = 8"
| "rank (Connected k) = 9"
| "rank Connecting = 10"
| "rank _ = 0"

text \<open>Between two reads the buffer has no line break, so that a chunk has at least as many characters as lines.\<close>

fun buffer_ok :: "reader \<Rightarrow> bool" where
  "buffer_ok (Reading buffer) = (CHR 0x0A \<notin> set buffer)"
| "buffer_ok (Fetching buffer) = (CHR 0x0A \<notin> set buffer)"
| "buffer_ok (Receiving buffer) = (CHR 0x0A \<notin> set buffer)"
| "buffer_ok (Delivering ls buffer) = (CHR 0x0A \<notin> set buffer \<and> length ls \<le> 4096)"
| "buffer_ok _ = True"

lemma drain_length: "length (fst (drain l s)) \<le> length s"
proof (induction s arbitrary: l)
  case (Cons c s)
  then show ?case by (auto simp: case_prod_unfold Let_def intro: le_SucI)
qed simp

lemma take_lines_bounds:
  assumes "CHR 0x0A \<notin> set buffer"
  shows "length (fst (take_lines buffer chunk)) \<le> length chunk" "CHR 0x0A \<notin> set (snd (take_lines buffer chunk))"
proof -
  show "length (fst (take_lines buffer chunk)) \<le> length chunk"
    unfolding take_lines_def drain_prefix [OF assms] by (rule drain_length)
  show "CHR 0x0A \<notin> set (snd (take_lines buffer chunk))" unfolding take_lines_def by (rule drain_rest) simp
qed

lemma receive_step_rank:
  assumes "receive_step r buffer s = Some s'" "CHR 0x0A \<notin> set buffer"
  shows "buffer_ok (th_reader s') \<and> rank (th_reader s') < 4104"
proof (cases r)
  case (Data chunk)
  with assms take_lines_bounds [OF assms(2), of chunk] show ?thesis
    by (auto simp: step_defs case_prod_unfold Let_def split: if_splits)
qed (use assms in \<open>auto simp: step_defs\<close>)

lemma reader_step_buffer: "reader_step n s = Some s' \<Longrightarrow> buffer_ok (th_reader s) \<Longrightarrow> buffer_ok (th_reader s')"
  by (cases "th_reader s")
     (auto simp: reader_step_def step_defs dest: receive_step_rank split: network.splits option.splits if_splits list.splits)

lemma reader_step_rank:
  "reader_step n s = Some s' \<Longrightarrow> buffer_ok (th_reader s) \<Longrightarrow> th_stop_event s \<Longrightarrow> rank (th_reader s') < rank (th_reader s)"
  by (cases "th_reader s")
     (auto simp: reader_step_def step_defs dest: receive_step_rank split: network.splits option.splits if_splits list.splits)

interpretation buffers: inductive_invariant mc_step new_mochad_client "\<lambda>s. buffer_ok (th_reader s)"
proof
  show "buffer_ok (th_reader new_mochad_client)" by (simp add: new_mochad_client_def)
  have start: "mc_start s = Some s' \<Longrightarrow> buffer_ok (th_reader s) \<Longrightarrow> buffer_ok (th_reader s')" for s s'
    by (auto simp: mc_start_def split: if_splits)
  have stop: "mc_stop_step s = Some s' \<Longrightarrow> buffer_ok (th_reader s) \<Longrightarrow> buffer_ok (th_reader s')" for s s'
    by (cases "th_controller s") (auto simp: mc_stop_step_def step_defs split: option.splits)
  show "mc_step s s' \<Longrightarrow> buffer_ok (th_reader s) \<Longrightarrow> buffer_ok (th_reader s')" for s s'
    by (erule mc_step.cases) (blast intro: reader_step_buffer start stop)+
qed

fun reader_turn :: "turn \<Rightarrow> bool" where
  "reader_turn (ReaderTurn n) = True"
| "reader_turn _ = False"

lemma reader_step_flags:
  assumes "reader_step n s = Some s'"
  shows "th_stop_event s' = th_stop_event s"
proof (cases "th_reader s")
  case (Receiving buffer)
  have "th_stop_event s1 = th_stop_event s" if "receive_step r buffer s = Some s1" for r s1
    using that by (cases r) (auto simp: step_defs case_prod_unfold Let_def split: if_splits)
  with assms Receiving show ?thesis by (auto simp: reader_step_def split: network.splits)
qed (use assms in \<open>auto simp: reader_step_def step_defs split: network.splits option.splits if_splits list.splits\<close>)

lemma turn_rank:
  assumes "take_turn t s = Some s'" "t \<noteq> StartTurn" "th_stop_event s" "buffer_ok (th_reader s)"
  shows "th_stop_event s' \<and> buffer_ok (th_reader s') \<and>
    rank (th_reader s') + (if reader_turn t then 1 else 0) \<le> rank (th_reader s)"
proof (cases t)
  case (ReaderTurn n)
  with assms have step: "reader_step n s = Some s'" by simp
  show ?thesis
    using reader_step_flags [OF step] reader_step_buffer [OF step assms(4)] reader_step_rank [OF step assms(4,3)] assms(3) ReaderTurn
    by simp
next
  case StopTurn
  with assms show ?thesis
    by (cases "th_controller s") (auto simp: mc_stop_step_def step_defs split: option.splits)
qed (use assms(2) in simp)

lemma turns_rank:
  "take_turns ts s = Some s' \<Longrightarrow> StartTurn \<notin> set ts \<Longrightarrow> th_stop_event s \<Longrightarrow> buffer_ok (th_reader s) \<Longrightarrow>
   rank (th_reader s') + length (filter reader_turn ts) \<le> rank (th_reader s)"
proof (induction ts arbitrary: s)
  case (Cons t ts)
  then obtain s1 where s1: "take_turn t s = Some s1" "take_turns ts s1 = Some s'" by (auto split: option.splits)
  have "th_stop_event s1 \<and> buffer_ok (th_reader s1) \<and>
      rank (th_reader s1) + (if reader_turn t then 1 else 0) \<le> rank (th_reader s)"
    using Cons.prems by (intro turn_rank [OF s1(1)]) auto
  with Cons.IH [OF s1(2)] Cons.prems(2) show ?case by auto
qed simp

lemma reader_not_stuck: "thread_alive s \<Longrightarrow> \<exists>n. reader_step n s \<noteq> None"
proof (cases "th_reader s")
  case Connecting
  then show ?thesis by (intro exI [of _ Accept]) (simp add: reader_step_def)
next
  case (Receiving buffer)
  then show ?thesis by (intro exI [of _ "Receive Timeout"]) (simp add: reader_step_def)
qed (auto simp: reader_step_def thread_alive_def split: list.splits)

text \<open>
  C11.  The reading thread ends: once the stop event is set, whatever the network does and however \<^verbatim>\<open>stop()\<close>
  interleaves, the thread makes at most 4105 more steps before the next start (most of them callbacks
  for the lines of a chunk it had already received), and as long as it lives it is not stuck:
  it waits for the network only, whose calls have timeouts, never for the other thread.
\<close>

theorem mochad_thread_ends:
  assumes "mc_step\<^sup>*\<^sup>* new_mochad_client s" "th_stop_event s"
    and "take_turns ts s = Some s'" "StartTurn \<notin> set ts"
  shows "length (filter reader_turn ts) \<le> 4105 \<and> (thread_alive s' \<longrightarrow> (\<exists>n. reader_step n s' \<noteq> None))"
proof -
  have ok: "buffer_ok (th_reader s)" using assms(1) by (rule buffers.inv_reachable)
  then have "rank (th_reader s) \<le> 4105" by (cases "th_reader s") auto
  with turns_rank [OF assms(3,4,2) ok] show ?thesis using reader_not_stuck by auto
qed

theorem mochad_thread_ends_witness:
  "\<exists>s. take_turns (take 4 late_connection) new_mochad_client = Some s \<and> thread_alive s \<and>
     take_turns (drop 4 late_connection) s \<noteq> None \<and> length (filter reader_turn (drop 4 late_connection)) \<le> 4105 \<and>
     \<not> thread_alive (the (take_turns (drop 4 late_connection) s))"
proof -
  let ?r = "take_turns (take 4 late_connection) new_mochad_client"
  have "?r \<noteq> None" "thread_alive (the ?r) \<and> th_stop_event (the ?r) \<and> take_turns (drop 4 late_connection) (the ?r) \<noteq> None \<and>
      \<not> thread_alive (the (take_turns (drop 4 late_connection) (the ?r)))"
    by code_simp+
  then obtain s where s: "?r = Some s" "thread_alive s" "th_stop_event s" "take_turns (drop 4 late_connection) s \<noteq> None"
    "\<not> thread_alive (the (take_turns (drop 4 late_connection) s))" by auto
  moreover have "StartTurn \<notin> set (drop 4 late_connection)" by code_simp
  moreover obtain s' where "take_turns (drop 4 late_connection) s = Some s'" using s(4) by blast
  ultimately show ?thesis using mochad_thread_ends [OF take_turns_steps [OF s(1)] s(3)] by blast
qed

end
