(* ===== verification/Topics.thy ===== *)
theory Topics
  imports Validation
begin

section \<open>MQTT topics (\<^verbatim>\<open>topics.py\<close>)\<close>

text \<open>
  The builders and parsers of topic strings.  A builder returns a topic or a \<^verbatim>\<open>TopicError\<close>; the
  segments are checked in the order in which the list of \<^verbatim>\<open>"/".join([...])\<close> is evaluated.  Where the
  source accepts a device or its address, the model takes the address.
\<close>

subsection \<open>Definitions\<close>

definition is_slash :: "char \<Rightarrow> bool" where
  "is_slash c \<longleftrightarrow> c = CHR ''/''"

definition clean_segment :: "string \<Rightarrow> string result" where
  "clean_segment v =
     (let value = strip_by is_slash (strip v) in
      if value = [] then Inl (TopicError ''MQTT topic segment cannot be empty.'')
      else if CHR ''#'' \<in> set value \<or> CHR ''+'' \<in> set value
      then Inl (TopicError (''MQTT topic segment '' @ quoted value @ '' cannot contain wildcards.''))
      else Inr value)"

definition TOPIC_ADDRESS_RE :: rx where
  "TOPIC_ADDRESS_RE = Cat (Cls (chr_range CHR ''A'' CHR ''P'')) unit_rx"

definition topic_address :: "string \<Rightarrow> string result" where
  "topic_address a =
     (let address = canon a in
      if re_fullmatch TOPIC_ADDRESS_RE address = None
      then Inl (TopicError (''Invalid X10 device address '' @ quoted address @ ''.''))
      else Inr address)"

definition topic_join :: "string list \<Rightarrow> string" where
  "topic_join = join ''/''"

definition device_topic :: "string \<Rightarrow> string \<Rightarrow> string \<Rightarrow> string result" where
  "device_topic a sfx base =
     rbind (clean_segment base) (\<lambda>b. rbind (topic_address a) (\<lambda>d. rbind (clean_segment sfx) (\<lambda>x.
       Inr (topic_join [b, d, x]))))"

definition bridge_topic :: "string \<Rightarrow> string \<Rightarrow> string result" where
  "bridge_topic sfx base =
     rbind (clean_segment base) (\<lambda>b. rbind (clean_segment sfx) (\<lambda>x.
       Inr (topic_join [b, ''bridge'', x])))"

definition topic_state :: "string \<Rightarrow> string \<Rightarrow> string result" where
  "topic_state a base = device_topic a ''state'' base"

definition topic_command :: "string \<Rightarrow> string \<Rightarrow> string result" where
  "topic_command a base = device_topic a ''command'' base"

definition topic_event :: "string \<Rightarrow> string \<Rightarrow> string result" where
  "topic_event a base = device_topic a ''event'' base"

definition topic_attributes :: "string \<Rightarrow> string \<Rightarrow> string result" where
  "topic_attributes a base = device_topic a ''attributes'' base"

definition topic_availability :: "string \<Rightarrow> string result" where
  "topic_availability base = bridge_topic ''availability'' base"

definition topic_status :: "string \<Rightarrow> string result" where
  "topic_status base = bridge_topic ''status'' base"

definition topic_bridge_response :: "string \<Rightarrow> string result" where
  "topic_bridge_response base = bridge_topic ''response'' base"

definition topic_bridge_command :: "string \<Rightarrow> string result" where
  "topic_bridge_command base =
     rbind (clean_segment base) (\<lambda>b. Inr (topic_join [b, ''bridge'', ''command'']))"

definition topic_bridge_command_filter :: "string \<Rightarrow> string result" where
  "topic_bridge_command_filter base =
     rbind (clean_segment base) (\<lambda>b. Inr (topic_join [b, ''bridge'', ''command'']))"

definition topic_command_filter :: "string \<Rightarrow> string result" where
  "topic_command_filter base =
     rbind (clean_segment base) (\<lambda>b. Inr (topic_join [b, ''+'', ''command'']))"

fun entity_type_segment :: "device_type \<Rightarrow> string" where
  "entity_type_segment LIGHT = ''light''"
| "entity_type_segment SWITCH = ''switch''"
| "entity_type_segment CHIME = ''button''"

definition topic_unique_id :: "string \<Rightarrow> string result" where
  "topic_unique_id a = rbind (topic_address a) (\<lambda>d. Inr (''x10_'' @ d))"

definition topic_discovery :: "device_config \<Rightarrow> string \<Rightarrow> string result" where
  "topic_discovery d pre =
     rbind (clean_segment pre) (\<lambda>p. rbind (topic_unique_id (dc_address d)) (\<lambda>u.
       Inr (topic_join [p, entity_type_segment (dc_entity_type d), u, ''config''])))"

definition topic_bridge_discovery :: "string \<Rightarrow> string \<Rightarrow> string \<Rightarrow> string result" where
  "topic_bridge_discovery component object_id pre =
     rbind (clean_segment pre) (\<lambda>p. rbind (clean_segment component) (\<lambda>c. rbind (clean_segment object_id) (\<lambda>oid.
       Inr (topic_join [p, c, oid, ''config'']))))"

definition topic_parts :: "string \<Rightarrow> string list" where
  "topic_parts t = split_on CHR ''/'' (strip_by is_slash t)"

definition parse_command_topic :: "string \<Rightarrow> string \<Rightarrow> string result" where
  "parse_command_topic t base =
     rbind (clean_segment base) (\<lambda>b.
       case topic_parts t of
         [p0, p1, p2] \<Rightarrow>
           if p0 \<noteq> b \<or> p2 \<noteq> ''command''
           then Inl (TopicError (''Invalid command topic '' @ quoted t @ ''.''))
           else topic_address p1
       | _ \<Rightarrow> Inl (TopicError (''Invalid command topic '' @ quoted t @ ''.'')))"

definition parse_bridge_command_topic :: "string \<Rightarrow> string \<Rightarrow> unit result" where
  "parse_bridge_command_topic t base =
     rbind (clean_segment base) (\<lambda>b.
       case topic_parts t of
         [p0, p1, p2] \<Rightarrow>
           if p0 \<noteq> b \<or> p1 \<noteq> ''bridge'' \<or> p2 \<noteq> ''command''
           then Inl (TopicError (''Invalid bridge command topic '' @ quoted t @ ''.''))
           else Inr ()
       | _ \<Rightarrow> Inl (TopicError (''Invalid bridge command topic '' @ quoted t @ ''.'')))"

subsection \<open>Addresses in topics\<close>

lemma fullmatch_TOPIC_ADDRESS_RE: "re_fullmatch TOPIC_ADDRESS_RE s = (if valid_address s then Some [] else None)"
proof (rule re_fullmatch_iff)
  fix e
  show "rmatch TOPIC_ADDRESS_RE s [] e \<longleftrightarrow> valid_address s \<and> e = []"
    using fullmatch_house_unit(4) [OF house_char_range [symmetric]]
    unfolding TOPIC_ADDRESS_RE_def valid_address_split by simp
qed

fun is_TopicError :: "exn \<Rightarrow> bool" where
  "is_TopicError (TopicError _) = True"
| "is_TopicError _ = False"

lemma topic_address_spec:
  "topic_address a = (if valid_address (canon a) then Inr (canon a)
     else Inl (TopicError (''Invalid X10 device address '' @ quoted (canon a) @ ''.'')))"
  by (simp add: topic_address_def Let_def fullmatch_TOPIC_ADDRESS_RE)

interpretation topic_addresses: address_normaliser topic_address is_TopicError
  by unfold_locales (auto simp: topic_address_spec)

subsection \<open>Segments\<close>

lemma clean_segment_Inr:
  "clean_segment v = Inr b \<longleftrightarrow> b = strip_by is_slash (strip v) \<and> b \<noteq> [] \<and> CHR ''#'' \<notin> set b \<and> CHR ''+'' \<notin> set b"
  by (auto simp: clean_segment_def Let_def)

lemma clean_segment_error: "clean_segment v = Inl e \<Longrightarrow> is_TopicError e"
  by (auto simp: clean_segment_def Let_def split: if_splits)

definition clean :: "string \<Rightarrow> bool" where
  "clean b \<longleftrightarrow> b \<noteq> [] \<and> \<not> is_slash (hd b) \<and> \<not> is_slash (last b) \<and> CHR ''#'' \<notin> set b \<and> CHR ''+'' \<notin> set b"

lemma clean_segment_clean: "clean_segment v = Inr b \<Longrightarrow> clean b"
  unfolding clean_segment_Inr clean_def using hd_strip_by last_strip_by by metis

lemma suffix_segments:
  "clean_segment ''state'' = Inr ''state''" "clean_segment ''command'' = Inr ''command''"
  "clean_segment ''event'' = Inr ''event''" "clean_segment ''attributes'' = Inr ''attributes''"
  "clean_segment ''availability'' = Inr ''availability''" "clean_segment ''status'' = Inr ''status''"
  "clean_segment ''response'' = Inr ''response''"
  by code_simp+

lemma valid_address_no_slash:
  assumes "valid_address a" "c = CHR ''/'' \<or> c = CHR ''#'' \<or> c = CHR ''+''"
  shows "c \<notin> set a"
proof -
  obtain h u where "a = h # u" "house_char h" "unit_text u" using valid_address_parts [OF assms(1)] by metis
  then show ?thesis
    using assms(2) unit_text_digits [of u] by (auto simp: house_char_def is_digit_code)
qed

lemma topic_parts_join:
  assumes "clean b" "CHR ''/'' \<notin> set b" "d \<noteq> []" "CHR ''/'' \<notin> set d" "x \<noteq> []" "CHR ''/'' \<notin> set x"
  shows "topic_parts (topic_join [b, d, x]) = [b, d, x]"
proof -
  have "last x \<in> set x" using assms(5) by simp
  then have "\<not> is_slash (last x)" using assms(6) unfolding is_slash_def by metis
  then have "strip_by is_slash (topic_join [b, d, x]) = topic_join [b, d, x]"
    using assms(1,5) by (intro strip_by_id) (auto simp: clean_def topic_join_def hd_append)
  then show ?thesis
    unfolding topic_parts_def topic_join_def using assms split_on_join [of "[b, d, x]" "CHR ''/''"] by auto
qed

subsection \<open>Building and parsing\<close>

lemma device_topic_Inr:
  "device_topic a sfx base = Inr t \<longleftrightarrow>
     (\<exists>b x. clean_segment base = Inr b \<and> valid_address (canon a) \<and> clean_segment sfx = Inr x \<and>
        t = topic_join [b, canon a, x])"
  by (auto simp: device_topic_def topic_address_spec split: sum.splits if_splits; cases "clean_segment base"; cases "clean_segment sfx"; auto)

lemma topic_parts_long:
  assumes "clean b" "CHR ''/'' \<in> set b" "x \<noteq> []" "CHR ''/'' \<notin> set x"
  shows "3 < length (topic_parts (topic_join [b, d, x]))"
proof -
  have "last x \<in> set x" using assms(3) by simp
  then have "\<not> is_slash (last x)" using assms(4) unfolding is_slash_def by metis
  then have "strip_by is_slash (topic_join [b, d, x]) = topic_join [b, d, x]"
    using assms(1,3) by (intro strip_by_id) (auto simp: clean_def topic_join_def hd_append)
  moreover have "0 < count_list b CHR ''/''" using assms(2) count_notin by (metis count_list_0_iff not_gr_zero)
  ultimately show ?thesis
    by (simp add: topic_parts_def length_split_on topic_join_def count_list_append)
qed

text \<open>
  C37. The command topic of a device is parsed back to the device's address, for any spelling of the
  address and any base topic made of one level.  With a base topic of several levels (\<^verbatim>\<open>home/x10\<close>),
  which \<^verbatim>\<open>_clean_segment\<close> accepts, parsing fails on every command topic.
\<close>

theorem command_topic_roundtrip:
  assumes "topic_command a base = Inr t"
  shows "case parse_command_topic t base of
      Inr d \<Rightarrow> d = canon a \<and> CHR ''/'' \<notin> set (strip_by is_slash (strip base))
    | Inl e \<Rightarrow> is_TopicError e \<and> CHR ''/'' \<in> set (strip_by is_slash (strip base))"
proof -
  from assms obtain b where b: "clean_segment base = Inr b" and a: "valid_address (canon a)"
    and t: "t = topic_join [b, canon a, ''command'']"
    by (auto simp: topic_command_def device_topic_Inr suffix_segments)
  have b_eq: "b = strip_by is_slash (strip base)" using b by (simp add: clean_segment_Inr)
  have cl: "clean b" using clean_segment_clean [OF b] .
  show ?thesis
  proof (cases "CHR ''/'' \<in> set b")
    case True
    have "3 < length (topic_parts t)" unfolding t using topic_parts_long [OF cl True] by simp
    then have "\<exists>e. parse_command_topic t base = Inl (TopicError e)"
      using b by (auto simp: parse_command_topic_def split: list.splits)
    with True b_eq show ?thesis by auto
  next
    case False
    have "topic_parts t = [b, canon a, ''command'']"
      unfolding t
    proof (rule topic_parts_join [OF cl False])
      show "CHR ''/'' \<notin> set (canon a)" using valid_address_no_slash [OF a] by blast
      show "canon a \<noteq> []" using valid_address_parts [OF a] by (metis list.distinct(1))
    qed simp_all
    then have "parse_command_topic t base = topic_address (canon a)"
      using b by (simp add: parse_command_topic_def)
    also have "\<dots> = Inr (canon a)" using a by (simp add: topic_address_spec)
    finally show ?thesis using False b_eq by simp
  qed
qed

theorem command_topic_roundtrip_witness:
  "topic_command '' a1 '' ''/x10/'' = Inr ''x10/A1/command'' \<and>
   parse_command_topic ''x10/A1/command'' ''/x10/'' = Inr ''A1''"
proof -
  have t: "topic_command '' a1 '' ''/x10/'' = Inr ''x10/A1/command''" by code_simp
  have "CHR ''/'' \<notin> set (strip_by is_slash (strip ''/x10/''))" "canon '' a1 '' = ''A1''" by code_simp+
  with command_topic_roundtrip [OF t] show ?thesis using t by (auto split: sum.splits)
qed

definition device_suffixes :: "string list" where
  "device_suffixes = [''state'', ''command'', ''event'', ''attributes'']"

lemma device_suffix_facts:
  assumes "s \<in> set device_suffixes"
  shows "clean_segment s = Inr s" "CHR ''/'' \<notin> set s" "CHR ''#'' \<notin> set s" "CHR ''+'' \<notin> set s" "s \<noteq> []"
  using assms suffix_segments by (auto simp: device_suffixes_def)

lemma append_slash_inj:
  "CHR ''/'' \<notin> set d \<Longrightarrow> CHR ''/'' \<notin> set d' \<Longrightarrow> d @ CHR ''/'' # x = d' @ CHR ''/'' # x' \<Longrightarrow> d = d' \<and> x = x'"
  by (induction d arbitrary: d') (auto simp: Cons_eq_append_conv)

text \<open>
  Under one base topic, different devices or different purposes never share a topic, no device
  topic is a topic of the bridge itself, and no device topic contains a wildcard, so it is a valid
  topic to publish on.
\<close>

lemma device_topics_separate:
  assumes "s \<in> set device_suffixes" "s' \<in> set device_suffixes"
    and "device_topic a s base = Inr t" "device_topic a' s' base = Inr t'"
  shows "(t = t' \<longleftrightarrow> canon a = canon a' \<and> s = s') \<and> bridge_topic x base \<noteq> Inr t \<and>
    CHR ''#'' \<notin> set t \<and> CHR ''+'' \<notin> set t"
proof -
  from assms obtain b where b: "clean_segment base = Inr b" "valid_address (canon a)" "valid_address (canon a')"
    and t: "t = b @ CHR ''/'' # canon a @ CHR ''/'' # s" "t' = b @ CHR ''/'' # canon a' @ CHR ''/'' # s'"
    by (auto simp: device_topic_Inr device_suffix_facts topic_join_def)
  have na: "CHR ''/'' \<notin> set (canon a)" "CHR ''/'' \<notin> set (canon a')" "CHR ''#'' \<notin> set (canon a)" "CHR ''+'' \<notin> set (canon a)"
    using valid_address_no_slash b(2,3) by blast+
  have "t = t' \<longleftrightarrow> canon a = canon a' \<and> s = s'"
    unfolding t using append_slash_inj [OF na(1,2)] by auto
  moreover have "bridge_topic x base \<noteq> Inr t"
  proof
    assume "bridge_topic x base = Inr t"
    then obtain y where "t = b @ CHR ''/'' # ''bridge'' @ CHR ''/'' # y"
      using b(1) by (cases "clean_segment x") (auto simp: bridge_topic_def topic_join_def)
    with t(1) have "canon a @ CHR ''/'' # s = ''bridge'' @ CHR ''/'' # y" by simp
    from append_slash_inj [OF na(1) _ this] have "canon a = ''bridge''" by simp
    with b(2) show False by (simp add: valid_address_def house_char_def)
  qed
  moreover have "CHR ''#'' \<notin> set t" "CHR ''+'' \<notin> set t"
    using na b(1) device_suffix_facts [OF assms(1)] by (auto simp: t clean_segment_Inr)
  ultimately show ?thesis by blast
qed

lemma device_topics_separate_witness:
  "device_topic ''a1'' ''state'' ''x10'' = Inr ''x10/A1/state'' \<and>
   ''x10/A1/state'' \<noteq> ''x10/A11/state'' \<and> bridge_topic ''status'' ''x10'' \<noteq> Inr ''x10/A1/state''"
proof -
  have s: "''state'' \<in> set device_suffixes" by code_simp
  have t: "device_topic ''a1'' ''state'' ''x10'' = Inr ''x10/A1/state''"
    "device_topic ''A11'' ''state'' ''x10'' = Inr ''x10/A11/state''" by code_simp+
  have "canon ''a1'' \<noteq> canon ''A11''" by code_simp
  with device_topics_separate [OF s s t, of "''status''"] t(1) show ?thesis by blast
qed

end
