(* ===== verification/PyStr.thy ===== *)
theory PyStr
  imports Json
begin

section \<open>\<^verbatim>\<open>str()\<close> of a JSON value\<close>

text \<open>
  \<^verbatim>\<open>str(value)\<close> for what \<^verbatim>\<open>json.loads\<close> returns: a string is itself, everything else its \<^verbatim>\<open>repr\<close>.
  Characters are 8-bit; those outside printable ASCII are written as \<^verbatim>\<open>\xNN\<close>.
\<close>

definition hex_char :: "nat \<Rightarrow> char" where
  "hex_char n = ''0123456789abcdef'' ! (n mod 16)"

definition repr_char :: "char \<Rightarrow> char \<Rightarrow> string" where
  "repr_char q c =
     (let n = (of_char c :: nat); bs = CHR 0x5C in
      if c = q \<or> c = bs then [bs, c]
      else if n = 10 then [bs, CHR ''n'']
      else if n = 13 then [bs, CHR ''r'']
      else if n = 9 then [bs, CHR ''t'']
      else if n < 32 \<or> n \<ge> 127 then [bs, CHR ''x'', hex_char (n div 16), hex_char n]
      else [c])"

definition py_repr_str :: "string \<Rightarrow> string" where
  "py_repr_str s =
     (let q = (if CHR 0x27 \<in> set s \<and> CHR 0x22 \<notin> set s then CHR 0x22 else CHR 0x27)
      in [q] @ concat (map (repr_char q) s) @ [q])"

fun py_repr :: "json \<Rightarrow> string" where
  "py_repr JNull = ''None''"
| "py_repr (JBool b) = (if b then ''True'' else ''False'')"
| "py_repr (JInt i) = int_str i"
| "py_repr (JFloat t) = t"
| "py_repr (JStr s) = py_repr_str s"
| "py_repr (JArr vs) = ''['' @ join '', '' (map py_repr vs) @ '']''"
| "py_repr (JObj kvs) = ''{'' @ join '', '' (map (\<lambda>(k, v). py_repr_str k @ '': '' @ py_repr v) kvs) @ ''}''"

fun py_str :: "json \<Rightarrow> string" where
  "py_str (JStr s) = s"
| "py_str v = py_repr v"

text \<open>The truth value of a value, as \<^verbatim>\<open>not value\<close> and \<^verbatim>\<open>if value\<close> read it.\<close>

fun py_truthy :: "json \<Rightarrow> bool" where
  "py_truthy JNull = False"
| "py_truthy (JBool b) = b"
| "py_truthy (JInt i) = (i \<noteq> 0)"
| "py_truthy (JFloat t) = (t \<notin> {''0.0'', ''-0.0''})"
| "py_truthy (JStr s) = (s \<noteq> [])"
| "py_truthy (JArr vs) = (vs \<noteq> [])"
| "py_truthy (JObj kvs) = (kvs \<noteq> [])"

text \<open>\<^verbatim>\<open>re.sub(r"[...]+", c, s)\<close>: every maximal run of the class becomes one \<open>c\<close>.\<close>

fun sub_runs :: "(char \<Rightarrow> bool) \<Rightarrow> char \<Rightarrow> bool \<Rightarrow> string \<Rightarrow> string" where
  "sub_runs P r inside [] = []"
| "sub_runs P r inside (c # cs) =
     (if P c then (if inside then sub_runs P r True cs else r # sub_runs P r True cs)
      else c # sub_runs P r False cs)"

lemma sub_runs_id: "\<forall>c \<in> set s. \<not> P c \<Longrightarrow> sub_runs P r b s = s"
  by (induction s arbitrary: b) auto

end
