(* ===== verification/Discovery.thy ===== *)
theory Discovery
  imports Topics PyStr
begin

section \<open>Home Assistant discovery (\<^verbatim>\<open>discovery.py\<close>)\<close>

text \<open>
  \<^verbatim>\<open>DiscoveryManager\<close> builds the retained messages that announce devices and the bridge itself.  Its
  fields are the record \<open>discovery_manager\<close>; its methods are pure and return messages or the
  exception they raise (a \<^verbatim>\<open>DiscoveryError\<close> of the module or a \<^verbatim>\<open>TopicError\<close> of a topic builder).
\<close>

subsection \<open>Definitions\<close>

definition BRIDGE_VERSION :: string where "BRIDGE_VERSION = ''0.4.0''"
definition BRIDGE_AUTHOR :: string where "BRIDGE_AUTHOR = ''Open Source''"
definition BRIDGE_DEVICE_IDENTIFIER :: string where "BRIDGE_DEVICE_IDENTIFIER = ''mqtt_mochad_bridge''"
definition BRIDGE_DISPLAY_NAME :: string where "BRIDGE_DISPLAY_NAME = ''MQTT Mochad Bridge''"
definition BRIDGE_MODEL :: string where "BRIDGE_MODEL = ''X10 MQTT Bridge''"
definition DEFAULT_SUPPORT_URL :: string where
  "DEFAULT_SUPPORT_URL = ''https://github.com/Monsterray/mochad-mqtt-bridge''"
definition MOCHAD_REDUX_URL :: string where
  "MOCHAD_REDUX_URL = ''https://github.com/Monsterray/mochad-redux''"

record discovery_manager =
  dg_discovery_prefix :: string
  dg_base_topic :: string
  dg_support_url :: string
  dg_enable_maintenance_buttons :: bool

definition clean_diag_value :: "json \<Rightarrow> string option" where
  "clean_diag_value v =
     (if v = JNull then None
      else let value = strip (py_str v) in
        if value = [] \<or> lower value \<in> {''none'', ''unknown''} then None else Some value)"

definition diag_field :: "(mochad_diagnostics \<Rightarrow> json) \<Rightarrow> mochad_diagnostics option \<Rightarrow> string option" where
  "diag_field f diag = clean_diag_value (case diag of None \<Rightarrow> JNull | Some d \<Rightarrow> f d)"

definition device_model :: "mochad_diagnostics option \<Rightarrow> string" where
  "device_model diag = (case diag_field md_controller diag of
     Some controller \<Rightarrow> controller @ '' MQTT Bridge'' | None \<Rightarrow> BRIDGE_MODEL)"

definition device_sw_version :: "mochad_diagnostics option \<Rightarrow> string" where
  "device_sw_version diag =
     (case (diag_field md_daemon diag, diag_field md_version diag) of
        (Some daemon, Some version) \<Rightarrow> ''bridge '' @ BRIDGE_VERSION @ ''; '' @ daemon @ '' '' @ version
      | (None, Some version) \<Rightarrow> ''bridge '' @ BRIDGE_VERSION @ ''; mochad '' @ version
      | _ \<Rightarrow> BRIDGE_VERSION)"

definition origin_version :: "string option \<Rightarrow> string" where
  "origin_version v = (case v of Some version \<Rightarrow> BRIDGE_VERSION @ ''; mochad '' @ version
     | None \<Rightarrow> BRIDGE_VERSION)"

definition set_if :: "string option \<Rightarrow> string \<Rightarrow> (string \<Rightarrow> string) \<Rightarrow> (string \<times> json) list \<Rightarrow> (string \<times> json) list" where
  "set_if v k f d = (case v of None \<Rightarrow> d | Some x \<Rightarrow> AList.update k (JStr (f x)) d)"

definition device_block :: "discovery_manager \<Rightarrow> mochad_diagnostics option \<Rightarrow> json" where
  "device_block g diag =
     JObj (set_if (diag_field md_version diag) ''configuration_url'' (\<lambda>_. MOCHAD_REDUX_URL)
       (set_if (diag_field md_controller diag) ''hw_version'' id
         (set_if (diag_field md_daemon diag) ''model_id'' id
           [(''identifiers'', JArr [JStr BRIDGE_DEVICE_IDENTIFIER]),
            (''name'', JStr BRIDGE_DISPLAY_NAME),
            (''manufacturer'', JStr BRIDGE_AUTHOR),
            (''model'', JStr (device_model diag)),
            (''sw_version'', JStr (device_sw_version diag)),
            (''configuration_url'', JStr (dg_support_url g))])))"

definition origin_block :: "discovery_manager \<Rightarrow> mochad_diagnostics option \<Rightarrow> json" where
  "origin_block g diag =
     JObj [(''name'', JStr BRIDGE_DISPLAY_NAME),
           (''sw_version'', JStr (origin_version (diag_field md_version diag))),
           (''support_url'', JStr (dg_support_url g))]"

definition slug_char :: "char \<Rightarrow> bool" where
  "slug_char c \<longleftrightarrow> CHR ''a'' \<le> c \<and> c \<le> CHR ''z'' \<or> is_digit c \<or> c = CHR ''_''"

definition default_entity_id :: "string \<Rightarrow> string \<Rightarrow> string" where
  "default_entity_id component uid =
     (let slug = lower (strip uid);
          slug = sub_runs (\<lambda>c. \<not> slug_char c) CHR ''_'' False slug;
          slug = strip_by (\<lambda>c. c = CHR ''_'') (sub_runs (\<lambda>c. c = CHR ''_'') CHR ''_'' False slug)
      in component @ ''.'' @ slug)"

definition button_payload ::
  "discovery_manager \<Rightarrow> device_config \<Rightarrow> mochad_diagnostics option \<Rightarrow> (string \<times> json) list result" where
  "button_payload g d diag =
     rbind (topic_unique_id (dc_address d)) (\<lambda>uid.
     rbind (topic_command (dc_address d) (dg_base_topic g)) (\<lambda>cmd.
     rbind (topic_availability (dg_base_topic g)) (\<lambda>av.
       Inr [(''name'', JStr (dc_name d)), (''unique_id'', JStr uid),
            (''default_entity_id'', JStr (default_entity_id ''button'' uid)),
            (''command_topic'', JStr cmd), (''payload_press'', JStr ''ON''),
            (''availability_topic'', JStr av),
            (''device'', device_block g diag), (''origin'', origin_block g diag)])))"

definition discovery_payload ::
  "discovery_manager \<Rightarrow> device_config \<Rightarrow> mochad_diagnostics option \<Rightarrow> (string \<times> json) list result" where
  "discovery_payload g d diag =
     (if dc_entity_type d = CHIME \<or> \<not> dc_stateful d then button_payload g d diag
      else
        rbind (topic_unique_id (dc_address d)) (\<lambda>uid.
        rbind (topic_state (dc_address d) (dg_base_topic g)) (\<lambda>st.
        rbind (topic_command (dc_address d) (dg_base_topic g)) (\<lambda>cmd.
        rbind (topic_availability (dg_base_topic g)) (\<lambda>av.
          Inr [(''name'', JStr (dc_name d)), (''unique_id'', JStr uid),
               (''default_entity_id'', JStr (default_entity_id (entity_type_segment (dc_entity_type d)) uid)),
               (''state_topic'', JStr st), (''command_topic'', JStr cmd),
               (''availability_topic'', JStr av),
               (''payload_on'', JStr ''ON''), (''payload_off'', JStr ''OFF''),
               (''device'', device_block g diag), (''origin'', origin_block g diag)])))))"

definition validate_device :: "device_config \<Rightarrow> unit result" where
  "validate_device d =
     (if strip (dc_name d) = []
      then Inl (DiscoveryError (''Device '' @ dc_address d @ '' must have a display name.''))
      else case topic_unique_id (dc_address d) of
             Inr _ \<Rightarrow> Inr ()
           | Inl (TopicError s) \<Rightarrow> Inl (DiscoveryError s)
           | Inl e \<Rightarrow> Inl e)"

definition has_key :: "(string \<times> json) list \<Rightarrow> string \<Rightarrow> bool" where
  "has_key kvs k \<longleftrightarrow> k \<in> set (map fst kvs)"

definition required_fields :: "bool \<Rightarrow> string list" where
  "required_fields button =
     [''name'', ''unique_id'', ''command_topic'', ''availability_topic'', ''device'', ''origin''] @
     (if button then [''payload_press''] else [''state_topic'', ''payload_on'', ''payload_off''])"

text \<open>Only the fact that a field is missing matters to a caller, so the message names the fields in the order listed.\<close>

definition validate_message :: "string \<Rightarrow> (string \<times> json) list \<Rightarrow> unit result" where
  "validate_message topic payload =
     (case split_on CHR ''/'' topic of
        _ # component # _ \<Rightarrow>
          let missing = filter (\<lambda>k. \<not> has_key payload k) (required_fields (component = ''button'')) in
          if missing \<noteq> []
          then Inl (DiscoveryError (''Discovery payload missing required fields: '' @ join '', '' missing))
          else if topic = [] then Inl (DiscoveryError ''Discovery topic cannot be empty.'')
          else if \<not> py_truthy (obj_get payload ''unique_id'')
          then Inl (DiscoveryError ''Discovery unique_id cannot be empty.'')
          else if has_key payload ''state_topic'' \<and> \<not> py_truthy (obj_get payload ''state_topic'')
          then Inl (DiscoveryError ''Discovery state_topic cannot be empty.'')
          else if \<not> py_truthy (obj_get payload ''command_topic'')
          then Inl (DiscoveryError ''Discovery command_topic cannot be empty.'')
          else if \<not> py_truthy (obj_get payload ''availability_topic'')
          then Inl (DiscoveryError ''Discovery availability_topic cannot be empty.'')
          else (case filter (\<lambda>k. \<not> has_key (obj_fields (obj_get payload ''device'')) k)
                       [''identifiers'', ''name'', ''manufacturer'', ''model'', ''sw_version''] of
                  [] \<Rightarrow> Inr ()
                | k # _ \<Rightarrow> Inl (DiscoveryError (''Discovery device block missing '' @ k @ ''.'')))
      | _ \<Rightarrow> Inl (IndexError ''list index out of range''))"

definition discovery_messages ::
  "discovery_manager \<Rightarrow> device_config \<Rightarrow> mochad_diagnostics option \<Rightarrow> discovery_message list result" where
  "discovery_messages g d diag =
     rbind (validate_device d) (\<lambda>_.
     rbind (discovery_payload g d diag) (\<lambda>payload.
     rbind (topic_discovery d (dg_discovery_prefix g)) (\<lambda>topic.
     rbind (validate_message topic payload) (\<lambda>_.
       Inr [\<lparr>dm_topic = topic, dm_payload = JObj payload, dm_retain = True\<rparr>]))))"

subsection \<open>Messages of the bridge itself\<close>

text \<open>The fields the five kinds of bridge messages share, in the order of the dictionaries.\<close>

definition bridge_sensor_message ::
  "discovery_manager \<Rightarrow> mochad_diagnostics option \<Rightarrow> string \<Rightarrow> string \<Rightarrow> string \<Rightarrow> (string \<times> json) list
     \<Rightarrow> discovery_message result" where
  "bridge_sensor_message g diag component object_id name extra =
     rbind (topic_bridge_discovery component object_id (dg_discovery_prefix g)) (\<lambda>topic.
     rbind (topic_status (dg_base_topic g)) (\<lambda>st.
     rbind (topic_availability (dg_base_topic g)) (\<lambda>av.
       Inr \<lparr>dm_topic = topic,
            dm_payload = JObj ([(''name'', JStr name), (''unique_id'', JStr object_id),
              (''default_entity_id'', JStr (default_entity_id component object_id)),
              (''state_topic'', JStr st)] @ extra @
             [(''availability_topic'', JStr av), (''entity_category'', JStr ''diagnostic''),
              (''device'', device_block g diag), (''origin'', origin_block g diag)]),
            dm_retain = True\<rparr>)))"

definition connectivity_fields :: "string \<Rightarrow> (string \<times> json) list" where
  "connectivity_fields template =
     [(''value_template'', JStr template), (''payload_on'', JStr ''ON''),
      (''payload_off'', JStr ''OFF''), (''device_class'', JStr ''connectivity'')]"

definition bridge_status_sensor_message where
  "bridge_status_sensor_message g diag =
     bridge_sensor_message g diag ''sensor'' ''mqtt_mochad_bridge_status'' ''Bridge Status''
       [(''value_template'', JStr ''{{ value_json.status }}'')]"

definition bridge_connectivity_sensor_message where
  "bridge_connectivity_sensor_message g diag object_id name value_key =
     bridge_sensor_message g diag ''binary_sensor'' object_id name
       (connectivity_fields (''{{ '' @ quoted ''ON'' @ '' if value_json.'' @ value_key @
          '' else '' @ quoted ''OFF'' @ '' }}''))"

definition bridge_usb_sensor_message where
  "bridge_usb_sensor_message g diag =
     bridge_sensor_message g diag ''binary_sensor'' ''mqtt_mochad_bridge_usb_connected'' ''USB Connected''
       (connectivity_fields (''{{ '' @ quoted ''ON'' @ '' if value_json.mochad.health.usb_connected else '' @
          quoted ''OFF'' @ '' }}''))"

definition bridge_value_sensor_message where
  "bridge_value_sensor_message g diag object_id name template =
     bridge_sensor_message g diag ''sensor'' object_id name [(''value_template'', JStr template)]"

definition bridge_command_button_message ::
  "discovery_manager \<Rightarrow> mochad_diagnostics option \<Rightarrow> bridge_command \<Rightarrow> string \<Rightarrow> string
     \<Rightarrow> discovery_message result" where
  "bridge_command_button_message g diag command object_id name =
     rbind (topic_bridge_discovery ''button'' object_id (dg_discovery_prefix g)) (\<lambda>topic.
     rbind (topic_bridge_command (dg_base_topic g)) (\<lambda>cmd.
     rbind (topic_availability (dg_base_topic g)) (\<lambda>av.
       Inr \<lparr>dm_topic = topic,
            dm_payload = JObj [(''name'', JStr name), (''unique_id'', JStr object_id),
              (''default_entity_id'', JStr (default_entity_id ''button'' object_id)),
              (''command_topic'', JStr cmd), (''payload_press'', JStr (bridge_command_name command)),
              (''availability_topic'', JStr av), (''entity_category'', JStr ''diagnostic''),
              (''device'', device_block g diag), (''origin'', origin_block g diag)],
            dm_retain = True\<rparr>)))"

definition validate_bridge_message :: "discovery_message \<Rightarrow> unit result" where
  "validate_bridge_message m =
     (if dm_topic m = [] then Inl (DiscoveryError ''Bridge discovery topic cannot be empty.'')
      else if \<not> is_JObj (dm_payload m) then Inl (DiscoveryError ''Bridge discovery payload must be a dict.'')
      else
        let p = obj_fields (dm_payload m) in
        (case filter (\<lambda>k. \<not> has_key p k) [''name'', ''unique_id'', ''availability_topic'', ''device'', ''origin''] of
           k # _ \<Rightarrow> Inl (DiscoveryError (''Bridge discovery payload missing '' @ k @ ''.''))
         | [] \<Rightarrow>
             if \<not> has_key p ''state_topic'' \<and> \<not> has_key p ''command_topic''
             then Inl (DiscoveryError ''Bridge discovery payload must include a state or command topic.'')
             else Inr ()))"

definition bridge_message_results ::
  "discovery_manager \<Rightarrow> mochad_diagnostics option \<Rightarrow> discovery_message result list" where
  "bridge_message_results g diag =
     [bridge_status_sensor_message g diag,
      bridge_connectivity_sensor_message g diag ''mqtt_mochad_bridge_mochad_connected''
        ''Mochad Connected'' ''mochad_connected'',
      bridge_usb_sensor_message g diag,
      bridge_value_sensor_message g diag ''mqtt_mochad_bridge_controller'' ''Controller Type''
        (''{{ value_json.mochad.health.controller | default('' @ quoted ''unknown'' @ '') }}''),
      bridge_value_sensor_message g diag ''mqtt_mochad_bridge_mochad_version'' ''Mochad Version''
        (''{{ value_json.mochad.version | default('' @ quoted ''unknown'' @ '') }}''),
      bridge_command_button_message g diag BC_SYNC ''mqtt_mochad_bridge_sync'' ''Sync X10 Status'',
      bridge_command_button_message g diag BC_REDISCOVER ''mqtt_mochad_bridge_rediscover''
        ''Rediscover X10 Entities''] @
     (if dg_enable_maintenance_buttons g then
        [bridge_command_button_message g diag BC_PRUNE_DISCOVERY ''mqtt_mochad_bridge_prune_discovery''
           ''Prune Discovery'',
         bridge_command_button_message g diag BC_RESET_DISCOVERY ''mqtt_mochad_bridge_reset_discovery''
           ''Reset Discovery'']
      else [])"

definition bridge_diagnostic_messages ::
  "discovery_manager \<Rightarrow> mochad_diagnostics option \<Rightarrow> discovery_message list result" where
  "bridge_diagnostic_messages g diag =
     rbind (map_result id (bridge_message_results g diag)) (\<lambda>ms.
     rbind (map_result validate_bridge_message ms) (\<lambda>_. Inr ms))"

subsection \<open>Device messages\<close>

fun is_DiscoveryError :: "exn \<Rightarrow> bool" where
  "is_DiscoveryError (DiscoveryError _) = True"
| "is_DiscoveryError _ = False"

lemma topic_device_ok:
  assumes "valid_address (canon a)" "clean_segment base = Inr b"
  shows "topic_state a base = Inr (topic_join [b, canon a, ''state''])"
    "topic_command a base = Inr (topic_join [b, canon a, ''command''])"
    "topic_availability base = Inr (topic_join [b, ''bridge'', ''availability''])"
    "topic_unique_id a = Inr (''x10_'' @ canon a)"
  using assms
  by (simp_all add: topic_state_def topic_command_def device_topic_def topic_address_spec suffix_segments
      topic_availability_def bridge_topic_def topic_unique_id_def)

lemma topic_join_ne [simp]: "topic_join (x # y # zs) \<noteq> []"
  by (cases zs) (simp_all add: topic_join_def)

lemma device_block_keys:
  "has_key (obj_fields (device_block g diag)) ''identifiers''" "has_key (obj_fields (device_block g diag)) ''name''"
  "has_key (obj_fields (device_block g diag)) ''manufacturer''" "has_key (obj_fields (device_block g diag)) ''model''"
  "has_key (obj_fields (device_block g diag)) ''sw_version''"
  by (simp_all add: device_block_def set_if_def has_key_def update_keys image_iff split: option.splits)

lemma entity_segment_facts [simp]:
  "entity_type_segment t = ''button'' \<longleftrightarrow> t = CHIME" "CHR ''/'' \<notin> set (entity_type_segment t)"
  by (cases t; simp)+

lemma discovery_topic_parts:
  assumes "valid_address (canon (dc_address d))" "clean_segment pre = Inr p" "CHR ''/'' \<notin> set p"
  shows "topic_discovery d pre = Inr (topic_join [p, entity_type_segment (dc_entity_type d),
      ''x10_'' @ canon (dc_address d), ''config''])"
    and "split_on CHR ''/'' (topic_join [p, entity_type_segment (dc_entity_type d),
      ''x10_'' @ canon (dc_address d), ''config'']) =
     [p, entity_type_segment (dc_entity_type d), ''x10_'' @ canon (dc_address d), ''config'']"
proof -
  show "topic_discovery d pre = Inr (topic_join [p, entity_type_segment (dc_entity_type d),
      ''x10_'' @ canon (dc_address d), ''config''])"
    using assms by (simp add: topic_discovery_def topic_unique_id_def topic_address_spec)
  have "CHR ''/'' \<notin> set (canon (dc_address d))" using valid_address_no_slash [OF assms(1)] by blast
  then show "split_on CHR ''/'' (topic_join [p, entity_type_segment (dc_entity_type d),
      ''x10_'' @ canon (dc_address d), ''config'']) =
     [p, entity_type_segment (dc_entity_type d), ''x10_'' @ canon (dc_address d), ''config'']"
    unfolding topic_join_def using assms(3) by (intro split_on_join) auto
qed

text \<open>A payload with the required fields passes the validation of its message, one without one does not.\<close>

lemma validate_message_iff:
  assumes "split_on CHR ''/'' topic = pre # component # rest"
    and "obj_get payload ''device'' = device_block g diag"
    and "obj_get payload ''unique_id'' = JStr (c1 # uid)" "obj_get payload ''command_topic'' = JStr (c2 # cmd)"
    and "obj_get payload ''availability_topic'' = JStr (c3 # av)"
    and "has_key payload ''state_topic'' \<Longrightarrow> \<exists>c st. obj_get payload ''state_topic'' = JStr (c # st)"
  shows "validate_message topic payload =
    (case filter (\<lambda>k. \<not> has_key payload k) (required_fields (component = ''button'')) of
       [] \<Rightarrow> Inr ()
     | k # ks \<Rightarrow> Inl (DiscoveryError (''Discovery payload missing required fields: '' @ join '', '' (k # ks))))"
proof -
  have "topic \<noteq> []" using assms(1) by (auto simp: split_on_def)
  then show ?thesis
    using assms by (auto simp: validate_message_def Let_def device_block_keys split: list.splits)
qed

lemma topic_join_Cons: "clean b \<Longrightarrow> \<exists>c cs. topic_join (b # bs) = c # cs"
  by (cases b; cases bs) (auto simp: clean_def topic_join_def)

text \<open>
  What a built device message is: one retained message on the device's discovery topic whose payload
  names the topics the bridge listens and publishes on.
\<close>

definition device_message_ok :: "discovery_manager \<Rightarrow> string \<Rightarrow> device_config \<Rightarrow> discovery_message list \<Rightarrow> bool" where
  "device_message_ok g p d msgs \<longleftrightarrow>
     (\<exists>pl. msgs = [\<lparr>dm_topic = topic_join [p, entity_type_segment (dc_entity_type d), ''x10_'' @ canon (dc_address d), ''config''],
                    dm_payload = JObj pl, dm_retain = True\<rparr>] \<and>
       topic_command (dc_address d) (dg_base_topic g) = (case obj_get pl ''command_topic'' of JStr t \<Rightarrow> Inr t) \<and>
       obj_get pl ''unique_id'' = JStr (''x10_'' @ canon (dc_address d)) \<and>
       (if dc_entity_type d = CHIME then obj_get pl ''payload_press'' = JStr ''ON''
        else topic_state (dc_address d) (dg_base_topic g) = (case obj_get pl ''state_topic'' of JStr t \<Rightarrow> Inr t)))"

lemma button_discovery:
  assumes "valid_address (canon (dc_address d))" "strip (dc_name d) \<noteq> []"
    and "clean_segment (dg_discovery_prefix g) = Inr p" "CHR ''/'' \<notin> set p"
    and "clean_segment (dg_base_topic g) = Inr b"
    and button: "dc_entity_type d = CHIME \<or> \<not> dc_stateful d"
  shows "case discovery_messages g d diag of
      Inl e \<Rightarrow> is_DiscoveryError e \<and> \<not> dc_stateful d \<and> dc_entity_type d \<noteq> CHIME
    | Inr msgs \<Rightarrow> dc_entity_type d = CHIME \<and> device_message_ok g p d msgs"
proof -
  note t = topic_device_ok [OF assms(1,5)] discovery_topic_parts [OF assms(1,3,4)]
  have vd: "validate_device d = Inr ()" using assms(2) t(4) by (simp add: validate_device_def)
  have cb: "clean b" using assms(5) by (rule clean_segment_clean)
  let ?topic = "topic_join [p, entity_type_segment (dc_entity_type d), ''x10_'' @ canon (dc_address d), ''config'']"
  let ?comp = "entity_type_segment (dc_entity_type d)"
  obtain c2 cmd where cmd: "topic_join [b, canon (dc_address d), ''command''] = c2 # cmd" using topic_join_Cons [OF cb] by blast
  obtain c3 av where av: "topic_join [b, ''bridge'', ''availability''] = c3 # av" using topic_join_Cons [OF cb] by blast
  note tt = t(1-4) [unfolded cmd av]
  obtain pl where pl: "discovery_payload g d diag = Inr pl"
    and ks: "map fst pl = [''name'', ''unique_id'', ''default_entity_id'', ''command_topic'', ''payload_press'',
       ''availability_topic'', ''device'', ''origin'']"
    and get: "obj_get pl ''device'' = device_block g diag" "obj_get pl ''unique_id'' = JStr (''x10_'' @ canon (dc_address d))"
      "obj_get pl ''command_topic'' = JStr (c2 # cmd)" "obj_get pl ''availability_topic'' = JStr (c3 # av)"
      "obj_get pl ''payload_press'' = JStr ''ON''"
    using button by (simp add: discovery_payload_def button_payload_def tt obj_get_def)
  have "validate_message ?topic pl = (case filter (\<lambda>k. \<not> has_key pl k) (required_fields (?comp = ''button'')) of
     [] \<Rightarrow> Inr ()
   | k # ks \<Rightarrow> Inl (DiscoveryError (''Discovery payload missing required fields: '' @ join '', '' (k # ks))))"
    using get ks by (intro validate_message_iff [OF t(6)]) (auto simp: has_key_def)
  also have "filter (\<lambda>k. \<not> has_key pl k) (required_fields (?comp = ''button'')) =
      (if dc_entity_type d = CHIME then [] else [''state_topic'', ''payload_on'', ''payload_off''])"
    by (simp add: required_fields_def has_key_def ks)
  finally have "validate_message ?topic pl = (if dc_entity_type d = CHIME then Inr ()
      else Inl (DiscoveryError (''Discovery payload missing required fields: '' @
        join '', '' [''state_topic'', ''payload_on'', ''payload_off''])))"
    by simp
  with button get pl vd t(5) tt(2) show ?thesis
    by (cases "dc_entity_type d = CHIME") (simp_all add: discovery_messages_def device_message_ok_def)
qed

lemma stateful_discovery:
  assumes "valid_address (canon (dc_address d))" "strip (dc_name d) \<noteq> []"
    and "clean_segment (dg_discovery_prefix g) = Inr p" "CHR ''/'' \<notin> set p"
    and "clean_segment (dg_base_topic g) = Inr b"
    and stateful: "dc_entity_type d \<noteq> CHIME" "dc_stateful d"
  shows "\<exists>msgs. discovery_messages g d diag = Inr msgs \<and> device_message_ok g p d msgs"
proof -
  note t = topic_device_ok [OF assms(1,5)] discovery_topic_parts [OF assms(1,3,4)]
  have vd: "validate_device d = Inr ()" using assms(2) t(4) by (simp add: validate_device_def)
  have cb: "clean b" using assms(5) by (rule clean_segment_clean)
  let ?topic = "topic_join [p, entity_type_segment (dc_entity_type d), ''x10_'' @ canon (dc_address d), ''config'']"
  let ?comp = "entity_type_segment (dc_entity_type d)"
  obtain c2 cmd where cmd: "topic_join [b, canon (dc_address d), ''command''] = c2 # cmd" using topic_join_Cons [OF cb] by blast
  obtain c3 av where av: "topic_join [b, ''bridge'', ''availability''] = c3 # av" using topic_join_Cons [OF cb] by blast
  obtain c4 st where st: "topic_join [b, canon (dc_address d), ''state''] = c4 # st" using topic_join_Cons [OF cb] by blast
  note tt = t(1-4) [unfolded cmd av st]
  obtain pl where pl: "discovery_payload g d diag = Inr pl"
    and ks: "map fst pl = [''name'', ''unique_id'', ''default_entity_id'', ''state_topic'', ''command_topic'',
       ''availability_topic'', ''payload_on'', ''payload_off'', ''device'', ''origin'']"
    and get: "obj_get pl ''device'' = device_block g diag" "obj_get pl ''unique_id'' = JStr (''x10_'' @ canon (dc_address d))"
      "obj_get pl ''command_topic'' = JStr (c2 # cmd)" "obj_get pl ''availability_topic'' = JStr (c3 # av)"
      "obj_get pl ''state_topic'' = JStr (c4 # st)"
    using stateful by (simp add: discovery_payload_def tt obj_get_def)
  have "validate_message ?topic pl = (case filter (\<lambda>k. \<not> has_key pl k) (required_fields (?comp = ''button'')) of
     [] \<Rightarrow> Inr ()
   | k # ks \<Rightarrow> Inl (DiscoveryError (''Discovery payload missing required fields: '' @ join '', '' (k # ks))))"
    using get by (intro validate_message_iff [OF t(6)]) auto
  also have "filter (\<lambda>k. \<not> has_key pl k) (required_fields (?comp = ''button'')) = []"
    using stateful by (simp add: required_fields_def has_key_def ks)
  finally show ?thesis
    using stateful get pl vd t(5) tt(1,2) by (simp add: discovery_messages_def device_message_ok_def)
qed

lemma discoverable_messages:
  assumes "valid_address (canon (dc_address d))" "strip (dc_name d) \<noteq> []" "dc_stateful d \<or> dc_entity_type d = CHIME"
    and "clean_segment (dg_discovery_prefix g) = Inr p" "CHR ''/'' \<notin> set p" "clean_segment (dg_base_topic g) = Inr b"
  shows "\<exists>msgs. discovery_messages g d diag = Inr msgs \<and> device_message_ok g p d msgs"
proof (cases "dc_entity_type d = CHIME")
  case True
  then show ?thesis
    using button_discovery [OF assms(1,2,4-6), of diag] by (auto split: sum.splits)
next
  case False
  with assms(3) show ?thesis by (intro stateful_discovery [OF assms(1,2,4-6)]) auto
qed

text \<open>
  C27. For a device with a valid address and a name, under a base topic and a one-level discovery
  prefix that are usable as topic segments, exactly one retained message is built, on
  \<^verbatim>\<open>prefix/component/x10_ADDRESS/config\<close>; its command topic is the one commands of this device are
  received on, and its state topic (or, for a chime, its press payload \<^verbatim>\<open>ON\<close>) the one its state is
  published on.  The exception is a device without state that is not a chime: its message is always
  refused with a \<^verbatim>\<open>DiscoveryError\<close>, because the payload is that of a button and the topic is not.
\<close>

theorem device_discovery:
  assumes "valid_address (canon (dc_address d))" "strip (dc_name d) \<noteq> []"
    and "clean_segment (dg_discovery_prefix g) = Inr p" "CHR ''/'' \<notin> set p"
    and "clean_segment (dg_base_topic g) = Inr b"
  shows "case discovery_messages g d diag of
      Inl e \<Rightarrow> is_DiscoveryError e \<and> \<not> dc_stateful d \<and> dc_entity_type d \<noteq> CHIME
    | Inr msgs \<Rightarrow> (dc_stateful d \<or> dc_entity_type d = CHIME) \<and>
        (\<exists>pl. msgs = [\<lparr>dm_topic = topic_join [p, entity_type_segment (dc_entity_type d), ''x10_'' @ canon (dc_address d), ''config''],
                       dm_payload = JObj pl, dm_retain = True\<rparr>] \<and>
          topic_command (dc_address d) (dg_base_topic g) = (case obj_get pl ''command_topic'' of JStr t \<Rightarrow> Inr t) \<and>
          obj_get pl ''unique_id'' = JStr (''x10_'' @ canon (dc_address d)) \<and>
          (if dc_entity_type d = CHIME then obj_get pl ''payload_press'' = JStr ''ON''
           else topic_state (dc_address d) (dg_base_topic g) = (case obj_get pl ''state_topic'' of JStr t \<Rightarrow> Inr t)))"
  unfolding device_message_ok_def [symmetric]
  using button_discovery [OF assms, of diag] stateful_discovery [OF assms, of diag]
  by (cases "dc_entity_type d = CHIME"; cases "dc_stateful d") (auto split: sum.splits)

definition demo_discovery :: discovery_manager where
  "demo_discovery = \<lparr>dg_discovery_prefix = ''homeassistant'', dg_base_topic = ''x10'',
     dg_support_url = DEFAULT_SUPPORT_URL, dg_enable_maintenance_buttons = True\<rparr>"

theorem device_discovery_witness:
  "\<exists>pl. discovery_messages demo_discovery (default_device ''a1'' ''Lamp'') None =
     Inr [\<lparr>dm_topic = ''homeassistant/switch/x10_A1/config'', dm_payload = JObj pl, dm_retain = True\<rparr>]"
proof -
  let ?d = "default_device ''a1'' ''Lamp''"
  have h: "valid_address (canon (dc_address ?d))" "strip (dc_name ?d) \<noteq> []"
    "clean_segment (dg_discovery_prefix demo_discovery) = Inr ''homeassistant''" "CHR ''/'' \<notin> set ''homeassistant''"
    "clean_segment (dg_base_topic demo_discovery) = Inr ''x10''"
    by code_simp+
  have t: "topic_join [''homeassistant'', entity_type_segment (dc_entity_type ?d), ''x10_'' @ canon (dc_address ?d), ''config''] =
      ''homeassistant/switch/x10_A1/config''" by code_simp
  show ?thesis
    using device_discovery [OF h, of None] unfolding t by (cases "discovery_messages demo_discovery ?d None") auto
qed

subsection \<open>Bridge messages\<close>

definition bridge_entities :: "bool \<Rightarrow> (string \<times> string) list" where
  "bridge_entities maintenance =
     [(''sensor'', ''mqtt_mochad_bridge_status''), (''binary_sensor'', ''mqtt_mochad_bridge_mochad_connected''),
      (''binary_sensor'', ''mqtt_mochad_bridge_usb_connected''), (''sensor'', ''mqtt_mochad_bridge_controller''),
      (''sensor'', ''mqtt_mochad_bridge_mochad_version''), (''button'', ''mqtt_mochad_bridge_sync''),
      (''button'', ''mqtt_mochad_bridge_rediscover'')] @
     (if maintenance then [(''button'', ''mqtt_mochad_bridge_prune_discovery''),
        (''button'', ''mqtt_mochad_bridge_reset_discovery'')] else [])"

lemma bridge_entities_clean:
  "(c, i) \<in> set (bridge_entities mt) \<Longrightarrow> clean_segment c = Inr c \<and> clean_segment i = Inr i"
proof -
  have "list_all (\<lambda>(c, i). clean_segment c = Inr c \<and> clean_segment i = Inr i) (bridge_entities True)" by code_simp
  then show "(c, i) \<in> set (bridge_entities mt) \<Longrightarrow> ?thesis"
    unfolding list_all_iff bridge_entities_def
    by (cases mt; simp only: if_True if_False append_Nil2 set_append Un_iff; blast)
qed

lemma bridge_entities_distinct: "distinct (bridge_entities mt)"
proof -
  have "distinct (bridge_entities True)" "distinct (bridge_entities False)" by code_simp+
  then show ?thesis by (cases mt) simp_all
qed

definition bridge_entity_topic :: "string \<Rightarrow> string \<times> string \<Rightarrow> string" where
  "bridge_entity_topic p = (\<lambda>(c, i). topic_join [p, c, i, ''config''])"

text \<open>A message of the bridge for one entity: it is built, retained and passes the validation.\<close>

definition bridge_built :: "string \<Rightarrow> string \<times> string \<Rightarrow> discovery_message result \<Rightarrow> bool" where
  "bridge_built p e r \<longleftrightarrow> (\<exists>m. r = Inr m \<and> dm_topic m = bridge_entity_topic p e \<and> dm_retain m \<and>
     validate_bridge_message m = Inr () \<and>
     map_of (obj_fields (dm_payload m)) ''unique_id'' = Some (JStr (snd e)))"

lemma bridge_topics_ok:
  assumes "clean_segment base = Inr b"
  shows "topic_status base = Inr (topic_join [b, ''bridge'', ''status''])"
    "topic_availability base = Inr (topic_join [b, ''bridge'', ''availability''])"
    "topic_bridge_command base = Inr (topic_join [b, ''bridge'', ''command''])"
  using assms
  by (simp_all add: topic_status_def topic_availability_def topic_bridge_command_def bridge_topic_def suffix_segments)

lemma bridge_sensor_built:
  assumes "clean_segment (dg_discovery_prefix g) = Inr p" "clean_segment (dg_base_topic g) = Inr b"
    and "clean_segment c = Inr c" "clean_segment i = Inr i" "''unique_id'' \<notin> set (map fst extra)"
  shows "bridge_built p (c, i) (bridge_sensor_message g diag c i n extra)"
  using assms
  by (simp add: bridge_built_def bridge_sensor_message_def topic_bridge_discovery_def bridge_topics_ok
      validate_bridge_message_def has_key_def bridge_entity_topic_def)

lemma bridge_button_built:
  assumes "clean_segment (dg_discovery_prefix g) = Inr p" "clean_segment (dg_base_topic g) = Inr b"
    and "clean_segment i = Inr i"
  shows "bridge_built p (''button'', i) (bridge_command_button_message g diag cmd i n)"
proof -
  have "clean_segment ''button'' = Inr ''button''" by code_simp
  with assms show ?thesis
    by (simp add: bridge_built_def bridge_command_button_message_def topic_bridge_discovery_def bridge_topics_ok
        validate_bridge_message_def has_key_def bridge_entity_topic_def)
qed

lemma bridge_built_all:
  assumes "clean_segment (dg_discovery_prefix g) = Inr p" "clean_segment (dg_base_topic g) = Inr b"
  shows "list_all2 (bridge_built p) (bridge_entities (dg_enable_maintenance_buttons g)) (bridge_message_results g diag)"
proof -
  note built = bridge_sensor_built [OF assms] bridge_button_built [OF assms]
  show ?thesis
    unfolding bridge_message_results_def bridge_entities_def bridge_status_sensor_message_def
      bridge_connectivity_sensor_message_def bridge_usb_sensor_message_def bridge_value_sensor_message_def
    by (cases "dg_enable_maintenance_buttons g"; simp only: if_True if_False; intro list_all2_appendI list.rel_intros built;
        (simp add: connectivity_fields_def; fail | code_simp))
qed

lemma built_messages:
  assumes "list_all2 (bridge_built p) es rs"
  shows "\<exists>msgs. map_result id rs = Inr msgs \<and> map_result validate_bridge_message msgs = Inr (map (\<lambda>_. ()) msgs) \<and>
    map dm_topic msgs = map (bridge_entity_topic p) es \<and> list_all dm_retain msgs"
  using assms
proof (induction es rs rule: list_all2_induct)
  case (Cons e es r rs)
  then show ?case by (auto simp: bridge_built_def)
qed simp

lemma bridge_entity_topic_inj: "bridge_entity_topic p e = bridge_entity_topic p e' \<Longrightarrow>
    e \<in> set (bridge_entities mt) \<Longrightarrow> e' \<in> set (bridge_entities mt) \<Longrightarrow> e = e'"
proof -
  have ns: "list_all (\<lambda>(c, i). CHR ''/'' \<notin> set c \<and> CHR ''/'' \<notin> set i) (bridge_entities True)" by code_simp
  assume eq: "bridge_entity_topic p e = bridge_entity_topic p e'"
    and mem: "e \<in> set (bridge_entities mt)" "e' \<in> set (bridge_entities mt)"
  obtain c i c' i' where e: "e = (c, i)" "e' = (c', i')" by (cases e; cases e')
  have "e \<in> set (bridge_entities True)" "e' \<in> set (bridge_entities True)"
    using mem unfolding bridge_entities_def by (cases mt; simp only: if_True if_False append_Nil2 set_append Un_iff; blast)+
  with ns e have no: "CHR ''/'' \<notin> set c" "CHR ''/'' \<notin> set i" "CHR ''/'' \<notin> set c'" "CHR ''/'' \<notin> set i'"
    by (simp_all only: list_all_iff e) (blast+)
  have "c @ CHR ''/'' # i @ CHR ''/'' # ''config'' = c' @ CHR ''/'' # i' @ CHR ''/'' # ''config''"
    using eq by (simp add: e bridge_entity_topic_def topic_join_def)
  from append_slash_inj [OF no(1,3) this] append_slash_inj [OF no(2,4)] show "e = e'" by (simp add: e)
qed

lemma bridge_messages_built:
  assumes "clean_segment (dg_discovery_prefix g) = Inr p" "clean_segment (dg_base_topic g) = Inr b"
  shows "\<exists>msgs. bridge_diagnostic_messages g diag = Inr msgs \<and>
    map dm_topic msgs = map (bridge_entity_topic p) (bridge_entities (dg_enable_maintenance_buttons g)) \<and>
    list_all dm_retain msgs"
  using built_messages [OF bridge_built_all [OF assms, of diag]] by (auto simp: bridge_diagnostic_messages_def)

lemma bridge_topics_distinct: "distinct (map (bridge_entity_topic p) (bridge_entities mt))"
  unfolding distinct_map
proof
  show "distinct (bridge_entities mt)" by (rule bridge_entities_distinct)
  show "inj_on (bridge_entity_topic p) (set (bridge_entities mt))" by (rule inj_onI) (rule bridge_entity_topic_inj)
qed

text \<open>
  C28. With a usable prefix and base topic the messages of the bridge itself are always built, whatever
  mochad reported: seven of them, nine with maintenance buttons, one per entity, all retained, all on
  different topics.
\<close>

theorem bridge_discovery:
  assumes "clean_segment (dg_discovery_prefix g) = Inr p" "clean_segment (dg_base_topic g) = Inr b"
  shows "\<exists>msgs. bridge_diagnostic_messages g diag = Inr msgs \<and>
    map dm_topic msgs = map (bridge_entity_topic p) (bridge_entities (dg_enable_maintenance_buttons g)) \<and>
    length msgs = (if dg_enable_maintenance_buttons g then 9 else 7) \<and>
    distinct (map dm_topic msgs) \<and> list_all dm_retain msgs"
proof -
  let ?es = "bridge_entities (dg_enable_maintenance_buttons g)"
  obtain msgs where m: "bridge_diagnostic_messages g diag = Inr msgs" "map dm_topic msgs = map (bridge_entity_topic p) ?es"
    "list_all dm_retain msgs" using bridge_messages_built [OF assms] by blast
  moreover have "length msgs = length ?es" using m(2) by (metis length_map)
  moreover have "length ?es = (if dg_enable_maintenance_buttons g then 9 else 7)" by (simp add: bridge_entities_def)
  moreover have "distinct (map dm_topic msgs)" unfolding m(2) by (rule bridge_topics_distinct)
  ultimately show ?thesis by simp
qed

theorem bridge_discovery_witness:
  "\<exists>msgs. bridge_diagnostic_messages demo_discovery (Some new_diagnostics) = Inr msgs \<and> length msgs = 9"
proof -
  have h: "clean_segment (dg_discovery_prefix demo_discovery) = Inr ''homeassistant''"
    "clean_segment (dg_base_topic demo_discovery) = Inr ''x10''" "dg_enable_maintenance_buttons demo_discovery"
    by code_simp+
  from bridge_discovery [OF h(1,2), of "Some new_diagnostics"] h(3) show ?thesis by auto
qed

end
