(* ===== verification/JsonText.thy ===== *)
theory JsonText
  imports Json
begin

section \<open>JSON texts (the \<^verbatim>\<open>json\<close> module)\<close>

text \<open>
  \<^verbatim>\<open>json.dumps\<close> and \<^verbatim>\<open>json.loads\<close> as the source uses them.  Characters are code points below 256; an
  escape \<^verbatim>\<open>\uXXXX\<close> of a larger code point reads as \<^verbatim>\<open>?\<close>.  A number with a fraction or an exponent is
  read as its text.  The reader is a recursive descent with fuel; \<open>loads_pretty\<close> shows that the fuel
  \<open>loads\<close> provides is enough for every text that the printer produces, in any of its layouts.
\<close>

subsection \<open>Reading\<close>

definition is_ws :: "char \<Rightarrow> bool" where
  "is_ws c \<longleftrightarrow> c = CHR '' '' \<or> c = CHR 0x09 \<or> c = CHR 0x0A \<or> c = CHR 0x0D"

definition skip_ws :: "string \<Rightarrow> string" where
  "skip_ws s = dropWhile is_ws s"

definition hex_val :: "char \<Rightarrow> nat option" where
  "hex_val c =
     (let n = (of_char c :: nat) in
      if 48 \<le> n \<and> n \<le> 57 then Some (n - 48)
      else if 97 \<le> n \<and> n \<le> 102 then Some (n - 87)
      else if 65 \<le> n \<and> n \<le> 70 then Some (n - 55)
      else None)"

definition hex4 :: "char \<Rightarrow> char \<Rightarrow> char \<Rightarrow> char \<Rightarrow> char option" where
  "hex4 a b c d =
     (case (hex_val a, hex_val b, hex_val c, hex_val d) of
        (Some w, Some x, Some y, Some z) \<Rightarrow>
          let n = 4096 * w + 256 * x + 16 * y + z
          in Some (if n < 256 then char_of n else CHR ''?'')
      | _ \<Rightarrow> None)"

definition simple_escape :: "char \<Rightarrow> char option" where
  "simple_escape c = map_of
     [(CHR 0x22, CHR 0x22), (CHR 0x5C, CHR 0x5C), (CHR ''/'', CHR ''/''), (CHR ''b'', CHR 0x08),
      (CHR ''f'', CHR 0x0C), (CHR ''n'', CHR 0x0A), (CHR ''r'', CHR 0x0D), (CHR ''t'', CHR 0x09)] c"

text \<open>The characters of a string after its opening quote, up to the closing one.\<close>

fun read_str :: "string \<Rightarrow> (string \<times> string) option" where
  "read_str [] = None"
| "read_str (c # cs) =
     (if c = CHR 0x22 then Some ([], cs)
      else if c = CHR 0x5C then
        (case cs of
           [] \<Rightarrow> None
         | e # ds \<Rightarrow>
             if e = CHR ''u'' then
               (case ds of
                  x0 # x1 # x2 # x3 # rest \<Rightarrow>
                    (case hex4 x0 x1 x2 x3 of
                       None \<Rightarrow> None
                     | Some h \<Rightarrow> map_option (\<lambda>(s, r). (h # s, r)) (read_str rest))
                | _ \<Rightarrow> None)
             else
               (case simple_escape e of
                  None \<Rightarrow> None
                | Some h \<Rightarrow> map_option (\<lambda>(s, r). (h # s, r)) (read_str ds)))
      else if (of_char c :: nat) < 32 then None
      else map_option (\<lambda>(s, r). (c # s, r)) (read_str cs))"

text \<open>\<^verbatim>\<open>(-?(?:0|[1-9]\d*))(\.\d+)?([eE][-+]?\d+)?\<close>\<close>

definition read_frac :: "string \<Rightarrow> string \<times> string" where
  "read_frac s = (case s of c # cs \<Rightarrow>
       let ds = takeWhile is_digit cs in
       if c = CHR ''.'' \<and> ds \<noteq> [] then (c # ds, dropWhile is_digit cs) else ([], s)
     | [] \<Rightarrow> ([], []))"

definition read_exp :: "string \<Rightarrow> string \<times> string" where
  "read_exp s = (case s of c # cs \<Rightarrow>
       let (sg, us) = (case cs of d # ds \<Rightarrow> if d = CHR ''+'' \<or> d = CHR ''-'' then ([d], ds) else ([], cs) | [] \<Rightarrow> ([], []));
           ds = takeWhile is_digit us in
       if (c = CHR ''e'' \<or> c = CHR ''E'') \<and> ds \<noteq> [] then (c # sg @ ds, dropWhile is_digit us) else ([], s)
     | [] \<Rightarrow> ([], []))"

definition read_digits :: "string \<Rightarrow> (string \<times> string) option" where
  "read_digits s = (case s of
       [] \<Rightarrow> None
     | c # cs \<Rightarrow>
         if c = CHR ''0'' then Some ([c], cs)
         else if is_digit c then Some (takeWhile is_digit s, dropWhile is_digit s)
         else None)"

definition read_number :: "string \<Rightarrow> (json \<times> string) option" where
  "read_number s =
     (let neg = (s \<noteq> [] \<and> hd s = CHR ''-'') in
      case read_digits (if neg then tl s else s) of
        None \<Rightarrow> None
      | Some (ds, r) \<Rightarrow>
          let (fr, r1) = read_frac r; (ex, r2) = read_exp r1 in
          if fr = [] \<and> ex = []
          then Some (JInt (if neg then - int (digits_val ds) else int (digits_val ds)), r2)
          else Some (JFloat ((if neg then ''-'' else []) @ ds @ fr @ ex), r2))"

definition literals :: "(string \<times> json) list" where
  "literals = [(''null'', JNull), (''true'', JBool True), (''false'', JBool False),
     (''NaN'', JFloat ''nan''), (''Infinity'', JFloat ''inf''), (''-Infinity'', JFloat ''-inf'')]"

definition read_literal :: "string \<Rightarrow> (json \<times> string) option" where
  "read_literal s = (case filter (\<lambda>(w, v). startswith s w) literals of
     [] \<Rightarrow> None | (w, v) # _ \<Rightarrow> Some (v, drop (length w) s))"

text \<open>Duplicate keys of an object: the last value wins, as in a \<^verbatim>\<open>dict\<close>.\<close>

fun read_value :: "nat \<Rightarrow> string \<Rightarrow> (json \<times> string) option"
  and read_items :: "nat \<Rightarrow> string \<Rightarrow> (json list \<times> string) option"
  and read_members :: "nat \<Rightarrow> string \<Rightarrow> ((string \<times> json) list \<times> string) option" where
  "read_value 0 s = None"
| "read_value (Suc n) s =
     (case s of
        [] \<Rightarrow> None
      | c # cs \<Rightarrow>
          if c = CHR 0x22 then map_option (\<lambda>(t, r). (JStr t, r)) (read_str cs)
          else if c = CHR ''['' then
            (case skip_ws cs of
               [] \<Rightarrow> None
             | d # ds \<Rightarrow> if d = CHR '']'' then Some (JArr [], ds)
                 else map_option (\<lambda>(vs, r). (JArr vs, r)) (read_items n (d # ds)))
          else if c = CHR ''{'' then
            (case skip_ws cs of
               [] \<Rightarrow> None
             | d # ds \<Rightarrow> if d = CHR ''}'' then Some (JObj [], ds)
                 else map_option (\<lambda>(kvs, r). (JObj (obj_update [] kvs), r)) (read_members n (d # ds)))
          else (case read_literal s of Some r \<Rightarrow> Some r | None \<Rightarrow> read_number s))"
| "read_items 0 s = None"
| "read_items (Suc n) s =
     (case read_value n s of
        None \<Rightarrow> None
      | Some (v, r) \<Rightarrow>
          (case skip_ws r of
             [] \<Rightarrow> None
           | c # cs \<Rightarrow>
               if c = CHR '']'' then Some ([v], cs)
               else if c = CHR '','' then map_option (\<lambda>(vs, r'). (v # vs, r')) (read_items n (skip_ws cs))
               else None))"
| "read_members 0 s = None"
| "read_members (Suc n) s =
     (case s of
        [] \<Rightarrow> None
      | q # qs \<Rightarrow>
          if q \<noteq> CHR 0x22 then None
          else
            (case read_str qs of
               None \<Rightarrow> None
             | Some (k, r) \<Rightarrow>
                 (case skip_ws r of
                    [] \<Rightarrow> None
                  | c # cs \<Rightarrow>
                      if c \<noteq> CHR '':'' then None
                      else
                        (case read_value n (skip_ws cs) of
                           None \<Rightarrow> None
                         | Some (v, r1) \<Rightarrow>
                             (case skip_ws r1 of
                                [] \<Rightarrow> None
                              | d # ds \<Rightarrow>
                                  if d = CHR ''}'' then Some ([(k, v)], ds)
                                  else if d = CHR '','' then
                                    map_option (\<lambda>(kvs, r'). ((k, v) # kvs, r')) (read_members n (skip_ws ds))
                                  else None)))))"

definition loads :: "string \<Rightarrow> json option" where
  "loads s =
     (case read_value (2 * length s) (skip_ws s) of
        Some (v, r) \<Rightarrow> if skip_ws r = [] then Some v else None
      | None \<Rightarrow> None)"

subsection \<open>Printing\<close>

definition hexd :: "nat \<Rightarrow> char" where
  "hexd n = ''0123456789abcdef'' ! (n mod 16)"

definition esc_char :: "char \<Rightarrow> string" where
  "esc_char c =
     (let n = (of_char c :: nat) in
      if c = CHR 0x22 \<or> c = CHR 0x5C then [CHR 0x5C, c]
      else if n = 8 then [CHR 0x5C, CHR ''b'']
      else if n = 12 then [CHR 0x5C, CHR ''f'']
      else if n = 10 then [CHR 0x5C, CHR ''n'']
      else if n = 13 then [CHR 0x5C, CHR ''r'']
      else if n = 9 then [CHR 0x5C, CHR ''t'']
      else if n < 32 \<or> 126 < n then [CHR 0x5C, CHR ''u'', CHR ''0'', CHR ''0'', hexd (n div 16), hexd n]
      else [c])"

definition print_str :: "string \<Rightarrow> string" where
  "print_str s = [CHR 0x22] @ concat (map esc_char s) @ [CHR 0x22]"

text \<open>
  The printer with a layout: the white space before an item at a depth, after an opening bracket and
  before a closing one, and the separator between a key and its value.
\<close>

fun pretty :: "(nat \<Rightarrow> string) \<Rightarrow> string \<Rightarrow> nat \<Rightarrow> json \<Rightarrow> string" where
  "pretty nl colon d JNull = ''null''"
| "pretty nl colon d (JBool b) = (if b then ''true'' else ''false'')"
| "pretty nl colon d (JInt i) = int_str i"
| "pretty nl colon d (JFloat t) = t"
| "pretty nl colon d (JStr s) = print_str s"
| "pretty nl colon d (JArr vs) =
     (if vs = [] then ''[]''
      else ''['' @ nl (Suc d) @ join ('','' @ nl (Suc d)) (map (pretty nl colon (Suc d)) vs) @ nl d @ '']'')"
| "pretty nl colon d (JObj kvs) =
     (if kvs = [] then ''{}''
      else ''{'' @ nl (Suc d) @
        join ('','' @ nl (Suc d)) (map (\<lambda>(k, v). print_str k @ colon @ pretty nl colon (Suc d) v) kvs) @
        nl d @ ''}'')"

text \<open>\<^verbatim>\<open>sort_keys=True\<close>\<close>

fun sort_json :: "json \<Rightarrow> json" where
  "sort_json (JArr vs) = JArr (map sort_json vs)"
| "sort_json (JObj kvs) = JObj (sort_key fst (map (\<lambda>(k, v). (k, sort_json v)) kvs))"
| "sort_json v = v"

definition dumps_compact :: "json \<Rightarrow> string" where
  "dumps_compact v = pretty (\<lambda>_. []) '':'' 0 (sort_json v)"

definition dumps_indent2 :: "json \<Rightarrow> string" where
  "dumps_indent2 v = pretty (\<lambda>d. CHR 0x0A # replicate (2 * d) CHR '' '') '': '' 0 (sort_json v)"

subsection \<open>Reading what was printed\<close>

lemma hex_val_hexd: "hex_val (hexd n) = Some (n mod 16)"
proof -
  have "\<forall>k \<in> set [0..<16]. hex_val (''0123456789abcdef'' ! k) = Some k" by code_simp
  then show ?thesis unfolding hexd_def by simp
qed

lemma hex4_byte: "n < 256 \<Longrightarrow> hex4 CHR ''0'' CHR ''0'' (hexd (n div 16)) (hexd n) = Some (char_of n)"
proof -
  have "hex_val CHR ''0'' = Some 0" by code_simp
  moreover assume "n < 256"
  moreover from this have "n div 16 mod 16 = n div 16" by simp
  ultimately show ?thesis by (simp add: hex4_def hex_val_hexd)
qed

lemma of_char_lt [simp]: "(of_char c :: nat) < 256"
  by (cases c) (simp add: of_char_def)

lemma read_str_esc: "read_str (esc_char c @ t) = map_option (\<lambda>(s, r). (c # s, r)) (read_str t)"
proof -
  let ?n = "of_char c :: nat"
  consider "c = CHR 0x22 \<or> c = CHR 0x5C" | "?n \<in> {8, 9, 10, 12, 13}"
    | "c \<noteq> CHR 0x22" "c \<noteq> CHR 0x5C" "?n \<notin> {8, 9, 10, 12, 13}" "?n < 32 \<or> 126 < ?n"
    | "c \<noteq> CHR 0x22" "c \<noteq> CHR 0x5C" "32 \<le> ?n" "?n \<le> 126" "?n \<notin> {8, 9, 10, 12, 13}"
    by force
  then show ?thesis
  proof cases
    case 1
    then show ?thesis by (auto simp: esc_char_def simple_escape_def)
  next
    case 2
    have "c = char_of ?n" by simp
    with 2 have "c = CHR 0x08 \<or> c = CHR 0x09 \<or> c = CHR 0x0A \<or> c = CHR 0x0C \<or> c = CHR 0x0D"
      by (auto simp: char_eq_code)
    then show ?thesis by (auto simp: esc_char_def simple_escape_def)
  next
    case 3
    then have "esc_char c = [CHR 0x5C, CHR ''u'', CHR ''0'', CHR ''0'', hexd (?n div 16), hexd ?n]"
      by (auto simp: esc_char_def Let_def)
    then show ?thesis by (simp add: hex4_byte)
  next
    case 4
    then show ?thesis by (simp add: esc_char_def Let_def)
  qed
qed

lemma read_str_print: "read_str (concat (map esc_char s) @ CHR 0x22 # r) = Some (s, r)"
  by (induction s) (simp_all add: read_str_esc del: read_str.simps(2), simp)

text \<open>What may follow a number without becoming a part of it.\<close>

definition ends_number :: "string \<Rightarrow> bool" where
  "ends_number r \<longleftrightarrow> r = [] \<or> \<not> is_digit (hd r) \<and> hd r \<notin> {CHR ''.'', CHR ''e'', CHR ''E''}"

lemma ends_number_reads: "ends_number r \<Longrightarrow> read_frac r = ([], r) \<and> read_exp r = ([], r)"
  by (cases r) (auto simp: ends_number_def read_frac_def read_exp_def Let_def split: list.splits)

lemma takeWhile_digits:
  "\<forall>c \<in> set ds. is_digit c \<Longrightarrow> ends_number r \<Longrightarrow> takeWhile is_digit (ds @ r) = ds \<and> dropWhile is_digit (ds @ r) = r"
  by (cases r) (auto simp: ends_number_def takeWhile_append2 dropWhile_append2)

lemma hd_nat_str: "hd (nat_str n) = CHR ''0'' \<Longrightarrow> n = 0"
proof (induction n rule: nat_str.induct)
  case (1 n)
  show ?case
  proof (cases "n < 10")
    case True
    then have "(of_char (digit_char n) :: nat) = 48 + n" by (rule digit_char_cases)
    with True 1 show ?thesis by (simp add: nat_str.simps [of n])
  next
    case False
    with 1 show ?thesis by (simp add: nat_str.simps [of n] hd_append)
  qed
qed

lemma nat_str_0: "nat_str 0 = ''0''"
  by code_simp

lemma read_digits_nat_str: "ends_number r \<Longrightarrow> read_digits (nat_str n @ r) = Some (nat_str n, r)"
proof (cases "n = 0")
  case True
  then show ?thesis by (simp add: read_digits_def nat_str_0)
next
  assume r: "ends_number r"
  case False
  obtain c cs where c: "nat_str n = c # cs" by (cases "nat_str n") auto
  moreover from this have "c \<noteq> CHR ''0''" using False hd_nat_str [of n] by auto
  moreover have "is_digit c" using nat_str_digits [of n] c by simp
  ultimately show ?thesis
    using takeWhile_digits [OF nat_str_digits r, of n] by (simp add: read_digits_def)
qed

lemma read_number_int: "ends_number r \<Longrightarrow> read_number (int_str i @ r) = Some (JInt i, r)"
proof -
  assume r: "ends_number r"
  have "hd (nat_str n @ r) \<noteq> CHR ''-''" for n
    using nat_str_digits [of n] by (cases "nat_str n") (auto simp: is_digit_code)
  then show ?thesis
    using read_digits_nat_str [OF r] ends_number_reads [OF r]
    by (simp add: read_number_def int_str_def Let_def)
qed

lemma int_str_head:
  "\<exists>c cs. int_str i = c # cs \<and> (is_digit c \<or> c = CHR ''-'' \<and> cs \<noteq> [] \<and> is_digit (hd cs))"
proof -
  have "nat_str n \<noteq> [] \<and> is_digit (hd (nat_str n))" for n
    using nat_str_digits [of n] by (cases "nat_str n") auto
  then have "nat_str n = hd (nat_str n) # tl (nat_str n) \<and> is_digit (hd (nat_str n)) \<and> nat_str n \<noteq> []" for n
    by simp
  then show ?thesis unfolding int_str_def by (cases "i < 0") (simp, metis)
qed

lemma int_str_no_literal: "read_literal (int_str i @ r) = None"
proof -
  have Cons: "startswith (x # xs) (y # ys) \<longleftrightarrow> x = y \<and> startswith xs ys" for x y :: char and xs ys
    by (simp add: startswith_def)
  have digit: "c \<noteq> CHR ''n'' \<and> c \<noteq> CHR ''t'' \<and> c \<noteq> CHR ''f'' \<and> c \<noteq> CHR ''N'' \<and> c \<noteq> CHR ''I'' \<and> c \<noteq> CHR ''-''"
    if "is_digit c" for c
    using that by (auto simp: is_digit_code)
  obtain c cs where i: "int_str i = c # cs" and c: "is_digit c \<or> c = CHR ''-'' \<and> cs \<noteq> [] \<and> is_digit (hd cs)"
    using int_str_head by blast
  have none: "filter (\<lambda>(w, v). startswith (int_str i @ r) w) literals = []"
  proof (cases "is_digit c")
    case True
    with digit [OF True] show ?thesis unfolding i literals_def by (simp add: Cons)
  next
    case False
    then obtain d ds where "cs = d # ds" "is_digit d" "c = CHR ''-''" using c by (cases cs) auto
    with digit [of d] show ?thesis unfolding i literals_def by (simp add: Cons)
  qed
  then show ?thesis unfolding read_literal_def by simp
qed

subsection \<open>The round trip\<close>

text \<open>Documents without floating-point numbers whose objects have distinct keys.\<close>

fun json_ok :: "json \<Rightarrow> bool" where
  "json_ok (JFloat t) = False"
| "json_ok (JArr vs) = list_all json_ok vs"
| "json_ok (JObj kvs) = (distinct (map fst kvs) \<and> list_all (\<lambda>(k, v). json_ok v) kvs)"
| "json_ok v = True"

fun need :: "json \<Rightarrow> nat" where
  "need (JArr vs) = Suc (fold (\<lambda>v n. Suc (need v + n)) vs 0)"
| "need (JObj kvs) = Suc (fold (\<lambda>(k, v) n. Suc (need v + n)) kvs 0)"
| "need v = 1"

definition layout_ok :: "(nat \<Rightarrow> string) \<Rightarrow> string \<Rightarrow> bool" where
  "layout_ok nl colon \<longleftrightarrow> (\<forall>d. list_all is_ws (nl d)) \<and> (\<exists>w. colon = CHR '':'' # w \<and> list_all is_ws w)"

lemma skip_ws_append: "list_all is_ws w \<Longrightarrow> skip_ws (w @ s) = skip_ws s"
  by (simp add: skip_ws_def list_all_iff dropWhile_append2)

lemma skip_ws_id: "s = [] \<or> \<not> is_ws (hd s) \<Longrightarrow> skip_ws s = s"
  by (cases s) (auto simp: skip_ws_def)

lemma ends_number_ws: "list_all is_ws w \<Longrightarrow> r \<noteq> [] \<Longrightarrow> ends_number r \<Longrightarrow> ends_number (w @ r)"
  by (cases w) (auto simp: ends_number_def is_ws_def is_digit_code)

text \<open>The first character of a printed value is no white space and no closing bracket.\<close>

lemma pretty_head:
  "json_ok v \<Longrightarrow> \<exists>c cs. pretty nl colon d v = c # cs \<and> \<not> is_ws c \<and> c \<noteq> CHR '']'' \<and> c \<noteq> CHR ''}''"
proof (cases v)
  case (JInt i)
  then show ?thesis using int_str_head [of i] by (auto simp: is_ws_def is_digit_code)
qed (auto simp: print_str_def is_ws_def)


lemma join_Cons2: "join sep (x # xs) = x @ concat (map (\<lambda>y. sep @ y) xs)"
  by (induction xs arbitrary: x) auto

lemma fold_need: "fold (\<lambda>v n. Suc (f v + n)) vs k = k + sum_list (map (\<lambda>v. Suc (f v)) vs)"
  by (induction vs arbitrary: k) auto

locale json_layout =
  fixes nl :: "nat \<Rightarrow> string" and gap :: string
  assumes nl_ws: "list_all is_ws (nl d)" and gap_ws: "list_all is_ws gap"
begin

abbreviation render :: "nat \<Rightarrow> json \<Rightarrow> string" where
  "render \<equiv> pretty nl (CHR '':'' # gap)"

definition readable :: "json \<Rightarrow> bool" where
  "readable v \<longleftrightarrow> (\<forall>n d r. need v \<le> n \<longrightarrow> ends_number r \<longrightarrow> read_value n (render d v @ r) = Some (v, r))"

lemma skip_nl: "skip_ws (nl d @ s) = skip_ws s"
  by (rule skip_ws_append [OF nl_ws])

lemma skip_render: "json_ok v \<Longrightarrow> skip_ws (render d v @ s) = render d v @ s"
  using pretty_head [of v nl "CHR '':'' # gap" d] by (intro skip_ws_id) auto

lemma ends_after_item: "ends_number (nl d @ CHR '']'' # r)" "ends_number (nl d @ CHR ''}'' # r)"
    "ends_number ([CHR '',''] @ s)"
proof -
  have "ends_number (CHR '']'' # r)" "ends_number (CHR ''}'' # r)" by (simp_all add: ends_number_def is_digit_code)
  then show "ends_number (nl d @ CHR '']'' # r)" "ends_number (nl d @ CHR ''}'' # r)"
    by (simp_all add: ends_number_ws [OF nl_ws])
  show "ends_number ([CHR '',''] @ s)" by (simp add: ends_number_def is_digit_code)
qed

lemma read_items_render:
  assumes "\<forall>v \<in> set (v # vs). json_ok v \<and> readable v"
    and "sum_list (map (\<lambda>v. Suc (need v)) (v # vs)) \<le> n"
  shows "read_items n (join ('','' @ nl e) (map (render e) (v # vs)) @ nl d @ CHR '']'' # r) = Some (v # vs, r)"
  using assms
proof (induction vs arbitrary: v n)
  case Nil
  then obtain m where n: "n = Suc m" "need v \<le> m" by (cases n) auto
  with Nil have "read_value m (render e v @ nl d @ CHR '']'' # r) = Some (v, nl d @ CHR '']'' # r)"
    using ends_after_item unfolding readable_def by simp
  then show ?case using n by (simp add: skip_nl skip_ws_id is_ws_def)
next
  case (Cons w vs)
  then obtain m where n: "n = Suc m" "need v \<le> m" "sum_list (map (\<lambda>v. Suc (need v)) (w # vs)) \<le> m"
    by (cases n) auto
  let ?rest = "join ('','' @ nl e) (map (render e) (w # vs)) @ nl d @ CHR '']'' # r"
  have eq: "join ('','' @ nl e) (map (render e) (v # w # vs)) @ nl d @ CHR '']'' # r =
      render e v @ CHR '','' # nl e @ ?rest" by simp
  have "read_value m (render e v @ CHR '','' # nl e @ ?rest) = Some (v, CHR '','' # nl e @ ?rest)"
    using Cons.prems n ends_after_item(3) unfolding readable_def by simp
  moreover have "skip_ws (nl e @ ?rest) = ?rest"
    using skip_render [of w e] Cons.prems by (simp add: skip_nl join_Cons2)
  moreover have "read_items m ?rest = Some (w # vs, r)" using Cons n by simp
  ultimately show ?case unfolding eq using n by (simp add: skip_ws_id is_ws_def del: list.map join.simps)
qed

definition member :: "nat \<Rightarrow> string \<times> json \<Rightarrow> string" where
  "member e = (\<lambda>(k, v). print_str k @ (CHR '':'' # gap) @ render e v)"

text \<open>One member, up to what follows its value.\<close>

lemma read_member_value:
  assumes "json_ok v" "readable v" "need v \<le> m" "ends_number r"
  shows "read_value m (skip_ws (gap @ render e v @ r)) = Some (v, r)"
  using assms skip_render [of v e r] unfolding readable_def
  by (simp add: skip_ws_append [OF gap_ws])

lemma read_members_render:
  assumes "\<forall>kv \<in> set (kv # kvs). json_ok (snd kv) \<and> readable (snd kv)"
    and "sum_list (map (\<lambda>kv. Suc (need (snd kv))) (kv # kvs)) \<le> n"
  shows "read_members n (join ('','' @ nl e) (map (member e) (kv # kvs)) @ nl d @ CHR ''}'' # r) = Some (kv # kvs, r)"
  using assms
proof (induction kvs arbitrary: kv n)
  case Nil
  obtain k v where kv: "kv = (k, v)" by (cases kv)
  from Nil kv obtain m where n: "n = Suc m" "need v \<le> m" by (cases n) auto
  note rd = read_member_value [of v m "nl d @ CHR ''}'' # r" e]
  show ?case
    using Nil n rd ends_after_item(2) kv
    by (simp add: member_def print_str_def read_str_print skip_nl skip_ws_id [of "CHR '':'' # _"] skip_ws_id [of "CHR ''}'' # _"] is_ws_def
        del: read_str.simps)
next
  case (Cons w kvs)
  obtain k v where kv: "kv = (k, v)" by (cases kv)
  from Cons kv obtain m where n: "n = Suc m" "need v \<le> m" "sum_list (map (\<lambda>kv. Suc (need (snd kv))) (w # kvs)) \<le> m"
    by (cases n) auto
  let ?rest = "join ('','' @ nl e) (map (member e) (w # kvs)) @ nl d @ CHR ''}'' # r"
  have eq: "join ('','' @ nl e) (map (member e) (kv # w # kvs)) @ nl d @ CHR ''}'' # r =
      member e kv @ CHR '','' # nl e @ ?rest" by simp
  have IH: "read_members m ?rest = Some (w # kvs, r)" using Cons.IH [of w m] Cons.prems n by simp
  have sk: "skip_ws (nl e @ ?rest) = ?rest"
    by (cases w) (simp add: skip_nl join_Cons2 member_def print_str_def skip_ws_id is_ws_def)
  note rd = read_member_value [of v m "CHR '','' # nl e @ ?rest" e]
  show ?case
    unfolding eq using Cons.prems(1) n IH sk rd ends_after_item(3) [of "nl e @ ?rest"] kv
    by (simp add: member_def print_str_def read_str_print skip_ws_id [of "CHR '':'' # _"] skip_ws_id [of "CHR '','' # _"] is_ws_def
        del: read_str.simps list.map join.simps)
qed

lemma obj_update_distinct: "distinct (map fst kvs) \<Longrightarrow> obj_update [] kvs = kvs"
proof -
  have "distinct (map fst (d @ kvs)) \<Longrightarrow> fold (\<lambda>(k, v). AList.update k v) kvs d = d @ kvs" for d :: "(string \<times> json) list"
  proof (induction kvs arbitrary: d)
    case (Cons kv kvs)
    obtain k v where kv: "kv = (k, v)" by (cases kv)
    have "AList.update k v d = d @ [(k, v)]" if "k \<notin> fst ` set d" for d :: "(string \<times> json) list"
      using that by (induction d) auto
    with Cons kv show ?case by auto
  qed simp
  from this [of "[]"] show "distinct (map fst kvs) \<Longrightarrow> ?thesis" by (simp add: obj_update_def)
qed

lemma readable_all: "json_ok v \<Longrightarrow> readable v"
proof (induction v)
  case (JArr vs)
  show ?case
  proof (cases vs)
    case Nil
    then show ?thesis unfolding readable_def
      by (auto simp: skip_ws_id is_ws_def dest: Suc_le_D)
  next
    case (Cons w ws)
    have ok: "\<forall>v \<in> set (w # ws). json_ok v \<and> readable v" using JArr Cons by (auto simp: list_all_iff)
    show ?thesis unfolding readable_def
    proof (intro allI impI)
      fix n d r assume "need (JArr vs) \<le> n" "ends_number r"
      then obtain m where n: "n = Suc m" "sum_list (map (\<lambda>v. Suc (need v)) (w # ws)) \<le> m"
        by (cases n) (auto simp: Cons fold_need)
      let ?t = "join ('','' @ nl (Suc d)) (map (render (Suc d)) (w # ws)) @ nl d @ CHR '']'' # r"
      obtain c cs where c: "?t = c # cs" "\<not> is_ws c" "c \<noteq> CHR '']''"
        using pretty_head [of w nl "CHR '':'' # gap" "Suc d"] ok by (auto simp: join_Cons2)
      have "render d (JArr vs) @ r = CHR ''['' # nl (Suc d) @ ?t" by (simp add: Cons)
      moreover have "skip_ws (nl (Suc d) @ ?t) = c # cs" unfolding skip_nl c(1) using c(2) by (simp add: skip_ws_id)
      moreover have "read_items m (c # cs) = Some (w # ws, r)" using read_items_render [OF ok n(2), of "Suc d" d r] by (simp only: c(1))
      ultimately show "read_value n (render d (JArr vs) @ r) = Some (JArr vs, r)"
        using n(1) c(3) Cons by (simp del: list.map join.simps pretty.simps)
    qed
  qed
next
  case (JObj kvs)
  show ?case
  proof (cases kvs)
    case Nil
    then show ?thesis unfolding readable_def
      by (auto simp: skip_ws_id is_ws_def dest: Suc_le_D)
  next
    case (Cons w ws)
    have ok: "\<forall>kv \<in> set (w # ws). json_ok (snd kv) \<and> readable (snd kv)"
      using JObj Cons by (fastforce simp: list_all_iff)
    show ?thesis unfolding readable_def
    proof (intro allI impI)
      fix n d r assume "need (JObj kvs) \<le> n" "ends_number r"
      then obtain m where n: "n = Suc m" "sum_list (map (\<lambda>kv. Suc (need (snd kv))) (w # ws)) \<le> m"
        by (cases n) (auto simp: Cons fold_need case_prod_unfold)
      let ?t = "join ('','' @ nl (Suc d)) (map (member (Suc d)) (w # ws)) @ nl d @ CHR ''}'' # r"
      obtain c cs where c: "?t = c # cs" "\<not> is_ws c" "c \<noteq> CHR ''}''"
        by (cases w) (auto simp: join_Cons2 member_def print_str_def is_ws_def)
      have "render d (JObj kvs) @ r = CHR ''{'' # nl (Suc d) @ ?t" by (simp add: Cons member_def)
      moreover have "skip_ws (nl (Suc d) @ ?t) = c # cs" unfolding skip_nl c(1) using c(2) by (simp add: skip_ws_id)
      moreover have "read_members m (c # cs) = Some (w # ws, r)" using read_members_render [OF ok n(2), of "Suc d" d r] by (simp only: c(1))
      ultimately show "read_value n (render d (JObj kvs) @ r) = Some (JObj kvs, r)"
        using n(1) c(3) JObj.prems Cons obj_update_distinct [of kvs]
        by (simp del: list.map join.simps pretty.simps)
    qed
  qed
next
  case (JInt i)
  show ?case unfolding readable_def
  proof (intro allI impI)
    fix n d r assume "need (JInt i) \<le> n" "ends_number r"
    obtain m where "n = Suc m" using \<open>need (JInt i) \<le> n\<close> by (cases n) auto
    moreover obtain c cs where c: "int_str i = c # cs" "is_digit c \<or> c = CHR ''-''"
      using int_str_head [of i] by blast
    moreover from c(2) have "c \<noteq> CHR 0x22" "c \<noteq> CHR ''[''" "c \<noteq> CHR ''{''" by (auto simp: is_digit_code)
    ultimately show "read_value n (render d (JInt i) @ r) = Some (JInt i, r)"
      using read_number_int [OF \<open>ends_number r\<close>, of i] int_str_no_literal [of i r] by simp
  qed
next
  case (JStr s)
  show ?case unfolding readable_def
    by (auto simp: print_str_def read_str_print simp del: read_str.simps dest!: Suc_le_D)
qed (auto simp: readable_def read_literal_def literals_def startswith_def dest!: Suc_le_D)

lemma join_length: "xs \<noteq> [] \<Longrightarrow> sum_list (map length xs) + (length xs - 1) \<le> length (join (CHR '','' # w) xs)"
  by (induction xs rule: induct_list012) auto

lemma sum_need_le:
  assumes "\<forall>x \<in> set xs. f x \<le> length (g x)"
  shows "sum_list (map (\<lambda>x. Suc (f x)) xs) \<le> sum_list (map length (map g xs)) + length xs"
  using assms by (induction xs) auto

lemma need_length: "json_ok v \<Longrightarrow> need v \<le> length (render d v)"
proof (induction v arbitrary: d)
  case (JArr vs)
  show ?case
  proof (cases "vs = []")
    case False
    have "\<forall>v \<in> set vs. need v \<le> length (render (Suc d) v)" using JArr by (auto simp: list_all_iff)
    from sum_need_le [OF this] join_length [of "map (render (Suc d)) vs" "nl (Suc d)"] False
    show ?thesis by (simp add: fold_need)
  qed simp
next
  case (JObj kvs)
  show ?case
  proof (cases "kvs = []")
    case False
    have "need (snd kv) \<le> length (member (Suc d) kv)" if "kv \<in> set kvs" for kv
    proof -
      obtain k v where kv: "kv = (k, v)" by (cases kv)
      then have "need v \<le> length (render (Suc d) v)"
        using JObj.IH [of kv v "Suc d"] JObj.prems that by (auto simp: list_all_iff)
      then show ?thesis by (simp add: kv member_def)
    qed
    from sum_need_le [of kvs "\<lambda>kv. need (snd kv)" "member (Suc d)"] this
      join_length [of "map (member (Suc d)) kvs" "nl (Suc d)"] False
    show ?thesis by (simp add: fold_need case_prod_unfold member_def)
  qed simp
next
  case (JInt i)
  then show ?case using int_str_head [of i] by auto
qed (auto simp: print_str_def)

lemma loads_render:
  assumes "json_ok v" "list_all is_ws w"
  shows "loads (render 0 v @ w) = Some v"
proof -
  have "skip_ws w = []" using assms(2) by (simp add: skip_ws_def list_all_iff dropWhile_eq_Nil_conv)
  moreover have "ends_number w" using ends_number_ws [OF assms(2), of "'']''"] assms(2)
    by (cases w) (auto simp: ends_number_def is_ws_def is_digit_code)
  moreover have "need v \<le> 2 * length (render 0 v @ w)" using need_length [OF assms(1), of 0] by simp
  ultimately have "read_value (2 * length (render 0 v @ w)) (render 0 v @ w) = Some (v, w)"
    using readable_all [OF assms(1)] unfolding readable_def by blast
  then show ?thesis unfolding loads_def skip_render [OF assms(1)] using \<open>skip_ws w = []\<close> by simp
qed

end

definition indent2 :: "nat \<Rightarrow> string" where
  "indent2 d = CHR 0x0A # replicate (2 * d) CHR '' ''"

interpretation compact_layout: json_layout "\<lambda>_. []" "[]"
  by unfold_locales simp_all

interpretation indented_layout: json_layout indent2 "'' ''"
  by unfold_locales (simp_all add: indent2_def is_ws_def list_all_iff)

lemma sort_json_ok: "json_ok v \<Longrightarrow> json_ok (sort_json v)"
proof (induction v)
  case (JObj kvs)
  let ?f = "\<lambda>(k, v). (k, sort_json v)"
  have keys: "map fst (map ?f kvs) = map fst kvs" by auto
  have "distinct (map fst (map ?f kvs))" unfolding keys using JObj.prems by simp
  then have "distinct (map fst (sort_key fst (map ?f kvs)))"
    by (simp add: distinct_map inj_on_def del: map_map)
  with JObj show ?case by (fastforce simp: list_all_iff)
qed (auto simp: list_all_iff)

lemma loads_dumps_compact: "json_ok v \<Longrightarrow> loads (dumps_compact v) = Some (sort_json v)"
  using compact_layout.loads_render [OF sort_json_ok, of v "[]"] by (simp add: dumps_compact_def)

lemma loads_dumps_indent2: "json_ok v \<Longrightarrow> loads (dumps_indent2 v @ [CHR 0x0A]) = Some (sort_json v)"
  using indented_layout.loads_render [OF sort_json_ok, of v "[CHR 0x0A]"]
  by (simp add: dumps_indent2_def indent2_def [abs_def] is_ws_def)

end
