(* ===== verification/FileSystem.thy ===== *)
theory FileSystem
  imports Prelude
begin

section \<open>Files\<close>

text \<open>
  The file system the registry, the configuration and the heartbeat use, as explicit state: the files
  with their texts, and the \<^verbatim>\<open>OSError\<close> that reading, writing or replacing a file raises at the moment,
  if any.  Directories are not modelled, so \<^verbatim>\<open>mkdir(parents=True, exist_ok=True)\<close> shares the fault of
  the write that follows it.  A file that is not valid UTF-8 has no text and is left out.
\<close>

record file_system =
  fs_files :: "(string \<times> string) list"
  fs_read_fault :: "string option"
  fs_write_fault :: "string option"
  fs_replace_fault :: "string option"

definition fs_exists :: "file_system \<Rightarrow> string \<Rightarrow> bool" where
  "fs_exists fs p \<longleftrightarrow> p \<in> set (map fst (fs_files fs))"

definition fs_read :: "string \<Rightarrow> file_system \<Rightarrow> string result" where
  "fs_read p fs = (case fs_read_fault fs of
     Some e \<Rightarrow> Inl (OSError e)
   | None \<Rightarrow> (case map_of (fs_files fs) p of
       None \<Rightarrow> Inl (OSError ''No such file or directory'')
     | Some t \<Rightarrow> Inr t))"

definition fs_write :: "string \<Rightarrow> string \<Rightarrow> file_system \<Rightarrow> unit result \<times> file_system" where
  "fs_write p t fs = (case fs_write_fault fs of
     Some e \<Rightarrow> (Inl (OSError e), fs)
   | None \<Rightarrow> (Inr (), fs\<lparr>fs_files := AList.update p t (fs_files fs)\<rparr>))"

definition os_replace :: "string \<Rightarrow> string \<Rightarrow> file_system \<Rightarrow> unit result \<times> file_system" where
  "os_replace p q fs = (case fs_replace_fault fs of
     Some e \<Rightarrow> (Inl (OSError e), fs)
   | None \<Rightarrow> (case map_of (fs_files fs) p of
       None \<Rightarrow> (Inl (OSError ''No such file or directory''), fs)
     | Some t \<Rightarrow> (Inr (), fs\<lparr>fs_files := AList.update q t (AList.delete p (fs_files fs))\<rparr>)))"

text \<open>Both writers of the source write a temporary file and rename it over the target.\<close>

lemma write_then_replace:
  assumes "fs_write_fault fs = None" "fs_replace_fault fs = None"
  shows "\<exists>fs'. fs_write tmp t fs = (Inr (), fs') \<and>
    os_replace tmp p fs' = (Inr (), fs\<lparr>fs_files := AList.update p t (AList.delete tmp (AList.update tmp t (fs_files fs)))\<rparr>)"
  using assms by (simp add: fs_write_def os_replace_def)

lemma replaced_file:
  "map_of (AList.update p t (AList.delete tmp (AList.update tmp t fs))) p = Some t"
  "q \<noteq> p \<Longrightarrow> map_of (AList.update p t (AList.delete tmp (AList.update tmp t fs))) q = (if q = tmp then None else map_of fs q)"
  by (simp_all add: delete_conv' map_of_delete)

end
