(* ===== verification/DiscoveryRegistry.thy ===== *)
theory DiscoveryRegistry
  imports Models JsonText FileSystem
begin

section \<open>The discovery registry (\<^verbatim>\<open>discovery_registry.py\<close>)\<close>

text \<open>
  The registry file remembers the discovery topics published before.  \<open>stamp\<close> is the text of \<^verbatim>\<open>time.strftime\<close>.
\<close>

subsection \<open>Definitions\<close>

definition REGISTRY_VERSION :: int where "REGISTRY_VERSION = 1"

text \<open>\<^verbatim>\<open>value == 1\<close>: in Python \<^verbatim>\<open>True\<close> and \<^verbatim>\<open>1.0\<close> equal \<^verbatim>\<open>1\<close> too.\<close>

fun is_registry_version :: "json \<Rightarrow> bool" where
  "is_registry_version (JInt i) \<longleftrightarrow> i = REGISTRY_VERSION"
| "is_registry_version (JBool b) \<longleftrightarrow> b"
| "is_registry_version (JFloat t) \<longleftrightarrow> startswith t ''1.'' \<and> list_all (\<lambda>c. c = CHR ''0'') (drop 2 t)"
| "is_registry_version _ \<longleftrightarrow> False"

definition registry_error :: "string \<Rightarrow> string \<Rightarrow> exn" where
  "registry_error p msg = DiscoveryRegistryError (''Discovery registry '' @ p @ msg)"

fun parse_topic_entries :: "string \<Rightarrow> json list \<Rightarrow> string list result" where
  "parse_topic_entries p [] = Inr []"
| "parse_topic_entries p (entry # entries) =
     (if \<not> is_JObj entry then Inl (registry_error p '' topic entries must be objects.'')
      else (case obj_get (obj_fields entry) ''topic'' of
              JStr topic \<Rightarrow>
                if strip topic = [] then Inl (registry_error p '' topic values must be strings.'')
                else rbind (parse_topic_entries p entries) (\<lambda>ts. Inr (strip topic # ts))
            | _ \<Rightarrow> Inl (registry_error p '' topic values must be strings.'')))"

definition parse_registry_data :: "string \<Rightarrow> json \<Rightarrow> string set result" where
  "parse_registry_data p data =
     (case data of
        JObj kvs \<Rightarrow>
          if \<not> is_registry_version (obj_get kvs ''version'')
          then Inl (registry_error p '' has unsupported version.'')
          else (case obj_get kvs ''topics'' of
                  JArr topics \<Rightarrow> rbind (parse_topic_entries p topics) (\<lambda>ts. Inr (set ts))
                | _ \<Rightarrow> Inl (registry_error p '' must contain a topics list.''))
      | _ \<Rightarrow> Inl (registry_error p '' must contain a JSON object.''))"

text \<open>The names tried for the quarantined file, and the loop that looks for a free one.\<close>

definition quarantine_name :: "string \<Rightarrow> string \<Rightarrow> nat \<Rightarrow> string" where
  "quarantine_name p stamp k =
     p @ ''.invalid.'' @ stamp @ (if k = 0 then [] else CHR ''.'' # nat_str k)"

fun free_name :: "nat \<Rightarrow> file_system \<Rightarrow> string \<Rightarrow> string \<Rightarrow> nat \<Rightarrow> string option" where
  "free_name 0 fs p stamp k = None"
| "free_name (Suc n) fs p stamp k =
     (if fs_exists fs (quarantine_name p stamp k) then free_name n fs p stamp (Suc k)
      else Some (quarantine_name p stamp k))"

definition quarantine_target :: "file_system \<Rightarrow> string \<Rightarrow> string \<Rightarrow> string option" where
  "quarantine_target fs p stamp = free_name (Suc (length (fs_files fs))) fs p stamp 0"

definition quarantine_invalid_file :: "string \<Rightarrow> string \<Rightarrow> file_system \<Rightarrow> unit result \<times> file_system" where
  "quarantine_invalid_file p stamp fs =
     (case quarantine_target fs p stamp of
        None \<Rightarrow> (Inl (registry_error p '' cannot be quarantined''), fs)
      | Some q \<Rightarrow>
          (case os_replace p q fs of
             (Inl e, fs') \<Rightarrow>
               (Inl (DiscoveryRegistryError (''Could not quarantine invalid discovery registry '' @ p @ '': '' @ exn_text e)), fs')
           | (Inr _, fs') \<Rightarrow> (Inr (), fs')))"

definition registry_load :: "string \<Rightarrow> string \<Rightarrow> file_system \<Rightarrow> string set result \<times> file_system" where
  "registry_load p stamp fs =
     (case map_of (fs_files fs) p of
        None \<Rightarrow> (Inr {}, fs)
      | Some raw \<Rightarrow>
          (case fs_read_fault fs of
             Some e \<Rightarrow> (Inl (DiscoveryRegistryError (''Could not load discovery registry '' @ p @ '': '' @ e)), fs)
           | None \<Rightarrow>
               (case (case loads raw of None \<Rightarrow> Inl (ValueError ''JSONDecodeError'') | Some data \<Rightarrow> parse_registry_data p data) of
                  Inr ts \<Rightarrow> (Inr ts, fs)
                | Inl _ \<Rightarrow>
                    (case quarantine_invalid_file p stamp fs of
                       (Inl e, fs') \<Rightarrow> (Inl e, fs')
                     | (Inr _, fs') \<Rightarrow> (Inr {}, fs')))))"

definition registry_payload :: "string list \<Rightarrow> json" where
  "registry_payload topics =
     JObj [(''version'', JInt REGISTRY_VERSION),
           (''topics'', JArr (map (\<lambda>t. JObj [(''topic'', JStr t)])
              (sort (map strip (filter (\<lambda>t. strip t \<noteq> []) (remdups topics))))))]"

definition registry_save :: "string \<Rightarrow> string list \<Rightarrow> file_system \<Rightarrow> unit result \<times> file_system" where
  "registry_save p topics fs =
     (let tmp = p @ ''.tmp'';
          failed = (\<lambda>e. Inl (DiscoveryRegistryError (''Could not save discovery registry '' @ p @ '': '' @ exn_text e))) in
      case fs_write tmp (dumps_indent2 (registry_payload topics) @ [CHR 0x0A]) fs of
        (Inl e, fs') \<Rightarrow> (failed e, fs')
      | (Inr _, fs') \<Rightarrow>
          (case os_replace tmp p fs' of
             (Inl e, fs'') \<Rightarrow> (failed e, fs'')
           | (Inr _, fs'') \<Rightarrow> (Inr (), fs'')))"

definition registry_create_if_missing :: "string \<Rightarrow> file_system \<Rightarrow> bool result \<times> file_system" where
  "registry_create_if_missing p fs =
     (if fs_exists fs p then (Inr False, fs)
      else case registry_save p [] fs of
        (Inl e, fs') \<Rightarrow> (Inl e, fs')
      | (Inr _, fs') \<Rightarrow> (Inr True, fs'))"

subsection \<open>Quarantine\<close>

lemma quarantine_name_inj: "quarantine_name p stamp i = quarantine_name p stamp j \<longleftrightarrow> i = j"
  by (auto simp: quarantine_name_def nat_str_inj)

lemma free_name_None:
  "free_name n fs p stamp k = None \<Longrightarrow> \<forall>i < n. fs_exists fs (quarantine_name p stamp (k + i))"
proof (induction n arbitrary: k)
  case (Suc n)
  then have "fs_exists fs (quarantine_name p stamp k)" "free_name n fs p stamp (Suc k) = None"
    by (auto split: if_splits)
  with Suc.IH [of "Suc k"] show ?case using less_Suc_eq_0_disj by auto
qed simp

lemma free_name_Some:
  "free_name n fs p stamp k = Some q \<Longrightarrow> \<not> fs_exists fs q \<and> (\<exists>i. q = quarantine_name p stamp i)"
  by (induction n arbitrary: k) (auto split: if_splits)

text \<open>The loop ends: among one name more than there are files, one is free.\<close>

lemma quarantine_target_found: "\<exists>q. quarantine_target fs p stamp = Some q \<and> \<not> fs_exists fs q \<and> q \<noteq> p"
proof (cases "quarantine_target fs p stamp")
  case None
  let ?n = "Suc (length (fs_files fs))"
  have sub: "quarantine_name p stamp ` {..<?n} \<subseteq> set (map fst (fs_files fs))"
    using free_name_None [OF None [unfolded quarantine_target_def]] by (auto simp: fs_exists_def)
  have "?n = card (quarantine_name p stamp ` {..<?n})"
    by (simp add: card_image inj_on_def quarantine_name_inj)
  also have "\<dots> \<le> card (set (map fst (fs_files fs)))" using sub by (intro card_mono) auto
  also have "\<dots> \<le> length (fs_files fs)" using card_length [of "map fst (fs_files fs)"] by simp
  finally show ?thesis by simp
next
  case (Some q)
  then show ?thesis
    using free_name_Some [OF Some [unfolded quarantine_target_def]] by (auto simp: quarantine_name_def)
qed


definition demo_fs :: "(string \<times> string) list \<Rightarrow> file_system" where
  "demo_fs files = \<lparr>fs_files = files, fs_read_fault = None, fs_write_fault = None, fs_replace_fault = None\<rparr>"


subsection \<open>Saving and loading\<close>

lemma parse_topic_entries_map:
  "\<forall>t \<in> set ts. strip t = t \<and> t \<noteq> [] \<Longrightarrow>
   parse_topic_entries p (map (\<lambda>t. JObj [(''topic'', JStr t)]) ts) = Inr ts"
  by (induction ts) (auto simp: obj_get_def)

lemma registry_payload_parsed:
  "json_ok (registry_payload topics)"
  "parse_registry_data p (sort_json (registry_payload topics)) = Inr (strip ` {t \<in> set topics. strip t \<noteq> []})"
proof -
  let ?ts = "sort (map strip (filter (\<lambda>t. strip t \<noteq> []) (remdups topics)))"
  show "json_ok (registry_payload topics)" by (simp add: registry_payload_def list_all_iff)
  have keys: "\<not> ''version'' \<le> (''topics'' :: string)" "''topics'' \<le> (''version'' :: string)" by code_simp+
  have sorted: "sort_json (registry_payload topics) =
     JObj [(''topics'', JArr (map (\<lambda>t. JObj [(''topic'', JStr t)]) ?ts)), (''version'', JInt 1)]"
  proof -
    have two: "sort_key fst [x, y] = (if fst x \<le> fst y then [x, y] else [y, x])" for x y :: "string \<times> json"
      by (simp add: sort_key_def)
    have one: "sort_json \<circ> (\<lambda>t. JObj [(''topic'', JStr t)]) = (\<lambda>t. JObj [(''topic'', JStr t)])"
      by (simp add: fun_eq_iff)
    show ?thesis
      unfolding registry_payload_def sort_json.simps list.map prod.case two fst_conv map_map one
      using keys by (simp only: REGISTRY_VERSION_def if_False)
  qed
  have entries: "parse_topic_entries p (map (\<lambda>t. JObj [(''topic'', JStr t)]) ?ts) = Inr ?ts"
    by (rule parse_topic_entries_map) auto
  have "set ?ts = strip ` {t \<in> set topics. strip t \<noteq> []}" by auto
  with entries show "parse_registry_data p (sort_json (registry_payload topics)) =
      Inr (strip ` {t \<in> set topics. strip t \<noteq> []})"
    unfolding sorted by (simp only: parse_registry_data_def json.case obj_get_def) (simp add: REGISTRY_VERSION_def)
qed

text \<open>
  C25. A successful save followed by a load, through the JSON text of the file, gives exactly the saved
  topics without surrounding white space and without blank ones.  A save that fails while writing the
  temporary file or while replacing the registry leaves the old registry as it was.
\<close>

theorem registry_save_load:
  assumes "distinct (map fst (fs_files fs))" "fs_read_fault fs = None"
  shows "case registry_save p topics fs of
      (Inr _, fs') \<Rightarrow> fst (registry_load p stamp fs') = Inr (strip ` {t \<in> set topics. strip t \<noteq> []})
    | (Inl _, fs') \<Rightarrow> map_of (fs_files fs') p = map_of (fs_files fs) p"
proof -
  let ?text = "dumps_indent2 (registry_payload topics) @ [CHR 0x0A]"
  have ne: "p @ ''.tmp'' \<noteq> p" by simp
  have rd: "loads ?text = Some (sort_json (registry_payload topics))"
    by (rule loads_dumps_indent2 [OF registry_payload_parsed(1)])
  show ?thesis
    using assms(2) ne
    by (auto simp: registry_save_def fs_write_def os_replace_def Let_def registry_load_def rd
        registry_payload_parsed(2) split: option.splits)
qed

theorem registry_save_load_witness:
  "fst (registry_load ''r.json'' ''now'' (snd (registry_save ''r.json'' ['' b'', ''a'', '' ''] (demo_fs [])))) = Inr {''a'', ''b''}"
proof -
  have h: "distinct (map fst (fs_files (demo_fs [])))" "fs_read_fault (demo_fs []) = None" by code_simp+
  have s: "fst (registry_save ''r.json'' ['' b'', ''a'', '' ''] (demo_fs [])) = Inr ()" by code_simp
  have "strip ` {t \<in> set ['' b'', ''a'', '' '']. strip t \<noteq> []} = {''a'', ''b''}" by code_simp
  with registry_save_load [OF h, of "''r.json''" "''now''" "['' b'', ''a'', '' '']"] s show ?thesis
    by (auto split: prod.splits sum.splits)
qed

end
