(* ===== verification/PyNum.thy ===== *)
theory PyNum
  imports Prelude
begin

section \<open>\<^verbatim>\<open>int(text)\<close> and \<^verbatim>\<open>float(text)\<close>\<close>

text \<open>
  The numbers the configuration reads from texts.  White space around a number is ignored, digits may
  be grouped by single underscores, and \<^verbatim>\<open>int\<close> refuses more than 4300 digits.  A float is represented
  by the number its text denotes; the source only asks whether it is at most zero, which for a
  positive decimal means that it underflows: it is at most half the smallest subnormal number,
  \<open>2\<^sup>-\<^sup>1\<^sup>0\<^sup>7\<^sup>5\<close>.
\<close>

definition digitpart :: "string \<Rightarrow> string option" where
  "digitpart s =
     (let groups = split_on CHR ''_'' s in
      if list_all (\<lambda>g. g \<noteq> [] \<and> list_all is_digit g) groups then Some (concat groups) else None)"

definition sign_of :: "string \<Rightarrow> bool \<times> string" where
  "sign_of s = (case s of
     [] \<Rightarrow> (False, [])
   | c # t \<Rightarrow> if c = CHR ''-'' then (True, t) else if c = CHR ''+'' then (False, t) else (False, s))"

definition signed :: "bool \<Rightarrow> nat \<Rightarrow> int" where
  "signed neg n = (if neg then - int n else int n)"

definition py_int :: "string \<Rightarrow> int option" where
  "py_int s =
     (let (neg, t) = sign_of (strip s) in
      case digitpart t of
        None \<Rightarrow> None
      | Some ds \<Rightarrow> if length ds > 4300 then None else Some (signed neg (digits_val ds)))"

datatype py_float = Decimal bool nat int | Infinite bool | NaN

definition py_mantissa :: "string \<Rightarrow> (string \<times> string) option" where
  "py_mantissa m =
     (let part = (\<lambda>s. if s = [] then Some [] else digitpart s) in
      case split_on CHR ''.'' m of
        [i] \<Rightarrow> (case digitpart i of None \<Rightarrow> None | Some i \<Rightarrow> Some (i, []))
      | [i, f] \<Rightarrow>
          (if i = [] \<and> f = [] then None
           else case (part i, part f) of (Some i, Some f) \<Rightarrow> Some (i, f) | _ \<Rightarrow> None)
      | _ \<Rightarrow> None)"

definition py_exponent :: "string \<Rightarrow> int option" where
  "py_exponent x =
     (let (neg, t) = sign_of x in
      case digitpart t of None \<Rightarrow> None | Some ds \<Rightarrow> Some (signed neg (digits_val ds)))"

definition py_float_of :: "string \<Rightarrow> py_float option" where
  "py_float_of s =
     (let (neg, t) = sign_of (lower (strip s)) in
      if t = ''inf'' \<or> t = ''infinity'' then Some (Infinite neg)
      else if t = ''nan'' then Some NaN
      else
        (case split_on CHR ''e'' t of
           [m] \<Rightarrow> (case py_mantissa m of
                     None \<Rightarrow> None
                   | Some (i, f) \<Rightarrow> Some (Decimal neg (digits_val (i @ f)) (- int (length f))))
         | [m, x] \<Rightarrow> (case (py_mantissa m, py_exponent x) of
                     (Some (i, f), Some e) \<Rightarrow> Some (Decimal neg (digits_val (i @ f)) (e - int (length f)))
                   | _ \<Rightarrow> None)
         | _ \<Rightarrow> None))"

fun float_le_zero :: "py_float \<Rightarrow> bool" where
  "float_le_zero (Decimal neg m e) \<longleftrightarrow>
     neg \<or> m = 0 \<or> (e < 0 \<and> m * 2 ^ 1075 \<le> 10 ^ nat (- e))"
| "float_le_zero (Infinite neg) \<longleftrightarrow> neg"
| "float_le_zero NaN \<longleftrightarrow> False"

text \<open>The text of an integer is read back.\<close>

lemma digitpart_nat_str: "digitpart (nat_str n) = Some (nat_str n)"
proof -
  have "\<not> is_digit CHR ''_''" by code_simp
  then have "CHR ''_'' \<notin> set (nat_str n)" using nat_str_digits [of n] by blast
  moreover have "list_all is_digit (nat_str n)" using nat_str_digits [of n] by (simp add: list_all_iff)
  ultimately show ?thesis by (simp add: digitpart_def split_on_none)
qed

lemma py_int_nat_str:
  assumes "length (nat_str n) \<le> 4300"
  shows "py_int (nat_str n) = Some (int n)"
proof -
  have d: "is_digit c" if "c \<in> set (nat_str n)" for c using that nat_str_digits by blast
  have "strip (nat_str n) = nat_str n" using d by (intro strip_no_space) (auto dest: digit_not_space)
  moreover have "sign_of (nat_str n) = (False, nat_str n)"
  proof (cases "nat_str n")
    case (Cons c t)
    have "\<not> is_digit CHR ''-''" "\<not> is_digit CHR ''+''" by code_simp+
    then have "c \<noteq> CHR ''-''" "c \<noteq> CHR ''+''" using d [of c] Cons by auto
    then show ?thesis unfolding Cons by (simp add: sign_of_def)
  qed simp
  ultimately show ?thesis using assms by (simp add: py_int_def digitpart_nat_str signed_def)
qed

lemma nat_str_short: "n < 10000 \<Longrightarrow> length (nat_str n) \<le> 4"
proof -
  have step: "length (nat_str m) \<le> Suc k" if "m div 10 = 0 \<or> length (nat_str (m div 10)) \<le> k" for m k
    using that by (subst nat_str.simps) auto
  assume "n < 10000"
  then have "n div 10 div 10 div 10 div 10 = 0" by simp
  then have "length (nat_str (n div 10 div 10 div 10)) \<le> Suc 0" by (intro step) blast
  then have "length (nat_str (n div 10 div 10)) \<le> Suc (Suc 0)" by (intro step) blast
  then have "length (nat_str (n div 10)) \<le> Suc (Suc (Suc 0))" by (intro step) blast
  then have "length (nat_str n) \<le> Suc (Suc (Suc (Suc 0)))" by (intro step) blast
  then show ?thesis by simp
qed

lemma py_int_small:
  assumes "0 \<le> i" "i < 10000"
  shows "py_int (strip (int_str i)) = Some i"
proof -
  have "length (nat_str (nat i)) \<le> 4" using assms by (intro nat_str_short) simp
  moreover have "strip (nat_str (nat i)) = nat_str (nat i)"
    using nat_str_digits by (intro strip_no_space) (auto dest: digit_not_space)
  ultimately show ?thesis using assms py_int_nat_str [of "nat i"] by (simp add: int_str_def)
qed

end
