(* ===== verification/ConfigDevices.thy ===== *)
theory ConfigDevices
  imports DeviceRegistry Topics PyNum PyStr
begin

section \<open>Configured devices and house codes (\<^verbatim>\<open>config.py\<close>, device parsing)\<close>

text \<open>
  The readers of the device list (the text \<^verbatim>\<open>X10_DEVICES\<close> and the three forms of the file field
  \<^verbatim>\<open>devices\<close>) and of \<^verbatim>\<open>X10_HOUSECODES\<close>.  A value of the file is a JSON value, whose \<^verbatim>\<open>str\<close> is \<open>py_str\<close>.
  The dictionary of devices is an association list in insertion order.
\<close>

subsection \<open>Definitions\<close>

definition DEFAULT_COMMAND_REPEATS :: int where "DEFAULT_COMMAND_REPEATS = 1"
definition DEFAULT_COMMAND_REPEAT_DELAY_MS :: int where "DEFAULT_COMMAND_REPEAT_DELAY_MS = 150"
definition MAX_COMMAND_REPEATS :: int where "MAX_COMMAND_REPEATS = 5"
definition MAX_COMMAND_REPEAT_DELAY_MS :: int where "MAX_COMMAND_REPEAT_DELAY_MS = 5000"

definition DEVICE_RE :: rx where
  "DEVICE_RE = Cat (Cls (\<lambda>c. chr_range CHR ''A'' CHR ''P'' c \<or> chr_range CHR ''a'' CHR ''p'' c)) (Cat unit_rx Eol)"

definition HOUSE_CODE_RE :: rx where
  "HOUSE_CODE_RE = Cat (Cls (\<lambda>c. chr_range CHR ''A'' CHR ''P'' c \<or> chr_range CHR ''a'' CHR ''p'' c)) Eol"

definition cfg_normalize_address :: "string \<Rightarrow> string result" where
  "cfg_normalize_address a =
     (let address = canon a in
      if re_fullmatch DEVICE_RE address = None
      then Inl (ConfigError (''Invalid X10 address '' @ quoted address @ ''.''))
      else Inr address)"

definition parse_device_type :: "string \<Rightarrow> device_type result" where
  "parse_device_type value =
     (let value = lower (strip value) in
      if value = ''light'' then Inr LIGHT
      else if value = ''switch'' then Inr SWITCH
      else if value = ''chime'' then Inr CHIME
      else Inl (ConfigError (''Unknown device type '' @ quoted value @ ''.'')))"

text \<open>\<^verbatim>\<open>except ValueError as exc: raise ConfigError(str(exc))\<close>, with the subclasses of \<^verbatim>\<open>ValueError\<close>.\<close>

fun config_error :: "exn \<Rightarrow> exn" where
  "config_error (ValueError s) = ConfigError s"
| "config_error (TopicError s) = ConfigError s"
| "config_error (DiscoveryError s) = ConfigError s"
| "config_error e = e"

definition or_config_error :: "'a result \<Rightarrow> 'a result" where
  "or_config_error r = (case r of Inl e \<Rightarrow> Inl (config_error e) | Inr a \<Rightarrow> Inr a)"

definition parse_device_type_and_profile :: "string \<Rightarrow> (device_type \<times> string option) result" where
  "parse_device_type_and_profile value =
     (let normalized = lower (strip value) in
      if normalized \<in> profile_ids
      then rbind (or_config_error (get_profile normalized)) (\<lambda>p.
             Inr (dp_entity_type p, Some (dp_profile_id p)))
      else rbind (parse_device_type value) (\<lambda>ty. Inr (ty, None)))"

definition display_name :: "address \<Rightarrow> string option \<Rightarrow> bool \<Rightarrow> string" where
  "display_name a name use_friendly_names =
     (if \<not> use_friendly_names then a
      else case name of
        None \<Rightarrow> a
      | Some n \<Rightarrow> if strip n \<noteq> [] then strip n else a)"

definition parse_bounded_int :: "json \<Rightarrow> string \<Rightarrow> int \<Rightarrow> int \<Rightarrow> int result" where
  "parse_bounded_int value field_name lo hi =
     (case py_int (strip (py_str value)) of
        None \<Rightarrow> Inl (ConfigError (field_name @ '' must be an integer. Got '' @ quoted (py_str value) @ ''.''))
      | Some parsed \<Rightarrow>
          if parsed < lo \<or> hi < parsed
          then Inl (ConfigError (field_name @ '' must be between '' @ int_str lo @ '' and '' @ int_str hi @
                 ''. Got '' @ quoted (py_str value) @ ''.''))
          else Inr parsed)"

definition parse_command_repeats :: "json \<Rightarrow> int result" where
  "parse_command_repeats value = parse_bounded_int value ''command_repeats'' 1 MAX_COMMAND_REPEATS"

definition parse_command_repeat_delay_ms :: "json \<Rightarrow> int result" where
  "parse_command_repeat_delay_ms value =
     parse_bounded_int value ''command_repeat_delay_ms'' 0 MAX_COMMAND_REPEAT_DELAY_MS"

definition base_device :: "address \<Rightarrow> string \<Rightarrow> device_type \<Rightarrow> int \<Rightarrow> int \<Rightarrow> device_config" where
  "base_device a name ty r d =
     post_init ((device_config_defaults a name)\<lparr>dc_entity_type := ty,
       dc_command_repeats := r, dc_command_repeat_delay_ms := d\<rparr>)"

definition cfg_device ::
  "address \<Rightarrow> string \<Rightarrow> device_type \<Rightarrow> json \<Rightarrow> json \<Rightarrow> string option \<Rightarrow> device_config result" where
  "cfg_device a name ty repeats delay prof =
     rbind (parse_command_repeats repeats) (\<lambda>r.
     rbind (parse_command_repeat_delay_ms delay) (\<lambda>d.
       case prof of
         None \<Rightarrow> Inr (base_device a name ty r d)
       | Some p \<Rightarrow> or_config_error (apply_profile (base_device a name ty r d) p)))"

definition cfg_default_device :: "address \<Rightarrow> string \<Rightarrow> device_config result" where
  "cfg_default_device a name =
     cfg_device a name SWITCH (JInt DEFAULT_COMMAND_REPEATS) (JInt DEFAULT_COMMAND_REPEAT_DELAY_MS) None"

text \<open>One entry of \<^verbatim>\<open>X10_DEVICES\<close>, already stripped and not empty: the address and the device.\<close>

definition parse_device_entry :: "bool \<Rightarrow> string \<Rightarrow> device_config result" where
  "parse_device_entry friendly entry =
     (let parts = map strip (split_on CHR '':'' entry); n = length parts in
      if n = 1 then
        rbind (cfg_normalize_address (parts ! 0)) (\<lambda>a. cfg_default_device a a)
      else if n = 2 then
        rbind (cfg_normalize_address (parts ! 0)) (\<lambda>a.
          cfg_default_device a (display_name a (Some (parts ! 1)) friendly))
      else if n \<in> {3, 4, 5} then
        rbind (cfg_normalize_address (parts ! 0)) (\<lambda>a.
          let repeats = (if 4 \<le> n \<and> parts ! 3 \<noteq> [] then JStr (parts ! 3) else JInt DEFAULT_COMMAND_REPEATS);
              delay = (if 5 \<le> n \<and> parts ! 4 \<noteq> [] then JStr (parts ! 4) else JInt DEFAULT_COMMAND_REPEAT_DELAY_MS) in
          rbind (parse_device_type_and_profile (parts ! 2)) (\<lambda>(ty, prof).
            cfg_device a (display_name a (Some (parts ! 1)) friendly) ty repeats delay prof))
      else Inl (ConfigError (''Invalid X10_DEVICES entry '' @ quoted entry @ ''.'')))"

text \<open>The loop of the three readers: each item gives a device, stored under its address.\<close>

fun add_devices ::
  "('x \<Rightarrow> device_config result) \<Rightarrow> 'x list \<Rightarrow> (address \<times> device_config) list \<Rightarrow> (address \<times> device_config) list result" where
  "add_devices f [] devices = Inr devices"
| "add_devices f (x # xs) devices =
     rbind (f x) (\<lambda>d. add_devices f xs (AList.update (dc_address d) d devices))"

definition parse_devices :: "string option \<Rightarrow> bool \<Rightarrow> (address \<times> device_config) list result" where
  "parse_devices raw friendly =
     (case raw of
        None \<Rightarrow> Inr []
      | Some text \<Rightarrow>
          if text = [] then Inr []
          else add_devices (parse_device_entry friendly)
                 (filter (\<lambda>entry. entry \<noteq> []) (map strip (split_on CHR '','' text))) [])"

text \<open>\<^verbatim>\<open>d.get(k, default)\<close>\<close>

definition obj_get_or :: "(string \<times> json) list \<Rightarrow> string \<Rightarrow> json \<Rightarrow> json" where
  "obj_get_or kvs k v = (case map_of kvs k of None \<Rightarrow> v | Some w \<Rightarrow> w)"

text \<open>The fields of a device object, which the list form and the mapping form read with the same code.\<close>

definition parse_device_object :: "bool \<Rightarrow> address \<Rightarrow> (string \<times> json) list \<Rightarrow> device_config result" where
  "parse_device_object friendly a item =
     (let name = obj_get item ''name'';
          entity_type = obj_get_or item ''type'' (obj_get_or item ''entity_type'' (JStr ''switch''));
          prof = obj_get item ''profile'' in
      rbind (if prof = JNull then parse_device_type_and_profile (py_str entity_type)
             else rbind (parse_device_type (py_str entity_type)) (\<lambda>ty. Inr (ty, Some (py_str prof))))
        (\<lambda>(ty, prof').
          cfg_device a
            (display_name a (if name = JNull then None else Some (py_str name)) friendly) ty
            (obj_get_or item ''command_repeats'' (obj_get_or item ''repeats'' (JInt DEFAULT_COMMAND_REPEATS)))
            (obj_get_or item ''command_repeat_delay_ms''
               (obj_get_or item ''repeat_delay_ms'' (JInt DEFAULT_COMMAND_REPEAT_DELAY_MS)))
            prof'))"

definition parse_list_item :: "bool \<Rightarrow> json \<Rightarrow> device_config result" where
  "parse_list_item friendly item =
     (case item of
        JObj kvs \<Rightarrow>
          rbind (cfg_normalize_address (py_str (obj_get_or kvs ''address'' (JStr [])))) (\<lambda>a.
            parse_device_object friendly a kvs)
      | _ \<Rightarrow> Inl (ConfigError ''Config file device list entries must be objects.''))"

definition parse_mapping_item :: "bool \<Rightarrow> string \<times> json \<Rightarrow> device_config result" where
  "parse_mapping_item friendly = (\<lambda>(raw_address, value).
     rbind (cfg_normalize_address raw_address) (\<lambda>a.
       case value of
         JStr s \<Rightarrow> cfg_default_device a (display_name a (Some s) friendly)
       | JObj kvs \<Rightarrow> parse_device_object friendly a kvs
       | _ \<Rightarrow> Inl (ConfigError ''Config file device object values must be strings or objects.'')))"

definition parse_device_config :: "json \<Rightarrow> bool \<Rightarrow> (address \<times> device_config) list result" where
  "parse_device_config raw friendly =
     (case raw of
        JNull \<Rightarrow> Inr []
      | JStr s \<Rightarrow> parse_devices (Some s) friendly
      | JArr items \<Rightarrow> add_devices (parse_list_item friendly) items []
      | JObj kvs \<Rightarrow> add_devices (parse_mapping_item friendly) kvs []
      | _ \<Rightarrow> Inl (ConfigError (''Config file field '' @ quoted ''devices'' @ '' must be a string, list, or object.'')))"

definition parse_housecode_range :: "string \<Rightarrow> (string \<times> string) result" where
  "parse_housecode_range value =
     (let parts = split_on CHR ''-'' value;
          invalid = Inl (ConfigError (''Invalid X10_HOUSECODES range '' @ quoted value @ ''.'')) in
      if length parts \<noteq> 2 then invalid
      else
        let start = strip (parts ! 0); end = strip (parts ! 1) in
        if length start \<noteq> 1 \<or> length end \<noteq> 1 \<or> re_fullmatch HOUSE_CODE_RE start = None \<or>
           re_fullmatch HOUSE_CODE_RE end = None \<or> end < start
        then invalid else Inr (start, end))"

definition housecodes_between :: "string \<Rightarrow> string \<Rightarrow> string list" where
  "housecodes_between start end =
     map (\<lambda>n. [char_of n]) [of_char (hd start)..<(of_char (hd end) + 1 :: nat)]"

definition parse_housecode_part :: "string \<Rightarrow> string list result" where
  "parse_housecode_part part =
     (if CHR ''-'' \<in> set part
      then rbind (parse_housecode_range part) (\<lambda>(start, end). Inr (housecodes_between start end))
      else map_result (\<lambda>c. if re_fullmatch HOUSE_CODE_RE [c] = None
             then Inl (ConfigError (''Invalid X10 house code '' @ quoted [c] @ '' in X10_HOUSECODES.''))
             else Inr [c]) part)"

definition parse_housecodes :: "string option \<Rightarrow> string list option result" where
  "parse_housecodes raw =
     (case raw of
        None \<Rightarrow> Inr None
      | Some text \<Rightarrow>
          if text = [] then Inr None
          else
            let value = canon text in
            if value \<in> {''*'', ''A-P'', ''A...P''} then Inr None
            else
              rbind (map_result parse_housecode_part
                       (filter (\<lambda>part. part \<noteq> []) (split_by (\<lambda>c. is_space c \<or> c = CHR '','') value)))
                (\<lambda>codes. let housecodes = sort (remdups (concat codes)) in
                   Inr (if housecodes = [] then None else Some housecodes)))"

subsection \<open>Addresses and house codes\<close>

fun is_ConfigError :: "exn \<Rightarrow> bool" where
  "is_ConfigError (ConfigError _) = True"
| "is_ConfigError _ = False"

lemma fullmatch_DEVICE_RE: "re_fullmatch DEVICE_RE (upper s) = (if valid_address (upper s) then Some [] else None)"
proof (rule re_fullmatch_iff)
  fix e
  let ?P = "\<lambda>c. chr_range CHR ''A'' CHR ''P'' c \<or> chr_range CHR ''a'' CHR ''p'' c"
  have "c \<in> set (upper s) \<Longrightarrow> ?P c \<longleftrightarrow> house_char c" for c
    by (auto simp: upper_def simp del: disj_not1 simp flip: house_char_upper_iff)
  from fullmatch_house_unit(3) [where P = ?P, OF this]
  show "rmatch DEVICE_RE (upper s) [] e \<longleftrightarrow> valid_address (upper s) \<and> e = []"
    unfolding DEVICE_RE_def valid_address_split by simp
qed

lemma cfg_normalize_address_spec:
  "cfg_normalize_address a = (if valid_address (canon a) then Inr (canon a)
     else Inl (ConfigError (''Invalid X10 address '' @ quoted (canon a) @ ''.'')))"
  by (simp add: cfg_normalize_address_def Let_def fullmatch_DEVICE_RE)

interpretation config_addresses: address_normaliser cfg_normalize_address is_ConfigError
  by unfold_locales (auto simp: cfg_normalize_address_spec)


subsection \<open>What a reader of devices returns\<close>

text \<open>
  A well-formed configured device: its address is in normal form, the repeat settings are within
  their bounds, it has a display name without surrounding white space (the address itself when
  friendly names are off), and its behaviour is the one its type or profile prescribes.
\<close>

definition device_ok :: "bool \<Rightarrow> device_config \<Rightarrow> bool" where
  "device_ok friendly d \<longleftrightarrow>
     valid_address (dc_address d) \<and> dc_name d \<noteq> [] \<and> strip (dc_name d) = dc_name d \<and>
     (\<not> friendly \<longrightarrow> dc_name d = dc_address d) \<and>
     1 \<le> dc_command_repeats d \<and> dc_command_repeats d \<le> 5 \<and>
     0 \<le> dc_command_repeat_delay_ms d \<and> dc_command_repeat_delay_ms d \<le> 5000 \<and>
     cfg_device (dc_address d) (dc_name d) (dc_entity_type d) (JInt (dc_command_repeats d))
       (JInt (dc_command_repeat_delay_ms d)) (dc_profile d) = Inr d"

definition devices_ok :: "bool \<Rightarrow> (address \<times> device_config) list \<Rightarrow> bool" where
  "devices_ok friendly devices \<longleftrightarrow>
     distinct (map fst devices) \<and> (\<forall>(a, d) \<in> set devices. a = dc_address d \<and> device_ok friendly d)"

lemma apply_profile_errors: "apply_profile d p = Inl e \<Longrightarrow> \<exists>s. e = ValueError s"
  by (auto simp: apply_profile_def get_profile_def rbind_def split: option.splits)

lemma apply_profile_profile:
  "apply_profile d p = Inr d' \<Longrightarrow> dc_profile d' = Some (lower (strip p)) \<and> dc_address d' = dc_address d \<and>
     dc_name d' = dc_name d \<and> dc_command_repeats d' = dc_command_repeats d \<and>
     dc_command_repeat_delay_ms d' = dc_command_repeat_delay_ms d"
  by (auto simp: apply_profile_def get_profile_def rbind_def post_init_def profile_ok_def
      split: option.splits sum.splits dest!: profile_lookup_ok)

text \<open>The profile decides everything but the address, the name and the repeat settings.\<close>

lemma apply_profile_again:
  assumes "apply_profile d p = Inr d'" "dc_address e = dc_address d" "dc_name e = dc_name d"
    "dc_command_repeats e = dc_command_repeats d" "dc_command_repeat_delay_ms e = dc_command_repeat_delay_ms d"
  shows "apply_profile e (lower (strip p)) = Inr d'"
  using assms by (cases d; cases e) (auto simp: apply_profile_def get_profile_def strip_lower split: option.splits)

lemma parse_bounded_int_JInt:
  "0 \<le> lo \<Longrightarrow> hi < 10000 \<Longrightarrow> lo \<le> i \<Longrightarrow> i \<le> hi \<Longrightarrow> parse_bounded_int (JInt i) f lo hi = Inr i"
  by (simp add: parse_bounded_int_def py_int_small)

lemma parse_bounded_int_bounds: "parse_bounded_int v f lo hi = Inr i \<Longrightarrow> lo \<le> i \<and> i \<le> hi"
  by (auto simp: parse_bounded_int_def split: option.splits if_splits)

lemma parse_bounded_int_error: "parse_bounded_int v f lo hi = Inl e \<Longrightarrow> is_ConfigError e"
  by (auto simp: parse_bounded_int_def split: option.splits if_splits)

lemmas repeat_defs = parse_command_repeats_def parse_command_repeat_delay_ms_def
  MAX_COMMAND_REPEATS_def MAX_COMMAND_REPEAT_DELAY_MS_def

lemma or_config_error_Inr [simp]: "or_config_error r = Inr a \<longleftrightarrow> r = Inr a"
  by (cases r) (simp_all add: or_config_error_def)

lemma cfg_device_error: "cfg_device a n ty r d p = Inl e \<Longrightarrow> is_ConfigError e"
  by (auto simp: cfg_device_def or_config_error_def repeat_defs rbind_def
      dest: parse_bounded_int_error apply_profile_errors split: sum.splits option.splits)

lemma base_device_simps [simp]:
  "dc_entity_type (base_device a n ty r d) = ty" "dc_profile (base_device a n ty r d) = None"
  "dc_address (base_device a n ty r d) = a" "dc_name (base_device a n ty r d) = n"
  "dc_command_repeats (base_device a n ty r d) = r" "dc_command_repeat_delay_ms (base_device a n ty r d) = d"
  by (simp_all add: base_device_def device_config_defaults_def post_init_def)

lemma cfg_device_Inr:
  "cfg_device a n ty r d p = Inr dev \<longleftrightarrow>
     (\<exists>R D. parse_command_repeats r = Inr R \<and> parse_command_repeat_delay_ms d = Inr D \<and>
       (case p of None \<Rightarrow> dev = base_device a n ty R D
        | Some q \<Rightarrow> apply_profile (base_device a n ty R D) q = Inr dev))"
  by (auto simp: cfg_device_def rbind_eq_Inr split: option.splits)

lemma cfg_device_fields:
  assumes "cfg_device a n ty r d p = Inr dev"
  shows "dc_address dev = a \<and> dc_name dev = n \<and>
    parse_command_repeats r = Inr (dc_command_repeats dev) \<and>
    parse_command_repeat_delay_ms d = Inr (dc_command_repeat_delay_ms dev)"
  using assms by (auto simp: cfg_device_Inr dest!: apply_profile_profile split: option.splits)

lemma cfg_device_again:
  assumes dev: "cfg_device a n ty r d p = Inr dev"
  shows "cfg_device a n (dc_entity_type dev) (JInt (dc_command_repeats dev))
    (JInt (dc_command_repeat_delay_ms dev)) (dc_profile dev) = Inr dev"
proof -
  obtain R D where RD: "parse_command_repeats r = Inr R" "parse_command_repeat_delay_ms d = Inr D"
    and p: "case p of None \<Rightarrow> dev = base_device a n ty R D | Some q \<Rightarrow> apply_profile (base_device a n ty R D) q = Inr dev"
    using dev by (auto simp: cfg_device_Inr)
  have i: "parse_command_repeats (JInt R) = Inr R" "parse_command_repeat_delay_ms (JInt D) = Inr D"
    using RD unfolding repeat_defs by (auto intro!: parse_bounded_int_JInt dest: parse_bounded_int_bounds)
  have dev': "dc_command_repeats dev = R" "dc_command_repeat_delay_ms dev = D"
    using cfg_device_fields [OF dev] RD by auto
  show ?thesis
  proof (cases p)
    case None
    with p i show ?thesis by (simp add: cfg_device_def)
  next
    case (Some q)
    with p have q: "apply_profile (base_device a n ty R D) q = Inr dev" by simp
    have "apply_profile (base_device a n (dc_entity_type dev) R D) (lower (strip q)) = Inr dev"
      by (rule apply_profile_again [OF q]) simp_all
    then show ?thesis using i apply_profile_profile [OF q] by (simp add: cfg_device_Inr dev')
  qed
qed

lemma valid_address_strip: "valid_address a \<Longrightarrow> strip a = a \<and> a \<noteq> []"
  by (metis strip_idem strip_upper valid_address_canon valid_address_parts list.distinct(1))

lemma display_name_ok:
  "valid_address a \<Longrightarrow> display_name a n f \<noteq> [] \<and> strip (display_name a n f) = display_name a n f \<and>
     (\<not> f \<longrightarrow> display_name a n f = a)"
  by (auto simp: display_name_def valid_address_strip split: option.splits)

lemma cfg_device_ok:
  assumes "cfg_device a (display_name a n f) ty r d p = Inr dev" "valid_address a"
  shows "device_ok f dev"
proof -
  have "1 \<le> dc_command_repeats dev \<and> dc_command_repeats dev \<le> 5 \<and>
      0 \<le> dc_command_repeat_delay_ms dev \<and> dc_command_repeat_delay_ms dev \<le> 5000"
    using cfg_device_fields [OF assms(1)] unfolding repeat_defs by (auto dest!: parse_bounded_int_bounds)
  then show ?thesis
    using cfg_device_fields [OF assms(1)] cfg_device_again [OF assms(1)] display_name_ok [OF assms(2)] assms(2)
    by (auto simp: device_ok_def)
qed

lemma display_name_self: "valid_address a \<Longrightarrow> display_name a (Some a) f = a"
  by (simp add: display_name_def valid_address_strip)

lemma parse_device_type_error: "parse_device_type v = Inl e \<Longrightarrow> is_ConfigError e"
  by (auto simp: parse_device_type_def Let_def split: if_splits)

lemma parse_device_type_and_profile_error: "parse_device_type_and_profile v = Inl e \<Longrightarrow> is_ConfigError e"
  by (auto simp: parse_device_type_and_profile_def Let_def rbind_def or_config_error_def get_profile_def
      dest: parse_device_type_error split: if_splits sum.splits option.splits)

text \<open>
  The contract of a reader of one item, and what the loop makes of it: the dictionary holds
  well-formed devices under their own addresses.
\<close>

locale device_reader =
  fixes read_item :: "'x \<Rightarrow> device_config result"
    and friendly :: bool
  assumes read_item_ok: "read_item x = Inr d \<Longrightarrow> device_ok friendly d"
    and read_item_error: "read_item x = Inl e \<Longrightarrow> is_ConfigError e"
begin

lemma add_devices_ok:
  "devices_ok friendly devices \<Longrightarrow> add_devices read_item xs devices = Inr devices' \<Longrightarrow> devices_ok friendly devices'"
proof (induction xs arbitrary: devices)
  case (Cons x xs)
  then obtain d where d: "read_item x = Inr d" "add_devices read_item xs (AList.update (dc_address d) d devices) = Inr devices'"
    by (auto simp: rbind_eq_Inr)
  have "devices_ok friendly (AList.update (dc_address d) d devices)"
    using Cons.prems(1) read_item_ok [OF d(1)]
    unfolding devices_ok_def by (auto simp: distinct_update dest!: set_update_entry)
  with Cons.IH d(2) show ?case by blast
qed simp

lemma add_devices_error: "add_devices read_item xs devices = Inl e \<Longrightarrow> is_ConfigError e"
  by (induction xs arbitrary: devices) (auto simp: rbind_def read_item_error split: sum.splits)

end

interpretation device_entries: device_reader "parse_device_entry friendly" friendly for friendly
proof
  have base: "cfg_default_device a n = cfg_device a n SWITCH (JInt 1) (JInt 150) None" for a n
    by (simp add: cfg_default_device_def DEFAULT_COMMAND_REPEATS_def DEFAULT_COMMAND_REPEAT_DELAY_MS_def)
  have addr: "cfg_normalize_address s = Inr a \<Longrightarrow> valid_address a" for s a
    by (simp add: config_addresses.norm_Inr_iff)
  show "device_ok friendly d" if "parse_device_entry friendly x = Inr d" for x d
  proof -
    from that obtain s a n ty r dl p where "cfg_normalize_address s = Inr a"
        "cfg_device a (display_name a (Some n) friendly) ty r dl p = Inr d"
      unfolding parse_device_entry_def Let_def base
      by (auto simp: rbind_eq_Inr split: if_splits) (metis addr display_name_self)
    then show ?thesis by (blast intro: cfg_device_ok addr)
  qed
  show "is_ConfigError e" if "parse_device_entry friendly x = Inl e" for x e
    using that unfolding parse_device_entry_def Let_def cfg_default_device_def
    by (auto simp: rbind_def dest: cfg_device_error config_addresses.norm_Inl parse_device_type_and_profile_error
        split: if_splits sum.splits prod.splits)
qed

lemma parse_device_object_ok:
  "parse_device_object friendly a item = Inr d \<Longrightarrow> valid_address a \<Longrightarrow> device_ok friendly d"
  by (auto simp: parse_device_object_def Let_def rbind_eq_Inr intro: cfg_device_ok)

lemma parse_device_object_error: "parse_device_object friendly a item = Inl e \<Longrightarrow> is_ConfigError e"
  by (auto simp: parse_device_object_def Let_def rbind_def dest: cfg_device_error parse_device_type_error
      parse_device_type_and_profile_error split: sum.splits prod.splits if_splits)

interpretation device_list: device_reader "parse_list_item friendly" friendly for friendly
proof
  show "device_ok friendly d" if "parse_list_item friendly x = Inr d" for x d
    using that by (auto simp: parse_list_item_def rbind_eq_Inr config_addresses.norm_Inr_iff
        intro: parse_device_object_ok split: json.splits)
  show "is_ConfigError e" if "parse_list_item friendly x = Inl e" for x e
    using that by (auto simp: parse_list_item_def rbind_def dest: parse_device_object_error config_addresses.norm_Inl
        split: json.splits sum.splits)
qed

interpretation device_mapping: device_reader "parse_mapping_item friendly" friendly for friendly
proof
  show "device_ok friendly d" if "parse_mapping_item friendly x = Inr d" for x d
    using that by (auto simp: parse_mapping_item_def rbind_eq_Inr config_addresses.norm_Inr_iff cfg_default_device_def
        intro: parse_device_object_ok cfg_device_ok split: json.splits prod.splits)
  show "is_ConfigError e" if "parse_mapping_item friendly x = Inl e" for x e
    using that by (auto simp: parse_mapping_item_def rbind_def cfg_default_device_def
        dest: parse_device_object_error config_addresses.norm_Inl cfg_device_error
        split: json.splits sum.splits prod.splits)
qed

lemma devices_ok_Nil [simp]: "devices_ok f []"
  by (simp add: devices_ok_def)

lemma parse_devices_ok: "parse_devices raw f = Inr devs \<Longrightarrow> devices_ok f devs"
  by (auto simp: parse_devices_def split: option.splits if_splits dest: device_entries.add_devices_ok [OF devices_ok_Nil])

lemma parse_devices_error: "parse_devices raw f = Inl e \<Longrightarrow> is_ConfigError e"
  by (auto simp: parse_devices_def split: option.splits if_splits intro: device_entries.add_devices_error)

lemma parse_device_config_ok: "parse_device_config raw f = Inr devs \<Longrightarrow> devices_ok f devs"
  by (auto simp: parse_device_config_def split: json.splits
      dest: parse_devices_ok device_list.add_devices_ok [OF devices_ok_Nil]
        device_mapping.add_devices_ok [OF devices_ok_Nil])

lemma parse_device_config_error: "parse_device_config raw f = Inl e \<Longrightarrow> is_ConfigError e"
  by (auto simp: parse_device_config_def split: json.splits
      intro: parse_devices_error device_list.add_devices_error device_mapping.add_devices_error)


subsection \<open>House codes\<close>

lemma fullmatch_HOUSE_CODE_RE:
  "re_fullmatch HOUSE_CODE_RE [upper_char c] = None \<longleftrightarrow> \<not> house_char (upper_char c)"
proof -
  have "rmatch HOUSE_CODE_RE [upper_char c] [] e \<longleftrightarrow> house_char (upper_char c) \<and> e = []" for e
    unfolding HOUSE_CODE_RE_def by (auto simp: rmatch_simps house_char_upper_iff)
  then show ?thesis by (auto simp: re_fullmatch_None)
qed

definition is_housecode :: "string \<Rightarrow> bool" where
  "is_housecode h \<longleftrightarrow> (\<exists>c. h = [c] \<and> house_char c)"

lemma house_char_code: "house_char c \<longleftrightarrow> 65 \<le> (of_char c :: nat) \<and> (of_char c :: nat) \<le> 80"
  by (simp add: house_char_range chr_range_def less_eq_char_def)

lemma housecodes_between_set:
  "house_char b \<Longrightarrow> set (housecodes_between [a] [b]) = {[c] | c. a \<le> c \<and> c \<le> b}"
proof (intro set_eqI iffI)
  fix h
  assume b: "house_char b" and "h \<in> set (housecodes_between [a] [b])"
  then obtain n :: nat where n: "h = [char_of n]" "of_char a \<le> n" "n \<le> of_char b"
    by (auto simp: housecodes_between_def)
  moreover have "n < 256" using n b by (simp add: house_char_code)
  ultimately show "h \<in> {[c] | c. a \<le> c \<and> c \<le> b}" by (simp add: less_eq_char_def)
next
  fix h
  assume "h \<in> {[c] | c. a \<le> c \<and> c \<le> b}"
  then obtain c where "h = [c]" "a \<le> c" "c \<le> b" by blast
  then have "h = [char_of (of_char c :: nat)]" "(of_char c :: nat) \<in> {of_char a..<of_char b + 1}"
    by (auto simp: less_eq_char_def)
  then show "h \<in> set (housecodes_between [a] [b])"
    unfolding housecodes_between_def set_map set_upt list.sel by (rule image_eqI)
qed

text \<open>Both kinds of part give house codes only.\<close>

lemma map_result_Inr: "map_result f xs = Inr ys \<longleftrightarrow> list_all2 (\<lambda>x y. f x = Inr y) xs ys"
  by (induction xs arbitrary: ys) (auto simp: rbind_eq_Inr list_all2_Cons1)

lemma map_result_Inl: "map_result f xs = Inl e \<Longrightarrow> \<exists>x \<in> set xs. f x = Inl e"
  by (induction xs) (auto simp: rbind_def split: sum.splits)

lemma upper_fixed: "upper s = s \<Longrightarrow> c \<in> set s \<Longrightarrow> upper_char c = c"
  by (induction s) (auto simp: upper_def)

lemma parse_housecode_range_Inr:
  assumes "parse_housecode_range part = Inr (start, end)" "upper part = part"
  shows "\<exists>a b. start = [a] \<and> end = [b] \<and> house_char a \<and> house_char b \<and> a \<le> b"
proof -
  obtain p q where pq: "split_on CHR ''-'' part = [p, q]" "start = strip p" "end = strip q"
    "length start = 1" "length end = 1" "re_fullmatch HOUSE_CODE_RE start \<noteq> None"
    "re_fullmatch HOUSE_CODE_RE end \<noteq> None" "\<not> end < start"
    using assms(1)
    by (auto simp: parse_housecode_range_def Let_def length_Suc_conv numeral_2_eq_2 split: if_splits)
  obtain a b where ab: "start = [a]" "end = [b]" using pq(4,5) by (auto simp: length_Suc_conv)
  have "part = p @ CHR ''-'' # q" using join_split_on [of "CHR ''-''" part] pq(1) by simp
  then have "a \<in> set part" "b \<in> set part"
    using ab pq(2,3) set_strip_by [of is_space p] set_strip_by [of is_space q] by (auto simp: strip_def)
  then have "upper_char a = a" "upper_char b = b" using upper_fixed [OF assms(2)] by auto
  then have "house_char a" "house_char b"
    using pq(6,7) fullmatch_HOUSE_CODE_RE [of a] fullmatch_HOUSE_CODE_RE [of b] ab by auto
  then show ?thesis using ab pq(8) by auto
qed

lemma parse_housecode_range_error: "parse_housecode_range part = Inl e \<Longrightarrow> is_ConfigError e"
  by (auto simp: parse_housecode_range_def Let_def split: if_splits)

lemma parse_housecode_part_ok:
  assumes "parse_housecode_part part = Inr codes" "upper part = part"
  shows "\<forall>h \<in> set codes. is_housecode h"
proof (cases "CHR ''-'' \<in> set part")
  case True
  then obtain start "end" where r: "parse_housecode_range part = Inr (start, end)" "codes = housecodes_between start end"
    using assms(1) by (auto simp: parse_housecode_part_def rbind_eq_Inr)
  from parse_housecode_range_Inr [OF r(1) assms(2)] obtain a b
    where "start = [a]" "end = [b]" "house_char a" "house_char b" by blast
  then show ?thesis
    unfolding r(2) by (auto simp: housecodes_between_set is_housecode_def house_char_code less_eq_char_def)
next
  case False
  with assms(1) have "list_all2 (\<lambda>c h. re_fullmatch HOUSE_CODE_RE [c] \<noteq> None \<and> h = [c]) part codes"
    by (auto simp: parse_housecode_part_def map_result_Inr elim!: list_all2_mono split: if_splits)
  then have "codes = map (\<lambda>c. [c]) part \<and> (\<forall>c \<in> set part. re_fullmatch HOUSE_CODE_RE [c] \<noteq> None)"
    by (induction rule: list_all2_induct) auto
  moreover have "house_char c" if "c \<in> set part" "re_fullmatch HOUSE_CODE_RE [c] \<noteq> None" for c
    using fullmatch_HOUSE_CODE_RE [of c] that upper_fixed [OF assms(2) that(1)] by simp
  ultimately show ?thesis by (auto simp: is_housecode_def)
qed

lemma parse_housecode_part_error: "parse_housecode_part part = Inl e \<Longrightarrow> is_ConfigError e"
  by (auto simp: parse_housecode_part_def rbind_def dest!: map_result_Inl parse_housecode_range_error
      split: if_splits sum.splits prod.splits)

lemma set_split_by: "t \<in> set (split_by P s) \<Longrightarrow> set t \<subseteq> set s"
proof (induction s arbitrary: t)
  case (Cons c s)
  then show ?case by (cases "split_by P s") (auto split: if_splits; blast)+
qed simp

lemma housecode_parts_upper:
  "part \<in> set (split_by P (canon text)) \<Longrightarrow> upper part = part"
  using set_split_by [of part P "canon text"]
  by (auto simp: upper_def intro!: map_idI)

definition housecode_parts :: "string \<Rightarrow> string list" where
  "housecode_parts value = filter (\<lambda>part. part \<noteq> []) (split_by (\<lambda>c. is_space c \<or> c = CHR '','') value)"

lemma sort_remdups_Nil: "sort (remdups xs) = [] \<longleftrightarrow> xs = ([] :: string list)"
  by (metis remdups_eq_nil_iff sort_key_simps(1) set_empty set_sort)

lemma parse_housecodes_cases:
  "parse_housecodes (Some text) =
     (if text = [] \<or> canon text \<in> {''*'', ''A-P'', ''A...P''} then Inr None
      else rbind (map_result parse_housecode_part (housecode_parts (canon text)))
        (\<lambda>codes. Inr (if concat codes = [] then None else Some (sort (remdups (concat codes))))))"
  by (simp add: parse_housecodes_def housecode_parts_def Let_def sort_remdups_Nil)

lemma parse_housecode_parts_ok:
  "map_result parse_housecode_part parts = Inr codes \<Longrightarrow> \<forall>part \<in> set parts. upper part = part \<Longrightarrow>
     \<forall>h \<in> set (concat codes). is_housecode h"
  by (induction parts arbitrary: codes) (auto simp: rbind_eq_Inr dest!: parse_housecode_part_ok)

lemma parse_housecodes_ok:
  assumes "parse_housecodes raw = Inr (Some hs)"
  shows "hs \<noteq> [] \<and> distinct hs \<and> sorted hs \<and> list_all is_housecode hs"
proof -
  obtain v where v: "raw = Some v" using assms by (cases raw) (auto simp: parse_housecodes_def)
  with assms obtain codes where c: "map_result parse_housecode_part (housecode_parts (canon v)) = Inr codes"
    "concat codes \<noteq> []" "hs = sort (remdups (concat codes))"
    by (auto simp: parse_housecodes_cases rbind_eq_Inr simp del: concat_eq_Nil_conv split: if_splits)
  have "\<forall>h \<in> set (concat codes). is_housecode h"
    by (rule parse_housecode_parts_ok [OF c(1)]) (auto simp: housecode_parts_def dest: housecode_parts_upper)
  with c(2) show ?thesis unfolding c(3) by (simp add: sort_remdups_Nil list_all_iff del: concat_eq_Nil_conv)
qed

lemma parse_housecodes_error: "parse_housecodes raw = Inl e \<Longrightarrow> is_ConfigError e"
  by (auto simp: parse_housecodes_def Let_def rbind_def dest!: map_result_Inl parse_housecode_part_error
      split: option.splits if_splits sum.splits)

text \<open>
  Reading \<^verbatim>\<open>X10_HOUSECODES\<close> raises nothing but a \<^verbatim>\<open>ConfigError\<close>, and a filter it returns is a
  non-empty set of house codes between \<^verbatim>\<open>A\<close> and \<^verbatim>\<open>P\<close>, written in upper case.
\<close>

lemma housecodes_wellformed:
  "case parse_housecodes raw of
     Inl e \<Rightarrow> is_ConfigError e
   | Inr None \<Rightarrow> True
   | Inr (Some hs) \<Rightarrow> hs \<noteq> [] \<and> distinct hs \<and> sorted hs \<and> list_all is_housecode hs"
  using parse_housecodes_ok parse_housecodes_error by (auto split: sum.splits option.splits)

text \<open>
  The documented notation, as a reference: a list of items separated by commas, each a group of letters
  or a range.
\<close>

datatype housecode_item = Letters string | Range char char

fun item_text :: "housecode_item \<Rightarrow> string" where
  "item_text (Letters s) = s"
| "item_text (Range a b) = [a, CHR ''-'', b]"

fun item_ok :: "housecode_item \<Rightarrow> bool" where
  "item_ok (Letters s) \<longleftrightarrow> s \<noteq> [] \<and> list_all house_char s"
| "item_ok (Range a b) \<longleftrightarrow> house_char a \<and> house_char b \<and> a \<le> b"

fun item_has :: "housecode_item \<Rightarrow> char \<Rightarrow> bool" where
  "item_has (Letters s) c \<longleftrightarrow> c \<in> set s"
| "item_has (Range a b) c \<longleftrightarrow> a \<le> c \<and> c \<le> b"

definition housecodes_allow :: "string list option \<Rightarrow> char \<Rightarrow> bool" where
  "housecodes_allow hs c \<longleftrightarrow> (case hs of None \<Rightarrow> True | Some l \<Rightarrow> [c] \<in> set l)"

lemma house_char_plain: "house_char c \<Longrightarrow> c \<noteq> CHR ''-'' \<and> c \<noteq> CHR '','' \<and> \<not> is_space c"
proof -
  have "\<not> house_char CHR ''-''" "\<not> house_char CHR '',''" by code_simp+
  then show "house_char c \<Longrightarrow> ?thesis" using house_char_not_space by blast
qed

lemma fullmatch_housecode: "house_char c \<Longrightarrow> re_fullmatch HOUSE_CODE_RE [c] \<noteq> None"
  using fullmatch_HOUSE_CODE_RE [of c] upper_house_char [of c] by simp

lemma parse_housecode_item:
  assumes "item_ok i"
  shows "\<exists>codes. parse_housecode_part (item_text i) = Inr codes \<and> codes \<noteq> [] \<and> (\<forall>c. [c] \<in> set codes \<longleftrightarrow> item_has i c)"
proof (cases i)
  case (Letters s)
  with assms have s: "\<forall>c \<in> set s. house_char c" "s \<noteq> []" by (auto simp: list_all_iff)
  then have "CHR ''-'' \<notin> set s" using house_char_plain by blast
  then have "parse_housecode_part s = Inr (map (\<lambda>c. [c]) s)"
    unfolding parse_housecode_part_def using s(1) fullmatch_housecode by (auto intro!: map_result_total)
  with s(2) Letters show ?thesis by auto
next
  case (Range a b)
  with assms have ab: "house_char a" "house_char b" "a \<le> b" by auto
  have "split_on CHR ''-'' [a, CHR ''-'', b] = [[a], [b]]"
    using house_char_plain [OF ab(1)] house_char_plain [OF ab(2)] by (simp add: split_on_def)
  moreover have "strip [a] = [a]" "strip [b] = [b]"
    using ab house_char_not_space by (auto intro!: strip_no_space)
  ultimately have "parse_housecode_range [a, CHR ''-'', b] = Inr ([a], [b])"
    using ab(3) fullmatch_housecode [OF ab(1)] fullmatch_housecode [OF ab(2)]
    by (simp add: parse_housecode_range_def Let_def not_less del: not_None_eq)
  then have "parse_housecode_part (item_text i) = Inr (housecodes_between [a] [b])"
    by (simp add: parse_housecode_part_def Range)
  moreover have "[a] \<in> set (housecodes_between [a] [b])" using ab by (simp add: housecodes_between_set)
  ultimately show ?thesis using Range housecodes_between_set [OF ab(2), of a] by force
qed

lemma item_text_plain: "item_ok i \<Longrightarrow> item_text i \<noteq> [] \<and> (\<forall>c \<in> set (item_text i). \<not> is_space c \<and> c \<noteq> CHR '','')"
proof -
  have "\<not> is_space CHR ''-''" by code_simp
  then show "item_ok i \<Longrightarrow> ?thesis" using house_char_plain by (cases i) (auto simp: list_all_iff)
qed

lemma split_by_join:
  "P c \<Longrightarrow> ts \<noteq> [] \<Longrightarrow> \<forall>t \<in> set ts. \<forall>x \<in> set t. \<not> P x \<Longrightarrow> split_by P (join [c] ts) = ts"
proof (induction ts)
  case (Cons t ts)
  then show ?case by (cases ts) (auto simp: split_by_append split_by_none)
qed simp

lemma housecode_parts_items:
  assumes "items \<noteq> []" "\<forall>i \<in> set items. item_ok i"
  shows "housecode_parts (join '','' (map item_text items)) = map item_text items"
proof -
  have "split_by (\<lambda>c. is_space c \<or> c = CHR '','') (join '','' (map item_text items)) = map item_text items"
    using assms item_text_plain by (intro split_by_join) auto
  then show ?thesis using assms(2) item_text_plain by (auto simp: housecode_parts_def filter_id_conv)
qed

lemma parse_housecode_items:
  "\<forall>i \<in> set items. item_ok i \<Longrightarrow> \<exists>codes. map_result parse_housecode_part (map item_text items) = Inr codes \<and>
     (items \<noteq> [] \<longrightarrow> concat codes \<noteq> []) \<and> (\<forall>c. [c] \<in> set (concat codes) \<longleftrightarrow> (\<exists>i \<in> set items. item_has i c))"
proof (induction items)
  case (Cons i items)
  then obtain codes where "map_result parse_housecode_part (map item_text items) = Inr codes"
    "\<forall>c. [c] \<in> set (concat codes) \<longleftrightarrow> (\<exists>i \<in> set items. item_has i c)" by auto
  moreover obtain here where "parse_housecode_part (item_text i) = Inr here" "here \<noteq> []"
    "\<forall>c. [c] \<in> set here \<longleftrightarrow> item_has i c" using parse_housecode_item Cons.prems by (metis list.set_intros(1))
  ultimately show ?case by (intro exI [of _ "here # codes"]) auto
qed simp

text \<open>Only the range of all house codes is written like the abbreviation for it.\<close>

lemma item_text_all: "item_ok i \<Longrightarrow> item_text i = ''A-P'' \<Longrightarrow> house_char c \<Longrightarrow> item_has i c"
proof (cases i)
  case (Letters s)
  have "\<not> house_char CHR ''-''" by code_simp
  then show "item_ok i \<Longrightarrow> item_text i = ''A-P'' \<Longrightarrow> ?thesis" using Letters by auto
next
  case (Range a b)
  then show "item_text i = ''A-P'' \<Longrightarrow> house_char c \<Longrightarrow> ?thesis" by (auto simp: house_char_range chr_range_def)
qed

lemma plain_item_abbreviation:
  assumes "items \<noteq> []" "\<forall>i \<in> set items. item_ok i" "join '','' (map item_text items) \<in> {''*'', ''A-P'', ''A...P''}"
    and "house_char c"
  shows "\<exists>i \<in> set items. item_has i c"
proof -
  let ?v = "join '','' (map item_text items)"
  have "housecode_parts ''*'' = [''*'']" "housecode_parts ''A-P'' = [''A-P'']" "housecode_parts ''A...P'' = [''A...P'']"
    by code_simp+
  then have "map item_text items = [?v]" using housecode_parts_items [OF assms(1,2)] assms(3) by auto
  then obtain i where i: "items = [i]" "item_text i = ?v" by auto
  have "\<not> house_char CHR ''*''" "\<not> house_char CHR ''.''" by code_simp+
  then have "item_text i \<noteq> ''*''" "item_text i \<noteq> ''A...P''" using assms(2) i(1) by (cases i; auto)+
  with i assms(3) have "item_text i = ''A-P''" by auto
  with item_text_all assms(2,4) i(1) show ?thesis by auto
qed

text \<open>
  C34. \<^verbatim>\<open>X10_HOUSECODES\<close> means what its documentation says: for a comma-separated list of groups of
  letters and ranges, in either case and with white space around it, the filter that is read
  allows exactly the house codes of its items; the range of all of them gives no filter.
\<close>

theorem housecodes_denote:
  assumes "items \<noteq> []" "\<forall>i \<in> set items. item_ok i" "canon raw = join '','' (map item_text items)"
  shows "\<exists>hs. parse_housecodes (Some raw) = Inr hs \<and>
    (\<forall>c. house_char c \<longrightarrow> (housecodes_allow hs c \<longleftrightarrow> (\<exists>i \<in> set items. item_has i c)))"
proof (cases "canon raw \<in> {''*'', ''A-P'', ''A...P''}")
  case True
  then show ?thesis
    using plain_item_abbreviation [OF assms(1,2)] assms(3) by (simp add: parse_housecodes_cases housecodes_allow_def)
next
  case False
  have "raw \<noteq> []" using housecode_parts_items [OF assms(1,2)] assms by (auto simp: housecode_parts_def strip_def str_defs)
  moreover obtain codes where "map_result parse_housecode_part (map item_text items) = Inr codes" "concat codes \<noteq> []"
    "\<forall>c. [c] \<in> set (concat codes) \<longleftrightarrow> (\<exists>i \<in> set items. item_has i c)"
    using parse_housecode_items [OF assms(2)] assms(1) by blast
  ultimately show ?thesis
    using False housecode_parts_items [OF assms(1,2)] assms(3)
    by (simp add: parse_housecodes_cases housecodes_allow_def del: concat_eq_Nil_conv)
qed

theorem housecodes_denote_witness:
  "\<exists>hs. parse_housecodes (Some '' ac,f-h '') = Inr hs \<and> housecodes_allow hs CHR ''C'' \<and> housecodes_allow hs CHR ''G'' \<and>
     \<not> housecodes_allow hs CHR ''B''"
proof -
  let ?items = "[Letters ''AC'', Range CHR ''F'' CHR ''H'']"
  have h: "?items \<noteq> []" "\<forall>i \<in> set ?items. item_ok i" "canon '' ac,f-h '' = join '','' (map item_text ?items)"
    by code_simp+
  have c: "house_char CHR ''C''" "house_char CHR ''G''" "house_char CHR ''B''"
    "item_has (?items ! 0) CHR ''C''" "item_has (?items ! 1) CHR ''G''" "\<not> (\<exists>i \<in> set ?items. item_has i CHR ''B'')"
    by code_simp+
  from housecodes_denote [OF h] c show ?thesis by (metis nth_mem length_Cons zero_less_Suc One_nat_def Suc_less_eq)
qed

end
