(* ===== verification/Config.thy ===== *)
theory Config
  imports ConfigDevices JsonText FileSystem
begin

section \<open>Loading the configuration (\<^verbatim>\<open>config.py\<close>)\<close>

text \<open>
  The environment is a map from names to values, the files are those of the file system.  The message
  of an \<^verbatim>\<open>OSError\<close> or of a JSON error is not part of the messages here.  The configuration object is
  the record \<open>config\<close>; a filter of house codes is the sorted list of its members.
\<close>

subsection \<open>Definitions\<close>

definition DEFAULT_MOCHAD_HOST :: string where "DEFAULT_MOCHAD_HOST = ''mochad''"
definition DEFAULT_MOCHAD_PORT :: int where "DEFAULT_MOCHAD_PORT = 1099"
definition DEFAULT_MQTT_HOST :: string where "DEFAULT_MQTT_HOST = ''mosquitto''"
definition DEFAULT_MQTT_PORT :: int where "DEFAULT_MQTT_PORT = 1883"
definition CFG_DISCOVERY_PREFIX :: string where "CFG_DISCOVERY_PREFIX = ''homeassistant''"
definition DEFAULT_DISCOVERY_REGISTRY_PATH :: string where
  "DEFAULT_DISCOVERY_REGISTRY_PATH = ''/config/discovery_registry.json''"
definition DEFAULT_CONFIG_FILE :: string where "DEFAULT_CONFIG_FILE = ''/config/bridge.json''"
definition CFG_BASE_TOPIC :: string where "CFG_BASE_TOPIC = ''x10''"
definition DEFAULT_CONFIG_RELOAD_INTERVAL_SECONDS :: py_float where
  "DEFAULT_CONFIG_RELOAD_INTERVAL_SECONDS = Decimal False 50 (-1)"
definition DEFAULT_LOG_LEVEL :: string where "DEFAULT_LOG_LEVEL = ''INFO''"

record mqtt_tls_config =
  mt_enabled :: bool
  mt_ca_file :: "string option"
  mt_cert_file :: "string option"
  mt_key_file :: "string option"
  mt_key_password :: "string option"

definition no_tls :: mqtt_tls_config where
  "no_tls = \<lparr>mt_enabled = False, mt_ca_file = None, mt_cert_file = None, mt_key_file = None, mt_key_password = None\<rparr>"

record config =
  cf_mochad_host :: string
  cf_mochad_port :: int
  cf_mqtt_host :: string
  cf_mqtt_port :: int
  cf_mqtt_username :: "string option"
  cf_mqtt_password :: "string option"
  cf_mqtt_tls :: mqtt_tls_config
  cf_mqtt_base_topic :: string
  cf_mqtt_discovery_prefix :: string
  cf_log_level :: string
  cf_config_file :: "string option"
  cf_config_reload_interval_seconds :: py_float
  cf_use_friendly_names :: bool
  cf_devices :: "(address \<times> device_config) list"
  cf_optimistic_updates :: bool
  cf_status_refresh_on_connect :: bool
  cf_discovery_enabled :: bool
  cf_discovery_republish :: bool
  cf_discovery_cleanup :: bool
  cf_discovery_registry_path :: string
  cf_enable_maintenance_buttons :: bool
  cf_x10_housecodes :: "string list option"
  cf_debug_wire :: bool

type_synonym environment = "string \<Rightarrow> string option"

definition get_env :: "environment \<Rightarrow> string \<Rightarrow> string option \<Rightarrow> string option" where
  "get_env env name dflt =
     (case env name of
        None \<Rightarrow> dflt
      | Some v \<Rightarrow> if strip v = [] then dflt else Some (strip v))"

text \<open>\<^verbatim>\<open>_get_env\<close> with a text as default always returns a text.\<close>

definition get_env_str :: "environment \<Rightarrow> string \<Rightarrow> string \<Rightarrow> string" where
  "get_env_str env name dflt = (case get_env env name (Some dflt) of Some v \<Rightarrow> v | None \<Rightarrow> dflt)"

definition get_int :: "environment \<Rightarrow> string \<Rightarrow> int \<Rightarrow> int result" where
  "get_int env name dflt =
     (case get_env env name None of
        None \<Rightarrow> Inr dflt
      | Some v \<Rightarrow> (case py_int v of
            Some i \<Rightarrow> Inr i
          | None \<Rightarrow> Inl (ConfigError (name @ '' must be an integer. Got '' @ quoted v @ ''.''))))"

definition bool_of_text :: "string \<Rightarrow> bool option" where
  "bool_of_text s =
     (let normalized = lower (strip s) in
      if normalized \<in> {''1'', ''true'', ''yes'', ''on''} then Some True
      else if normalized \<in> {''0'', ''false'', ''no'', ''off''} then Some False
      else None)"

definition get_bool :: "environment \<Rightarrow> string \<Rightarrow> bool \<Rightarrow> bool result" where
  "get_bool env name dflt =
     (case get_env env name None of
        None \<Rightarrow> Inr dflt
      | Some v \<Rightarrow> (case bool_of_text v of
            Some b \<Rightarrow> Inr b
          | None \<Rightarrow> Inl (ConfigError (name @ '' must be a boolean. Got '' @ quoted v @ ''.''))))"

definition get_float :: "environment \<Rightarrow> string \<Rightarrow> py_float \<Rightarrow> py_float result" where
  "get_float env name dflt =
     (case get_env env name None of
        None \<Rightarrow> Inr dflt
      | Some v \<Rightarrow> (case py_float_of v of
            None \<Rightarrow> Inl (ConfigError (name @ '' must be a number. Got '' @ quoted v @ ''.''))
          | Some parsed \<Rightarrow>
              if float_le_zero parsed
              then Inl (ConfigError (name @ '' must be greater than zero. Got '' @ quoted v @ ''.''))
              else Inr parsed))"

definition get_secret :: "environment \<Rightarrow> file_system \<Rightarrow> string \<Rightarrow> string \<Rightarrow> string option result" where
  "get_secret env fs name file_name =
     (let v = get_env env name None; file_path = get_env env file_name None in
      if v \<noteq> None \<and> file_path \<noteq> None
      then Inl (ConfigError (''Set only one of '' @ name @ '' or '' @ file_name @ ''.''))
      else case file_path of
        None \<Rightarrow> Inr v
      | Some path \<Rightarrow>
          (case fs_read path fs of
             Inl _ \<Rightarrow> Inl (ConfigError (file_name @ '' points to an unreadable file '' @ quoted path))
           | Inr raw \<Rightarrow>
               let secret = rstrip_by (\<lambda>c. c = CHR 0x0D \<or> c = CHR 0x0A) raw in
               Inr (if secret = [] then None else Some secret)))"

text \<open>\<^verbatim>\<open>bool(value)\<close> of an optional text.\<close>

definition opt_truthy :: "string option \<Rightarrow> bool" where
  "opt_truthy s = (case s of None \<Rightarrow> False | Some t \<Rightarrow> t \<noteq> [])"

definition load_mqtt_tls_config :: "environment \<Rightarrow> file_system \<Rightarrow> mqtt_tls_config result" where
  "load_mqtt_tls_config env fs =
     rbind (get_bool env ''MQTT_TLS_ENABLED'' False) (\<lambda>enabled.
       let ca_file = get_env env ''MQTT_TLS_CA_FILE'' None;
           cert_file = get_env env ''MQTT_TLS_CERT_FILE'' None;
           key_file = get_env env ''MQTT_TLS_KEY_FILE'' None in
       rbind (get_secret env fs ''MQTT_TLS_KEY_PASSWORD'' ''MQTT_TLS_KEY_PASSWORD_FILE'') (\<lambda>key_password.
         let configured = list_ex opt_truthy [ca_file, cert_file, key_file, key_password] in
         if configured \<and> \<not> enabled
         then Inl (ConfigError ''MQTT_TLS_ENABLED must be true when MQTT TLS settings are configured.'')
         else if \<not> enabled then Inr no_tls
         else if opt_truthy cert_file \<noteq> opt_truthy key_file
         then Inl (ConfigError ''MQTT_TLS_CERT_FILE and MQTT_TLS_KEY_FILE must be set together.'')
         else if key_password \<noteq> None \<and> key_file = None
         then Inl (ConfigError ''MQTT_TLS_KEY_PASSWORD requires MQTT_TLS_KEY_FILE.'')
         else Inr \<lparr>mt_enabled = True, mt_ca_file = ca_file, mt_cert_file = cert_file,
                   mt_key_file = key_file, mt_key_password = key_password\<rparr>))"

definition load_config_file :: "string option \<Rightarrow> file_system \<Rightarrow> (string \<times> json) list result" where
  "load_config_file path fs =
     (case path of
        None \<Rightarrow> Inr []
      | Some p \<Rightarrow>
          if \<not> fs_exists fs p then Inr []
          else case fs_read p fs of
            Inl _ \<Rightarrow> Inl (ConfigError (''BRIDGE_CONFIG_FILE points to an unreadable file '' @ quoted p))
          | Inr raw \<Rightarrow>
              (case loads raw of
                 None \<Rightarrow> Inl (ConfigError (''BRIDGE_CONFIG_FILE '' @ quoted p @ '' is not valid JSON''))
               | Some (JObj kvs) \<Rightarrow> Inr kvs
               | Some _ \<Rightarrow> Inl (ConfigError (''BRIDGE_CONFIG_FILE '' @ quoted p @ '' must contain a JSON object.''))))"

definition device_to_file_payload :: "device_config \<Rightarrow> json" where
  "device_to_file_payload d =
     JObj ([(''address'', JStr (dc_address d)), (''name'', JStr (dc_name d)),
            (''type'', JStr (lower (device_type_name (dc_entity_type d)))),
            (''command_repeats'', JInt (dc_command_repeats d)),
            (''command_repeat_delay_ms'', JInt (dc_command_repeat_delay_ms d))] @
           (case dc_profile d of None \<Rightarrow> [] | Some p \<Rightarrow> [(''profile'', JStr p)]))"

definition config_file_payload :: "config \<Rightarrow> json" where
  "config_file_payload c =
     JObj [(''use_friendly_names'', JBool (cf_use_friendly_names c)),
           (''devices'', JArr (map device_to_file_payload (sort_key dc_address (map snd (cf_devices c)))))]"

definition create_config_file_if_missing :: "config \<Rightarrow> file_system \<Rightarrow> bool result \<times> file_system" where
  "create_config_file_if_missing c fs =
     (case cf_config_file c of
        None \<Rightarrow> (Inr False, fs)
      | Some p \<Rightarrow>
          if fs_exists fs p then (Inr False, fs)
          else
            let tmp = p @ ''.tmp'';
                failed = Inl (ConfigFileWriteError (''Could not create bridge config file '' @ p)) in
            case fs_write tmp (dumps_indent2 (config_file_payload c) @ [CHR 0x0A]) fs of
              (Inl _, fs') \<Rightarrow> (failed, fs')
            | (Inr _, fs') \<Rightarrow>
                (case os_replace tmp p fs' of
                   (Inl _, fs'') \<Rightarrow> (failed, fs'')
                 | (Inr _, fs'') \<Rightarrow> (Inr True, fs'')))"

definition file_bool :: "(string \<times> json) list \<Rightarrow> string \<Rightarrow> bool \<Rightarrow> bool result" where
  "file_bool data key dflt =
     (let invalid = Inl (ConfigError (''Config file field '' @ quoted key @ '' must be a boolean.'')) in
      case map_of data key of
        None \<Rightarrow> Inr dflt
      | Some (JBool b) \<Rightarrow> Inr b
      | Some (JStr s) \<Rightarrow> (case bool_of_text s of Some b \<Rightarrow> Inr b | None \<Rightarrow> invalid)
      | Some _ \<Rightarrow> invalid)"

definition devices_from_sources ::
  "environment \<Rightarrow> (string \<times> json) list \<Rightarrow> bool \<Rightarrow> (address \<times> device_config) list result" where
  "devices_from_sources env data friendly =
     (case (map_of data ''devices'', map_of data ''x10_devices'') of
        (Some _, Some _) \<Rightarrow> Inl (ConfigError (''Set only one of '' @ quoted ''devices'' @ '' or '' @
            quoted ''x10_devices'' @ '' in BRIDGE_CONFIG_FILE.''))
      | (Some v, None) \<Rightarrow> parse_device_config v friendly
      | (None, Some v) \<Rightarrow> parse_devices (Some (py_str v)) friendly
      | (None, None) \<Rightarrow> parse_devices (get_env env ''X10_DEVICES'' None) friendly)"

definition load_config :: "environment \<Rightarrow> file_system \<Rightarrow> config result" where
  "load_config env fs =
     (let config_file = get_env env ''BRIDGE_CONFIG_FILE'' (Some DEFAULT_CONFIG_FILE) in
      rbind (load_config_file config_file fs) (\<lambda>file_config.
      rbind (get_bool env ''X10_USE_FRIENDLY_NAMES'' True) (\<lambda>default_names.
      rbind (file_bool file_config ''use_friendly_names'' default_names) (\<lambda>use_friendly_names.
      rbind (get_int env ''MOCHAD_PORT'' DEFAULT_MOCHAD_PORT) (\<lambda>mochad_port.
      rbind (get_int env ''MQTT_PORT'' DEFAULT_MQTT_PORT) (\<lambda>mqtt_port.
      rbind (get_secret env fs ''MQTT_PASSWORD'' ''MQTT_PASSWORD_FILE'') (\<lambda>mqtt_password.
      rbind (load_mqtt_tls_config env fs) (\<lambda>mqtt_tls.
      rbind (get_float env ''BRIDGE_CONFIG_RELOAD_INTERVAL_SECONDS'' DEFAULT_CONFIG_RELOAD_INTERVAL_SECONDS) (\<lambda>interval.
      rbind (devices_from_sources env file_config use_friendly_names) (\<lambda>devices.
      rbind (get_bool env ''DISCOVERY_CLEANUP'' False) (\<lambda>discovery_cleanup.
      rbind (get_bool env ''ENABLE_MAINTENANCE_BUTTONS'' False) (\<lambda>enable_maintenance_buttons.
      rbind (parse_housecodes (get_env env ''X10_HOUSECODES'' None)) (\<lambda>x10_housecodes.
      rbind (get_bool env ''BRIDGE_DEBUG_WIRE'' False) (\<lambda>debug_wire.
        Inr \<lparr>cf_mochad_host = get_env_str env ''MOCHAD_HOST'' DEFAULT_MOCHAD_HOST,
             cf_mochad_port = mochad_port,
             cf_mqtt_host = get_env_str env ''MQTT_HOST'' DEFAULT_MQTT_HOST,
             cf_mqtt_port = mqtt_port,
             cf_mqtt_username = get_env env ''MQTT_USERNAME'' None,
             cf_mqtt_password = mqtt_password,
             cf_mqtt_tls = mqtt_tls,
             cf_mqtt_base_topic = get_env_str env ''MQTT_BASE_TOPIC'' CFG_BASE_TOPIC,
             cf_mqtt_discovery_prefix = get_env_str env ''MQTT_DISCOVERY_PREFIX'' CFG_DISCOVERY_PREFIX,
             cf_log_level = get_env_str env ''LOG_LEVEL'' DEFAULT_LOG_LEVEL,
             cf_config_file = config_file,
             cf_config_reload_interval_seconds = interval,
             cf_use_friendly_names = use_friendly_names,
             cf_devices = devices,
             cf_optimistic_updates = True,
             cf_status_refresh_on_connect = True,
             cf_discovery_enabled = True,
             cf_discovery_republish = True,
             cf_discovery_cleanup = discovery_cleanup,
             cf_discovery_registry_path = get_env_str env ''DISCOVERY_REGISTRY_PATH'' DEFAULT_DISCOVERY_REGISTRY_PATH,
             cf_enable_maintenance_buttons = enable_maintenance_buttons,
             cf_x10_housecodes = x10_housecodes,
             cf_debug_wire = debug_wire\<rparr>))))))))))))))"

subsection \<open>Every failure is a \<^verbatim>\<open>ConfigError\<close>\<close>

named_theorems config_errors

lemma get_int_error [config_errors]: "get_int env n d = Inl e \<Longrightarrow> is_ConfigError e"
  by (auto simp: get_int_def split: option.splits)

lemma get_bool_error [config_errors]: "get_bool env n d = Inl e \<Longrightarrow> is_ConfigError e"
  by (auto simp: get_bool_def split: option.splits)

lemma get_float_error [config_errors]: "get_float env n d = Inl e \<Longrightarrow> is_ConfigError e"
  by (auto simp: get_float_def split: option.splits if_splits)

lemma get_secret_error [config_errors]: "get_secret env fs n f = Inl e \<Longrightarrow> is_ConfigError e"
  by (auto simp: get_secret_def Let_def split: option.splits if_splits sum.splits)

lemma load_mqtt_tls_config_error [config_errors]: "load_mqtt_tls_config env fs = Inl e \<Longrightarrow> is_ConfigError e"
  by (auto simp: load_mqtt_tls_config_def Let_def rbind_def dest: config_errors split: sum.splits if_splits)

lemma load_config_file_error [config_errors]: "load_config_file p fs = Inl e \<Longrightarrow> is_ConfigError e"
  by (auto simp: load_config_file_def split: option.splits if_splits sum.splits json.splits)

lemma file_bool_error [config_errors]: "file_bool data k d = Inl e \<Longrightarrow> is_ConfigError e"
  by (auto simp: file_bool_def Let_def split: option.splits json.splits)

lemma devices_from_sources_error [config_errors]: "devices_from_sources env data f = Inl e \<Longrightarrow> is_ConfigError e"
  by (auto simp: devices_from_sources_def dest: parse_device_config_error parse_devices_error split: option.splits)

lemma devices_from_sources_ok: "devices_from_sources env data f = Inr devs \<Longrightarrow> devices_ok f devs"
  by (auto simp: devices_from_sources_def dest: parse_device_config_ok parse_devices_ok split: option.splits)

declare parse_housecodes_error [config_errors]

lemma get_env_ne: "get_env env n None = Some v \<Longrightarrow> v \<noteq> []"
  by (auto simp: get_env_def split: option.splits if_splits)

lemma get_env_truthy [simp]: "opt_truthy (get_env env n None) \<longleftrightarrow> get_env env n None \<noteq> None"
  by (auto simp: opt_truthy_def dest: get_env_ne split: option.splits)

lemma get_secret_truthy: "get_secret env fs n f = Inr v \<Longrightarrow> opt_truthy v \<longleftrightarrow> v \<noteq> None"
  by (auto simp: get_secret_def Let_def opt_truthy_def dest: get_env_ne split: option.splits if_splits sum.splits)

text \<open>
  The TLS settings that are read are consistent: without TLS there are none, and TLS settings that
  are present while TLS is off are an error; with TLS a client certificate comes with its key and a key
  password only with a key.
\<close>

lemma tls_settings_consistent:
  "case load_mqtt_tls_config env fs of
     Inl e \<Rightarrow> is_ConfigError e
   | Inr t \<Rightarrow>
       get_bool env ''MQTT_TLS_ENABLED'' False = Inr (mt_enabled t) \<and>
       mt_ca_file t = get_env env ''MQTT_TLS_CA_FILE'' None \<and>
       mt_cert_file t = get_env env ''MQTT_TLS_CERT_FILE'' None \<and>
       mt_key_file t = get_env env ''MQTT_TLS_KEY_FILE'' None \<and>
       get_secret env fs ''MQTT_TLS_KEY_PASSWORD'' ''MQTT_TLS_KEY_PASSWORD_FILE'' = Inr (mt_key_password t) \<and>
       (if mt_enabled t
        then (mt_cert_file t = None) = (mt_key_file t = None) \<and> (if mt_key_file t = None then mt_key_password t = None else True)
        else t = no_tls)"
proof (cases "load_mqtt_tls_config env fs")
  case (Inl e)
  then show ?thesis by (simp add: load_mqtt_tls_config_error)
next
  case (Inr t)
  obtain b k where b: "get_bool env ''MQTT_TLS_ENABLED'' False = Inr b"
    and k: "get_secret env fs ''MQTT_TLS_KEY_PASSWORD'' ''MQTT_TLS_KEY_PASSWORD_FILE'' = Inr k"
    using Inr by (auto simp: load_mqtt_tls_config_def Let_def rbind_eq_Inr simp del: not_None_eq)
  show ?thesis
    using Inr b k get_secret_truthy [OF k]
    by (cases b) (auto simp: load_mqtt_tls_config_def Let_def no_tls_def simp del: not_None_eq split: if_splits)
qed

subsection \<open>The loaded configuration\<close>

lemma get_float_pos: "get_float env n d = Inr x \<Longrightarrow> \<not> float_le_zero d \<Longrightarrow> \<not> float_le_zero x"
  by (auto simp: get_float_def split: option.splits if_splits)

lemma default_interval_pos: "\<not> float_le_zero DEFAULT_CONFIG_RELOAD_INTERVAL_SECONDS"
  by (simp add: DEFAULT_CONFIG_RELOAD_INTERVAL_SECONDS_def)

definition housecodes_ok :: "string list option \<Rightarrow> bool" where
  "housecodes_ok hs \<longleftrightarrow> (case hs of None \<Rightarrow> True | Some l \<Rightarrow> l \<noteq> [] \<and> list_all is_housecode l)"

lemma get_env_str_ne: "d \<noteq> [] \<Longrightarrow> get_env_str env n d \<noteq> []"
  by (auto simp: get_env_str_def get_env_def split: option.splits)

text \<open>The sources of the fields a client of the configuration relies on.\<close>

lemma load_config_Inr:
  assumes "load_config env fs = Inr c"
  shows "\<exists>data default_names.
    load_config_file (cf_config_file c) fs = Inr data \<and>
    get_bool env ''X10_USE_FRIENDLY_NAMES'' True = Inr default_names \<and>
    file_bool data ''use_friendly_names'' default_names = Inr (cf_use_friendly_names c) \<and>
    get_secret env fs ''MQTT_PASSWORD'' ''MQTT_PASSWORD_FILE'' = Inr (cf_mqtt_password c) \<and>
    load_mqtt_tls_config env fs = Inr (cf_mqtt_tls c) \<and>
    get_float env ''BRIDGE_CONFIG_RELOAD_INTERVAL_SECONDS'' DEFAULT_CONFIG_RELOAD_INTERVAL_SECONDS =
      Inr (cf_config_reload_interval_seconds c) \<and>
    devices_from_sources env data (cf_use_friendly_names c) = Inr (cf_devices c) \<and>
    parse_housecodes (get_env env ''X10_HOUSECODES'' None) = Inr (cf_x10_housecodes c) \<and>
    cf_config_file c = get_env env ''BRIDGE_CONFIG_FILE'' (Some DEFAULT_CONFIG_FILE) \<and>
    cf_mqtt_base_topic c = get_env_str env ''MQTT_BASE_TOPIC'' CFG_BASE_TOPIC \<and>
    cf_mqtt_discovery_prefix c = get_env_str env ''MQTT_DISCOVERY_PREFIX'' CFG_DISCOVERY_PREFIX"
  using assms unfolding load_config_def Let_def rbind_eq_Inr by (elim exE conjE) auto

lemma load_config_housecodes:
  assumes "load_config env fs = Inr c"
  shows "housecodes_ok (cf_x10_housecodes c)"
proof -
  have "parse_housecodes (get_env env ''X10_HOUSECODES'' None) = Inr (cf_x10_housecodes c)"
    using load_config_Inr [OF assms] by blast
  then show ?thesis
    using parse_housecodes_ok [of "get_env env ''X10_HOUSECODES'' None"]
    by (cases "cf_x10_housecodes c") (simp_all add: housecodes_ok_def)
qed

lemma rbind_error: "rbind r f = Inl e \<Longrightarrow> (r = Inl e \<Longrightarrow> P) \<Longrightarrow> (\<And>a. r = Inr a \<Longrightarrow> f a = Inl e \<Longrightarrow> P) \<Longrightarrow> P"
  by (cases r) auto

lemma load_config_error: "load_config env fs = Inl e \<Longrightarrow> is_ConfigError e"
  unfolding load_config_def Let_def
  by (elim rbind_error config_errors) simp_all


subsection \<open>The file the bridge writes is the configuration it runs with\<close>

lemma map_of_sort_json_fields:
  assumes "distinct (map fst kvs)"
  shows "map_of (sort_key fst (map (\<lambda>(k, v). (k, sort_json v)) kvs)) k = map_option sort_json (map_of kvs k)"
proof -
  let ?kvs = "map (\<lambda>(k, v). (k, sort_json v)) kvs"
  have keys: "map fst ?kvs = map fst kvs" by (induction kvs) auto
  then have "distinct (map fst ?kvs)" using assms by (simp only:)
  moreover from this have "distinct (map fst (sort_key fst ?kvs))"
    by (metis distinct_map distinct_sort inj_on_cong set_sort)
  ultimately have "map_of (sort_key fst ?kvs) = map_of ?kvs"
    using map_of_eqI [of "sort_key fst ?kvs" ?kvs] by (metis map_of_inject_set set_sort)
  then show ?thesis by (simp add: map_of_map)
qed

lemma device_type_read_back: "parse_device_type (lower (device_type_name ty)) = Inr ty"
proof -
  have "\<forall>ty \<in> set [SWITCH, LIGHT, CHIME]. parse_device_type (lower (device_type_name ty)) = Inr ty" by code_simp
  then show ?thesis by (cases ty) simp_all
qed

lemma device_type_not_profile: "lower (strip (lower (device_type_name ty))) \<notin> profile_ids"
proof -
  have "\<forall>ty \<in> set [SWITCH, LIGHT, CHIME]. lower (strip (lower (device_type_name ty))) \<notin> profile_ids" by code_simp
  then show ?thesis by (cases ty) simp_all
qed

text \<open>Reading a device object depends only on the values of its keys.\<close>

lemma parse_device_object_cong: "map_of kvs = map_of kvs' \<Longrightarrow> parse_device_object f a kvs = parse_device_object f a kvs'"
  by (simp add: parse_device_object_def obj_get_def obj_get_or_def)

lemma parse_list_item_payload:
  assumes "device_ok f d"
  shows "parse_list_item f (sort_json (device_to_file_payload d)) = Inr d"
proof -
  define kvs where "kvs = obj_fields (device_to_file_payload d)"
  have kvs: "device_to_file_payload d = JObj kvs" "distinct (map fst kvs)"
    by (auto simp: kvs_def device_to_file_payload_def split: option.splits)
  obtain kvs' where s: "sort_json (device_to_file_payload d) = JObj kvs'"
    and look: "map_of kvs' k = map_option sort_json (map_of kvs k)" for k
    using map_of_sort_json_fields [OF kvs(2)] by (simp add: kvs(1))
  have v: "map_of kvs ''address'' = Some (JStr (dc_address d))" "map_of kvs ''name'' = Some (JStr (dc_name d))"
    "map_of kvs ''type'' = Some (JStr (lower (device_type_name (dc_entity_type d))))"
    "map_of kvs ''command_repeats'' = Some (JInt (dc_command_repeats d))"
    "map_of kvs ''command_repeat_delay_ms'' = Some (JInt (dc_command_repeat_delay_ms d))"
    "map_of kvs ''profile'' = map_option JStr (dc_profile d)"
    by (simp_all add: kvs_def device_to_file_payload_def split: option.splits)
  have a: "valid_address (dc_address d)" "dc_name d \<noteq> []" "strip (dc_name d) = dc_name d"
    "f \<or> dc_name d = dc_address d"
    and dev: "cfg_device (dc_address d) (dc_name d) (dc_entity_type d) (JInt (dc_command_repeats d))
       (JInt (dc_command_repeat_delay_ms d)) (dc_profile d) = Inr d"
    using assms by (auto simp: device_ok_def)
  have n: "display_name (dc_address d) (Some (dc_name d)) f = dc_name d"
    using a by (auto simp: display_name_def)
  have "parse_device_object f (dc_address d) kvs' = Inr d"
  proof (cases "dc_profile d")
    case None
    have "parse_device_type_and_profile (lower (device_type_name (dc_entity_type d))) = Inr (dc_entity_type d, None)"
      unfolding parse_device_type_and_profile_def Let_def
      by (simp only: device_type_not_profile device_type_read_back if_False rbind_simps)
    then show ?thesis using dev None by (simp add: parse_device_object_def obj_get_def obj_get_or_def look v n)
  next
    case (Some q)
    then show ?thesis using dev
      by (simp add: parse_device_object_def obj_get_def obj_get_or_def look v n device_type_read_back)
  qed
  then show ?thesis
    using a(1) by (simp add: s parse_list_item_def obj_get_or_def look v config_addresses.norm_valid valid_address_canon)
qed

definition file_devices :: "(address \<times> device_config) list \<Rightarrow> (address \<times> device_config) list" where
  "file_devices devices = map (\<lambda>d. (dc_address d, d)) (sort_key dc_address (map snd devices))"

lemma update_fresh: "k \<notin> set (map fst d) \<Longrightarrow> AList.update k v d = d @ [(k, v)]"
  by (induction d) auto

lemma add_devices_distinct:
  "\<forall>d \<in> set ds. read_item (item d) = Inr d \<Longrightarrow> distinct (map fst acc @ map dc_address ds) \<Longrightarrow>
   add_devices read_item (map item ds) acc = Inr (acc @ map (\<lambda>d. (dc_address d, d)) ds)"
proof (induction ds arbitrary: acc)
  case (Cons d ds)
  then have "AList.update (dc_address d) d acc = acc @ [(dc_address d, d)]" by (intro update_fresh) auto
  with Cons show ?case by (simp add: Cons.IH [of "acc @ [(dc_address d, d)]"])
qed simp

lemma devices_ok_addresses: "devices_ok f devices \<Longrightarrow> map (\<lambda>d. (dc_address d, d)) (map snd devices) = devices"
  by (force simp: devices_ok_def intro!: map_idI)

lemma file_devices_same:
  assumes "devices_ok f devices"
  shows "set (file_devices devices) = set devices" "distinct (map fst (file_devices devices))"
    "map_of (file_devices devices) = map_of devices"
proof -
  let ?pair = "\<lambda>d. (dc_address d, d)"
  have eq: "map ?pair (map snd devices) = devices" by (rule devices_ok_addresses [OF assms])
  have "set (file_devices devices) = ?pair ` set (map snd devices)" by (simp add: file_devices_def)
  also have "\<dots> = set (map ?pair (map snd devices))" by (simp add: image_image)
  finally show set_eq: "set (file_devices devices) = set devices" unfolding eq .
  have keys: "map dc_address (map snd devices) = map fst devices"
    using arg_cong [OF eq, of "map fst"] by (simp add: o_def)
  have "distinct (map dc_address (map snd devices))"
    unfolding keys using assms by (simp add: devices_ok_def)
  then have "distinct (map dc_address (sort_key dc_address (map snd devices)))"
    by (metis distinct_map distinct_sort set_sort)
  then show d: "distinct (map fst (file_devices devices))" by (simp add: file_devices_def o_def)
  show "map_of (file_devices devices) = map_of devices"
    using d set_eq assms by (subst map_of_inject_set) (auto simp: devices_ok_def)
qed

lemma file_devices_read_back:
  assumes "devices_ok f devices"
  shows "parse_device_config (JArr (map (sort_json \<circ> device_to_file_payload) (sort_key dc_address (map snd devices)))) f =
    Inr (file_devices devices)"
proof -
  let ?ds = "sort_key dc_address (map snd devices)"
  have "\<forall>d \<in> set ?ds. parse_list_item f ((sort_json \<circ> device_to_file_payload) d) = Inr d"
    using assms by (auto simp: devices_ok_def intro!: parse_list_item_payload)
  moreover have "distinct (map dc_address ?ds)"
    using file_devices_same(2) [OF assms] by (simp add: file_devices_def o_def)
  ultimately have "add_devices (parse_list_item f) (map (sort_json \<circ> device_to_file_payload) ?ds) [] =
      Inr ([] @ map (\<lambda>d. (dc_address d, d)) ?ds)"
    by (intro add_devices_distinct) simp_all
  then show ?thesis by (simp add: parse_device_config_def file_devices_def)
qed

lemma config_file_payload_ok: "json_ok (config_file_payload c)"
  by (auto simp: config_file_payload_def device_to_file_payload_def list_all_iff split: option.splits)

text \<open>What a reader of the written file finds.\<close>

lemma written_config_file:
  assumes "devices_ok (cf_use_friendly_names c) (cf_devices c)" "fs_read_fault fs = None"
    "map_of (fs_files fs) p = Some (dumps_indent2 (config_file_payload c) @ [CHR 0x0A])"
  shows "\<exists>data. load_config_file (Some p) fs = Inr data \<and>
    (\<forall>b. file_bool data ''use_friendly_names'' b = Inr (cf_use_friendly_names c)) \<and>
    devices_from_sources env data (cf_use_friendly_names c) = Inr (file_devices (cf_devices c))"
proof -
  define kvs where "kvs = obj_fields (config_file_payload c)"
  have kvs: "config_file_payload c = JObj kvs" "distinct (map fst kvs)"
    by (simp_all add: kvs_def config_file_payload_def)
  define data where "data = sort_key fst (map (\<lambda>(k, v). (k, sort_json v)) kvs)"
  have look: "map_of data k = map_option sort_json (map_of kvs k)" for k
    unfolding data_def by (rule map_of_sort_json_fields [OF kvs(2)])
  have "loads (dumps_indent2 (config_file_payload c) @ [CHR 0x0A]) = Some (JObj data)"
    using loads_dumps_indent2 [OF config_file_payload_ok [of c]] by (simp add: kvs(1) data_def)
  moreover have "fs_exists fs p" using assms(3) by (force simp: fs_exists_def dest: map_of_SomeD)
  ultimately have "load_config_file (Some p) fs = Inr data"
    using assms(2,3) by (simp add: load_config_file_def fs_read_def)
  moreover have v: "map_of kvs ''use_friendly_names'' = Some (JBool (cf_use_friendly_names c))"
    "map_of kvs ''devices'' = Some (JArr (map device_to_file_payload (sort_key dc_address (map snd (cf_devices c)))))"
    "map_of kvs ''x10_devices'' = None"
    by (simp_all add: kvs_def config_file_payload_def)
  ultimately show ?thesis
    using file_devices_read_back [OF assms(1)] by (simp add: file_bool_def devices_from_sources_def look)
qed

lemma get_secret_same:
  assumes "get_secret env fs n v = Inr x" "fs_read_fault fs' = fs_read_fault fs"
    and "\<And>q. get_env env v None = Some q \<Longrightarrow> map_of (fs_files fs) q \<noteq> None \<Longrightarrow> map_of (fs_files fs') q = map_of (fs_files fs) q"
  shows "get_secret env fs' n v = Inr x"
proof (cases "get_env env v None")
  case None
  with assms(1) show ?thesis by (simp add: get_secret_def Let_def)
next
  case (Some q)
  with assms(1) obtain t where "fs_read q fs = Inr t"
    by (cases "fs_read q fs") (auto simp: get_secret_def Let_def split: if_splits)
  then have "fs_read_fault fs = None" "map_of (fs_files fs) q \<noteq> None"
    by (auto simp: fs_read_def split: option.splits)
  then have "fs_read q fs' = fs_read q fs" using assms(2) assms(3) [OF Some] by (simp add: fs_read_def)
  with assms(1) Some show ?thesis by (simp add: get_secret_def Let_def split: if_splits)
qed

lemma load_tls_same:
  assumes "load_mqtt_tls_config env fs = Inr t"
    and "\<And>x. get_secret env fs ''MQTT_TLS_KEY_PASSWORD'' ''MQTT_TLS_KEY_PASSWORD_FILE'' = Inr x \<Longrightarrow>
      get_secret env fs' ''MQTT_TLS_KEY_PASSWORD'' ''MQTT_TLS_KEY_PASSWORD_FILE'' = Inr x"
  shows "load_mqtt_tls_config env fs' = Inr t"
proof -
  obtain b where b: "get_bool env ''MQTT_TLS_ENABLED'' False = Inr b"
    using assms(1) by (auto simp: load_mqtt_tls_config_def rbind_eq_Inr)
  obtain k where k: "get_secret env fs ''MQTT_TLS_KEY_PASSWORD'' ''MQTT_TLS_KEY_PASSWORD_FILE'' = Inr k"
    using assms(1) by (auto simp: load_mqtt_tls_config_def Let_def rbind_eq_Inr)
  from assms(1) k assms(2) [OF k] show ?thesis by (simp add: load_mqtt_tls_config_def)
qed

lemma load_config_same:
  assumes "load_config env fs = Inr c"
    and "load_config_file (cf_config_file c) fs' = Inr data"
    and "\<And>b. file_bool data ''use_friendly_names'' b = Inr (cf_use_friendly_names c)"
    and "devices_from_sources env data (cf_use_friendly_names c) = Inr devs"
    and "\<And>n v x. v \<in> {''MQTT_PASSWORD_FILE'', ''MQTT_TLS_KEY_PASSWORD_FILE''} \<Longrightarrow>
      get_secret env fs n v = Inr x \<Longrightarrow> get_secret env fs' n v = Inr x"
  shows "load_config env fs' = Inr (c\<lparr>cf_devices := devs\<rparr>)"
proof -
  have t: "load_mqtt_tls_config env fs = Inr t \<Longrightarrow> load_mqtt_tls_config env fs' = Inr t" for t
    using load_tls_same [of env fs t fs'] assms(5) by blast
  have f: "cf_config_file c = get_env env ''BRIDGE_CONFIG_FILE'' (Some DEFAULT_CONFIG_FILE)"
    using load_config_Inr [OF assms(1)] by blast
  have s: "get_secret env fs ''MQTT_PASSWORD'' ''MQTT_PASSWORD_FILE'' = Inr x \<Longrightarrow>
      get_secret env fs' ''MQTT_PASSWORD'' ''MQTT_PASSWORD_FILE'' = Inr x" for x
    by (rule assms(5)) simp_all
  show ?thesis
    using assms(1) assms(2) [unfolded f] assms(4)
    unfolding load_config_def Let_def rbind_eq_Inr
    by (elim exE conjE) (auto simp: assms(3) dest!: s t)
qed

text \<open>
  C24. The file the bridge creates holds the configuration it runs with.  When the configuration was loaded
  and its file does not exist yet, \<^verbatim>\<open>create_config_file_if_missing\<close> writes it, and loading again with the
  same environment gives the same configuration: the same dictionary of devices (now listed by
  address, with the same profiles, names and repeat settings), the same naming mode and the same
  settings.  The secrets must not be kept in the temporary file of the write.
\<close>

theorem config_file_roundtrip:
  assumes "load_config env fs = Inr c" "cf_config_file c = Some p" "\<not> fs_exists fs p"
    and "fs_read_fault fs = None" "fs_write_fault fs = None" "fs_replace_fault fs = None"
    and "get_env env ''MQTT_PASSWORD_FILE'' None \<noteq> Some (p @ ''.tmp'')"
    and "get_env env ''MQTT_TLS_KEY_PASSWORD_FILE'' None \<noteq> Some (p @ ''.tmp'')"
  shows "\<exists>fs'. create_config_file_if_missing c fs = (Inr True, fs') \<and>
    load_config env fs' = Inr (c\<lparr>cf_devices := file_devices (cf_devices c)\<rparr>) \<and>
    map_of (file_devices (cf_devices c)) = map_of (cf_devices c)"
proof -
  let ?tmp = "p @ ''.tmp''" and ?text = "dumps_indent2 (config_file_payload c) @ [CHR 0x0A]"
  define fs' where "fs' = fs\<lparr>fs_files := AList.update p ?text (AList.delete ?tmp (AList.update ?tmp ?text (fs_files fs)))\<rparr>"
  have ok: "devices_ok (cf_use_friendly_names c) (cf_devices c)"
    using load_config_Inr [OF assms(1)] devices_from_sources_ok by blast
  have created: "create_config_file_if_missing c fs = (Inr True, fs')"
    using assms(2,3) write_then_replace [OF assms(5,6), of ?tmp ?text p]
    by (auto simp: create_config_file_if_missing_def Let_def fs'_def)
  have wr: "map_of (fs_files fs') p = Some ?text" "fs_read_fault fs' = None"
    using assms(4) by (simp_all add: fs'_def replaced_file)
  obtain data where data: "load_config_file (Some p) fs' = Inr data"
    "devices_from_sources env data (cf_use_friendly_names c) = Inr (file_devices (cf_devices c))"
    "\<And>b. file_bool data ''use_friendly_names'' b = Inr (cf_use_friendly_names c)"
    using written_config_file [OF ok wr(2,1), of env] by blast
  have same: "get_secret env fs' n v = Inr x"
    if "v \<in> {''MQTT_PASSWORD_FILE'', ''MQTT_TLS_KEY_PASSWORD_FILE''}" "get_secret env fs n v = Inr x" for n v x
  proof (rule get_secret_same [OF that(2)])
    show "fs_read_fault fs' = fs_read_fault fs" by (simp add: fs'_def)
    fix q assume q: "get_env env v None = Some q" "map_of (fs_files fs) q \<noteq> None"
    have "q \<noteq> p" using q(2) assms(3) unfolding map_of_eq_None_iff by (auto simp: fs_exists_def)
    moreover have "q \<noteq> ?tmp" using q(1) that(1) assms(7,8) by auto
    ultimately show "map_of (fs_files fs') q = map_of (fs_files fs) q"
      unfolding fs'_def by (simp add: replaced_file(2) del: map_of_update)
  qed
  have "load_config env fs' = Inr (c\<lparr>cf_devices := file_devices (cf_devices c)\<rparr>)"
    by (rule load_config_same [OF assms(1) _ data(3,2) same]) (simp_all add: assms(2) data(1))
  with created file_devices_same(3) [OF ok] show ?thesis by blast
qed

definition demo_env :: environment where
  "demo_env = map_of [(''X10_DEVICES'', ''b2: Door bell :sc546a_chime, a1:Lamp:light:3:200''),
     (''X10_HOUSECODES'', ''a-c''), (''BRIDGE_CONFIG_FILE'', ''/c.json''),
     (''MQTT_PASSWORD_FILE'', ''/run/secret'')]"

definition demo_files :: file_system where
  "demo_files = \<lparr>fs_files = [(''/run/secret'', ''pw'')], fs_read_fault = None, fs_write_fault = None, fs_replace_fault = None\<rparr>"

lemma demo_config_loaded:
  "case load_config demo_env demo_files of
     Inl _ \<Rightarrow> False
   | Inr c \<Rightarrow> cf_config_file c = Some ''/c.json'' \<and> map fst (cf_devices c) = [''B2'', ''A1''] \<and> cf_mqtt_password c = Some ''pw''"
  by code_simp

theorem config_file_roundtrip_witness:
  "\<exists>c fs'. load_config demo_env demo_files = Inr c \<and> create_config_file_if_missing c demo_files = (Inr True, fs') \<and>
     load_config demo_env fs' = Inr (c\<lparr>cf_devices := file_devices (cf_devices c)\<rparr>) \<and> map fst (cf_devices c) = [''B2'', ''A1'']"
proof -
  obtain c where c: "load_config demo_env demo_files = Inr c" "cf_config_file c = Some ''/c.json''"
    "map fst (cf_devices c) = [''B2'', ''A1'']"
    using demo_config_loaded by (auto split: sum.splits)
  have h: "\<not> fs_exists demo_files ''/c.json''" "fs_read_fault demo_files = None" "fs_write_fault demo_files = None"
    "fs_replace_fault demo_files = None" "get_env demo_env ''MQTT_PASSWORD_FILE'' None \<noteq> Some (''/c.json'' @ ''.tmp'')"
    "get_env demo_env ''MQTT_TLS_KEY_PASSWORD_FILE'' None \<noteq> Some (''/c.json'' @ ''.tmp'')"
    by code_simp+
  from config_file_roundtrip [OF c(1,2) h] obtain fs' where
    "create_config_file_if_missing c demo_files = (Inr True, fs')"
    "load_config demo_env fs' = Inr (c\<lparr>cf_devices := file_devices (cf_devices c)\<rparr>)" by blast
  with c show ?thesis by (intro exI [of _ c] exI [of _ fs']) simp
qed

end
