(* ===== verification/MqttTls.thy ===== *)
theory MqttTls
  imports Config
begin

section \<open>The TLS context (\<^verbatim>\<open>mqtt_tls.py\<close>)\<close>

text \<open>
  An \<^verbatim>\<open>SSLContext\<close> is the record of the attributes the source sets.  What the library \<^verbatim>\<open>ssl\<close> reads
  from files is a parameter: whether it has \<^verbatim>\<open>TLSVersion\<close>, and which exception loading the trusted
  certificates or the client's chain raises, if any.  \<^verbatim>\<open>ssl.SSLError\<close> is a subclass of \<^verbatim>\<open>OSError\<close>.
\<close>

record ssl_context =
  sc_cafile :: "string option"
  sc_check_hostname :: bool
  sc_cert_required :: bool
  sc_minimum_tls12 :: bool
  sc_cert_chain :: "(string \<times> string \<times> string option) option"

record ssl_library =
  sl_has_tls_version :: bool
  sl_load_cafile :: "string option \<Rightarrow> exn option"
  sl_load_cert_chain :: "string \<Rightarrow> string \<Rightarrow> string option \<Rightarrow> exn option"

text \<open>\<^verbatim>\<open>ssl.create_default_context(cafile=...)\<close> and \<^verbatim>\<open>context.load_cert_chain(...)\<close>\<close>

definition create_default_context :: "ssl_library \<Rightarrow> string option \<Rightarrow> ssl_context result" where
  "create_default_context lib cafile =
     (case sl_load_cafile lib cafile of
        Some e \<Rightarrow> Inl e
      | None \<Rightarrow> Inr \<lparr>sc_cafile = cafile, sc_check_hostname = True, sc_cert_required = True,
                     sc_minimum_tls12 = False, sc_cert_chain = None\<rparr>)"

definition load_cert_chain ::
  "ssl_library \<Rightarrow> string \<Rightarrow> string \<Rightarrow> string option \<Rightarrow> ssl_context \<Rightarrow> ssl_context result" where
  "load_cert_chain lib certfile keyfile password ctx =
     (case sl_load_cert_chain lib certfile keyfile password of
        Some e \<Rightarrow> Inl e
      | None \<Rightarrow> Inr (ctx\<lparr>sc_cert_chain := Some (certfile, keyfile, password)\<rparr>))"

definition build_mqtt_ssl_context :: "ssl_library \<Rightarrow> mqtt_tls_config \<Rightarrow> ssl_context option result" where
  "build_mqtt_ssl_context lib t =
     (if \<not> mt_enabled t then Inr None
      else
        let built =
          rbind (create_default_context lib (mt_ca_file t)) (\<lambda>ctx.
            let ctx = ctx\<lparr>sc_check_hostname := True\<rparr>;
                ctx = ctx\<lparr>sc_cert_required := True\<rparr>;
                ctx = (if sl_has_tls_version lib then ctx\<lparr>sc_minimum_tls12 := True\<rparr> else ctx) in
            if opt_truthy (mt_cert_file t) \<and> opt_truthy (mt_key_file t)
            then load_cert_chain lib (the (mt_cert_file t)) (the (mt_key_file t)) (mt_key_password t) ctx
            else Inr ctx) in
        case built of
          Inr ctx \<Rightarrow> Inr (Some ctx)
        | Inl e \<Rightarrow>
            if is_OSError e \<or> is_ValueError e
            then Inl (MqttTlsError (''Unable to configure MQTT TLS: '' @ exn_text e))
            else Inl e)"

text \<open>
  C30. From the environment to the context: with settings that were accepted, TLS that is off has no
  settings at all and yields no context; TLS that is on yields an error when a file cannot be loaded, and
  otherwise a context that always requires the broker's certificate and checks its host name, refuses
  protocols before TLS 1.2 where the library can, trusts the configured authority, and carries
  the client's chain exactly when a certificate is configured, with the configured key and password.
\<close>

theorem tls_context_verified:
  assumes "load_mqtt_tls_config env fs = Inr t"
  shows "case build_mqtt_ssl_context lib t of
      Inl e \<Rightarrow> mt_enabled t \<and> (sl_load_cafile lib (mt_ca_file t) \<noteq> None \<or>
        (\<exists>c k. mt_cert_file t = Some c \<and> mt_key_file t = Some k \<and> sl_load_cert_chain lib c k (mt_key_password t) \<noteq> None))
    | Inr None \<Rightarrow> t = no_tls
    | Inr (Some ctx) \<Rightarrow> mt_enabled t \<and> sc_cert_required ctx \<and> sc_check_hostname ctx \<and>
        sc_minimum_tls12 ctx = sl_has_tls_version lib \<and> sc_cafile ctx = mt_ca_file t \<and>
        (case mt_cert_file t of
           None \<Rightarrow> sc_cert_chain ctx = None \<and> mt_key_file t = None \<and> mt_key_password t = None
         | Some c \<Rightarrow> \<exists>k. mt_key_file t = Some k \<and> sc_cert_chain ctx = Some (c, k, mt_key_password t))"
proof -
  note loaded = tls_settings_consistent [of env fs, unfolded assms sum.case]
  have truthy: "opt_truthy (mt_cert_file t) \<longleftrightarrow> mt_cert_file t \<noteq> None" "opt_truthy (mt_key_file t) \<longleftrightarrow> mt_key_file t \<noteq> None"
    using loaded by (simp_all del: not_None_eq)
  show ?thesis
  proof (cases "mt_enabled t")
    case False
    with loaded show ?thesis by (simp add: build_mqtt_ssl_context_def)
  next
    case True
    note settings = loaded [THEN conjunct2, THEN conjunct2, THEN conjunct2, THEN conjunct2, THEN conjunct2, unfolded if_P [OF True]]
    have pair: "(mt_cert_file t = None) = (mt_key_file t = None)" "mt_key_file t = None \<Longrightarrow> mt_key_password t = None"
      using settings by (rule conjunct1) (use settings in simp)
    with True truthy show ?thesis
      by (cases "mt_cert_file t"; cases "mt_key_file t"; cases "sl_load_cafile lib (mt_ca_file t)")
         (auto simp: build_mqtt_ssl_context_def create_default_context_def load_cert_chain_def Let_def split: option.splits)
  qed
qed

definition demo_tls_env :: environment where
  "demo_tls_env = map_of [(''MQTT_TLS_ENABLED'', ''true''), (''MQTT_TLS_CERT_FILE'', ''/c.pem''), (''MQTT_TLS_KEY_FILE'', ''/k.pem'')]"

definition demo_ssl :: ssl_library where
  "demo_ssl = \<lparr>sl_has_tls_version = True, sl_load_cafile = (\<lambda>f. if f = None then None else Some (OSError ''No such file'')),
     sl_load_cert_chain = (\<lambda>c k p. None)\<rparr>"

theorem tls_context_verified_witness:
  "\<exists>t ctx. load_mqtt_tls_config demo_tls_env demo_files = Inr t \<and> build_mqtt_ssl_context demo_ssl t = Inr (Some ctx) \<and>
     sc_cert_required ctx \<and> sc_check_hostname ctx \<and> sc_minimum_tls12 ctx \<and> sc_cert_chain ctx = Some (''/c.pem'', ''/k.pem'', None)"
proof -
  let ?t = "\<lparr>mt_enabled = True, mt_ca_file = None, mt_cert_file = Some ''/c.pem'', mt_key_file = Some ''/k.pem'', mt_key_password = None\<rparr>"
  have t: "load_mqtt_tls_config demo_tls_env demo_files = Inr ?t" by code_simp
  have "case build_mqtt_ssl_context demo_ssl ?t of Inr (Some ctx) \<Rightarrow> True | _ \<Rightarrow> False" by code_simp
  then obtain ctx where ctx: "build_mqtt_ssl_context demo_ssl ?t = Inr (Some ctx)" by (auto split: sum.splits option.splits)
  from tls_context_verified [OF t, of demo_ssl] t ctx show ?thesis by (auto simp: demo_ssl_def)
qed

end
