(* ===== verification/MqttClient.thy ===== *)
theory MqttClient
  imports Topics PyStr JsonText
begin

section \<open>The MQTT client (\<^verbatim>\<open>mqtt_client.py\<close>)\<close>

text \<open>
  The wrapper around the paho client: how an inbound message is routed, how a payload becomes text,
  on which topic each kind of message is published.  A publication handed to paho is a value of
  \<open>mqtt_message\<close>; the network behind paho is not modelled.  The text of an inbound payload is the
  decoded one.
\<close>

subsection \<open>Publishing\<close>

record mqtt_message =
  mm_topic :: string
  mm_payload :: string
  mm_retain :: bool
  mm_qos :: nat

definition serialize_payload :: "json \<Rightarrow> string" where
  "serialize_payload v = (case v of
     JNull \<Rightarrow> []
   | JStr s \<Rightarrow> s
   | JArr vs \<Rightarrow> dumps_compact (JArr vs)
   | JObj kvs \<Rightarrow> dumps_compact (JObj kvs)
   | _ \<Rightarrow> py_str v)"

definition mqtt_publish :: "string \<Rightarrow> json \<Rightarrow> bool \<Rightarrow> nat \<Rightarrow> mqtt_message" where
  "mqtt_publish topic payload retain qos =
     \<lparr>mm_topic = topic, mm_payload = serialize_payload payload, mm_retain = retain, mm_qos = qos\<rparr>"

definition publish_discovery :: "discovery_message \<Rightarrow> mqtt_message result" where
  "publish_discovery m = Inr (mqtt_publish (dm_topic m) (dm_payload m) (dm_retain m) 0)"

definition publish_state :: "string \<Rightarrow> address \<Rightarrow> command \<Rightarrow> bool \<Rightarrow> mqtt_message result" where
  "publish_state base a c retain =
     rbind (topic_state a base) (\<lambda>t. Inr (mqtt_publish t (JStr (command_name c)) retain 0))"

definition publish_event :: "string \<Rightarrow> address \<Rightarrow> json \<Rightarrow> bool \<Rightarrow> mqtt_message result" where
  "publish_event base a payload retain =
     rbind (topic_event a base) (\<lambda>t. Inr (mqtt_publish t payload retain 0))"

definition publish_attributes :: "string \<Rightarrow> address \<Rightarrow> json \<Rightarrow> bool \<Rightarrow> mqtt_message result" where
  "publish_attributes base a payload retain =
     rbind (topic_attributes a base) (\<lambda>t. Inr (mqtt_publish t payload retain 0))"

definition publish_availability :: "string \<Rightarrow> bool \<Rightarrow> nat \<Rightarrow> mqtt_message result" where
  "publish_availability base online qos =
     rbind (topic_availability base) (\<lambda>t.
       Inr (mqtt_publish t (JStr (if online then ''online'' else ''offline'')) True qos))"

definition publish_status :: "string \<Rightarrow> json \<Rightarrow> bool \<Rightarrow> nat \<Rightarrow> mqtt_message result" where
  "publish_status base payload retain qos =
     rbind (topic_status base) (\<lambda>t. Inr (mqtt_publish t payload retain qos))"

definition publish_bridge_response :: "string \<Rightarrow> json \<Rightarrow> bool \<Rightarrow> mqtt_message result" where
  "publish_bridge_response base payload retain =
     rbind (topic_bridge_response base) (\<lambda>t. Inr (mqtt_publish t payload retain 0))"

text \<open>The last will, set before the first connection: the bridge goes offline when the broker loses it.\<close>

definition last_will :: "string \<Rightarrow> mqtt_message result" where
  "last_will base =
     rbind (topic_availability base) (\<lambda>t. Inr (mqtt_publish t (JStr ''offline'') True 0))"

subsection \<open>Inbound messages\<close>

datatype mqtt_route =
    BridgeCommandMessage string string
  | CommandMessage string string string
  | IgnoredMessage

definition handle_device_command_message :: "string \<Rightarrow> string \<Rightarrow> string \<Rightarrow> mqtt_route option" where
  "handle_device_command_message base topic payload =
     (case parse_command_topic topic base of
        Inl _ \<Rightarrow> None
      | Inr device \<Rightarrow> Some (CommandMessage device payload topic))"

definition handle_bridge_command_message :: "string \<Rightarrow> string \<Rightarrow> string \<Rightarrow> mqtt_route option" where
  "handle_bridge_command_message base topic payload =
     (case parse_bridge_command_topic topic base of
        Inl _ \<Rightarrow> None
      | Inr _ \<Rightarrow> Some (BridgeCommandMessage payload topic))"

definition on_message :: "string \<Rightarrow> string \<Rightarrow> string \<Rightarrow> mqtt_route" where
  "on_message base topic raw =
     (let payload = strip raw in
      case handle_bridge_command_message base topic payload of
        Some r \<Rightarrow> r
      | None \<Rightarrow>
          (case handle_device_command_message base topic payload of
             Some r \<Rightarrow> r
           | None \<Rightarrow> IgnoredMessage))"

subsection \<open>Disconnect reasons\<close>

definition contains :: "string \<Rightarrow> string \<Rightarrow> bool" where
  "contains s t \<longleftrightarrow> list_ex (\<lambda>i. startswith (drop i s) t) [0..<Suc (length s)]"

definition disconnect_reason_code :: "'a list \<Rightarrow> 'a option" where
  "disconnect_reason_code args = (case args of [] \<Rightarrow> None | [a] \<Rightarrow> Some a | a # b # _ \<Rightarrow> Some b)"

definition is_authorization_failure :: "int option \<Rightarrow> string \<Rightarrow> bool" where
  "is_authorization_failure code label =
     (let normalized = map (\<lambda>c. if c = CHR ''_'' then CHR '' '' else c) (lower (strip label)) in
      code = Some 128 \<or> contains normalized ''not authorised'' \<or> contains normalized ''not authorized'' \<or>
      contains normalized ''bad user name or password'')"

subsection \<open>Routing\<close>

lemma topic_command_parts:
  assumes "topic_command a base = Inr t" "CHR ''/'' \<notin> set (strip_by is_slash (strip base))"
  shows "\<exists>b. clean_segment base = Inr b \<and> valid_address (canon a) \<and> topic_parts t = [b, canon a, ''command'']"
proof -
  obtain b where b: "clean_segment base = Inr b" "valid_address (canon a)" "t = topic_join [b, canon a, ''command'']"
    using assms(1) by (auto simp: topic_command_def device_topic_Inr suffix_segments)
  have "topic_parts t = [b, canon a, ''command'']"
    unfolding b(3)
  proof (rule topic_parts_join [OF clean_segment_clean [OF b(1)]])
    show "CHR ''/'' \<notin> set b" using b(1) assms(2) by (simp add: clean_segment_Inr)
    show "CHR ''/'' \<notin> set (canon a)" using valid_address_no_slash [OF b(2)] by blast
    show "canon a \<noteq> []" using valid_address_parts [OF b(2)] by (metis list.distinct(1))
  qed simp_all
  with b show ?thesis by blast
qed

lemma parse_command_topic_Inr:
  "parse_command_topic t base = Inr d \<longleftrightarrow>
     (\<exists>b s. clean_segment base = Inr b \<and> topic_parts t = [b, s, ''command''] \<and> topic_address s = Inr d)"
proof -
  consider p0 p1 p2 where "topic_parts t = [p0, p1, p2]" | "length (topic_parts t) \<noteq> 3"
    by (cases "topic_parts t"; cases "tl (topic_parts t)"; cases "tl (tl (topic_parts t))"; cases "tl (tl (tl (topic_parts t)))") auto
  then show ?thesis
  proof cases
    case 2
    then have "\<nexists>d. parse_command_topic t base = Inr d"
      by (auto simp: parse_command_topic_def rbind_eq_Inr split: list.splits)
    with 2 show ?thesis by auto
  qed (auto simp: parse_command_topic_def rbind_eq_Inr)
qed

lemma bridge_not_address: "canon a \<noteq> ''bridge'' \<or> \<not> valid_address (canon a)"
  by (cases "canon a = ''bridge''") (simp_all add: valid_address_def house_char_def)

text \<open>
  Inbound routing, for a base topic of one level: a message on a device's command topic reaches the
  device handler with the normalised address and the payload without surrounding white space; a
  message on the bridge's command topic reaches the bridge handler, although the wildcard subscription
  of the devices matches it too; whatever else is routed to a device has that device's command topic
  up to slashes and the spelling of the address.
\<close>

lemma on_message_routes:
  assumes "CHR ''/'' \<notin> set (strip_by is_slash (strip base))"
  shows "(topic_command a base = Inr t \<longrightarrow> on_message base t raw = CommandMessage (canon a) (strip raw) t) \<and>
    (topic_bridge_command base = Inr t \<longrightarrow> on_message base t raw = BridgeCommandMessage (strip raw) t) \<and>
    (on_message base t raw = CommandMessage d p t' \<longrightarrow>
      t' = t \<and> p = strip raw \<and> valid_address d \<and>
      (\<exists>b s. clean_segment base = Inr b \<and> topic_parts t = [b, s, ''command''] \<and> canon s = d))"
proof (intro conjI impI)
  assume "topic_command a base = Inr t"
  from topic_command_parts [OF this assms] obtain b where b: "clean_segment base = Inr b"
    "valid_address (canon a)" "topic_parts t = [b, canon a, ''command'']" by blast
  moreover have "canon a \<noteq> ''bridge''" using bridge_not_address [of a] b(2) by blast
  ultimately show "on_message base t raw = CommandMessage (canon a) (strip raw) t"
    by (simp add: on_message_def handle_bridge_command_message_def handle_device_command_message_def
        parse_bridge_command_topic_def parse_command_topic_def topic_address_spec)
next
  assume "topic_bridge_command base = Inr t"
  then obtain b where b: "clean_segment base = Inr b" "t = topic_join [b, ''bridge'', ''command'']"
    by (auto simp: topic_bridge_command_def rbind_eq_Inr)
  have "topic_parts t = [b, ''bridge'', ''command'']"
    unfolding b(2) using b(1) assms
    by (intro topic_parts_join clean_segment_clean [OF b(1)]) (simp_all add: clean_segment_Inr)
  with b(1) show "on_message base t raw = BridgeCommandMessage (strip raw) t"
    by (simp add: on_message_def handle_bridge_command_message_def parse_bridge_command_topic_def)
next
  assume "on_message base t raw = CommandMessage d p t'"
  then have 1: "t' = t" "p = strip raw" "parse_command_topic t base = Inr d"
    by (auto simp: on_message_def handle_bridge_command_message_def handle_device_command_message_def Let_def
        split: sum.splits option.splits)
  then show "t' = t" "p = strip raw" by simp_all
  from 1(3) show "valid_address d"
    and "\<exists>b s. clean_segment base = Inr b \<and> topic_parts t = [b, s, ''command''] \<and> canon s = d"
    by (auto simp: parse_command_topic_Inr topic_addresses.norm_Inr_iff)
qed

subsection \<open>Payload texts\<close>

text \<open>
  The text published for a dictionary or a list (discovery, status, attribute, event and response
  messages) is a JSON document that a reader turns back into the same value, up to the order of the
  keys of an object, for every value without floating-point numbers whose objects have distinct keys;
  all characters of strings survive, control characters and quotes included.  A string is published
  as it is and \<^verbatim>\<open>None\<close> as the empty text, which clears a retained message.
\<close>

lemma published_payload_readable:
  "(json_ok v \<and> (v = JObj kvs \<or> v = JArr vs) \<longrightarrow>
      loads (mm_payload (mqtt_publish t v retain qos)) = Some (sort_json v)) \<and>
   mm_payload (mqtt_publish t (JStr s) retain qos) = s \<and>
   mm_payload (mqtt_publish t JNull retain qos) = []"
  by (cases v) (auto simp: mqtt_publish_def serialize_payload_def loads_dumps_compact)

lemma published_payload_readable_witness:
  "loads (mm_payload (mqtt_publish ''t'' (JObj [(''b'', JArr [JInt (-3), JBool True, JNull]), (''a'', JStr [CHR 0x22, CHR 0x0A])]) True 0)) =
     Some (JObj [(''a'', JStr [CHR 0x22, CHR 0x0A]), (''b'', JArr [JInt (-3), JBool True, JNull])])"
proof -
  let ?kvs = "[(''b'', JArr [JInt (-3), JBool True, JNull]), (''a'', JStr [CHR 0x22, CHR 0x0A])]"
  let ?v = "JObj ?kvs"
  have "json_ok ?v" by code_simp
  moreover have "sort_json ?v = JObj [(''a'', JStr [CHR 0x22, CHR 0x0A]), (''b'', JArr [JInt (-3), JBool True, JNull])]"
    by code_simp
  ultimately show ?thesis using published_payload_readable [of ?v ?kvs "[]" "''t''" True 0 "[]"] by simp
qed

end
