(* ===== verification/MqttSession.thy ===== *)
theory MqttSession
  imports MqttTls MqttClient
begin

section \<open>Sessions of the MQTT client (\<^verbatim>\<open>mqtt_client.py\<close>)\<close>

text \<open>
  The \<^verbatim>\<open>MqttClient\<close> object around the paho client: its construction, the connection, the callbacks paho
  makes and the subscription.  The paho client is the list of the calls it has received; when it calls
  back, and with what reason, is up to a sequence of occurrences.  The callbacks of the bridge run under
  \<^verbatim>\<open>try\<close>/\<^verbatim>\<open>except Exception\<close>; they are recorded as notifications.
\<close>

subsection \<open>Reasons\<close>

text \<open>
  A reason object of paho, by what the source asks of it: \<^verbatim>\<open>int(r)\<close>; the attribute \<^verbatim>\<open>value\<close> and \<^verbatim>\<open>int\<close> of
  it; the results of \<^verbatim>\<open>getName()\<close> and \<^verbatim>\<open>get_name()\<close> where they are callable, \<open>None\<close> for one that raises;
  the attribute \<^verbatim>\<open>name\<close>; and \<^verbatim>\<open>str(r)\<close>.
\<close>

record reason_object =
  ro_int :: "int option"
  ro_value :: "int option option"
  ro_getters :: "string option list"
  ro_name :: "string option"
  ro_str :: string

definition reason_code_as_int :: "reason_object option \<Rightarrow> int option" where
  "reason_code_as_int r = (case r of
     None \<Rightarrow> None
   | Some x \<Rightarrow>
       (case ro_int x of
          Some i \<Rightarrow> Some i
        | None \<Rightarrow> (case ro_value x of None \<Rightarrow> None | Some v \<Rightarrow> v)))"

definition reason_code_label :: "reason_object option \<Rightarrow> string" where
  "reason_code_label r = (case r of
     None \<Rightarrow> ''unknown''
   | Some x \<Rightarrow>
       (case filter opt_truthy (ro_getters x) of
          Some name # _ \<Rightarrow> name
        | _ \<Rightarrow> (case ro_name x of
                  Some name \<Rightarrow> if name \<noteq> [] then name else ro_str x
                | None \<Rightarrow> ro_str x)))"

subsection \<open>The client\<close>

datatype paho_call =
    TlsSetContext ssl_context
  | UsernamePwSet string "string option"
  | WillSet mqtt_message
  | ReconnectDelaySet nat nat
  | ConnectAsync string int nat
  | LoopStart
  | Subscribe string nat
  | PahoPublish mqtt_message
  | PahoDisconnect
  | LoopStop

datatype notification = MqttConnected | MqttDisconnected "int option"

record mqtt_client =
  mq_host :: string
  mq_port :: int
  mq_username :: "string option"
  mq_password :: "string option"
  mq_base_topic :: string
  mq_keepalive :: nat
  mq_reconnect_min_delay :: nat
  mq_reconnect_max_delay :: nat
  mq_tls_config :: mqtt_tls_config
  mq_connect_callback :: bool
  mq_disconnect_callback :: bool
  mq_connected :: bool
  mq_calls :: "paho_call list"
  mq_notifications :: "notification list"
  mq_authorization_failed :: nat

definition paho :: "paho_call \<Rightarrow> mqtt_client \<Rightarrow> mqtt_client" where
  "paho x c = c\<lparr>mq_calls := mq_calls c @ [x]\<rparr>"

definition configure_tls :: "ssl_library \<Rightarrow> mqtt_client \<Rightarrow> mqtt_client result" where
  "configure_tls lib c =
     (if \<not> mt_enabled (mq_tls_config c) then Inr c
      else rbind (build_mqtt_ssl_context lib (mq_tls_config c)) (\<lambda>context.
        case context of
          None \<Rightarrow> Inl (RuntimeError ''MQTT TLS is enabled but no SSL context was created.'')
        | Some ctx \<Rightarrow> Inr (paho (TlsSetContext ctx) c)))"

definition configure_client :: "ssl_library \<Rightarrow> mqtt_client \<Rightarrow> mqtt_client result" where
  "configure_client lib c =
     rbind (configure_tls lib c) (\<lambda>c.
       let c = (if opt_truthy (mq_username c) then paho (UsernamePwSet (the (mq_username c)) (mq_password c)) c else c) in
       rbind (last_will (mq_base_topic c)) (\<lambda>w. Inr (paho (WillSet w) c)))"

definition new_mqtt_client ::
  "ssl_library \<Rightarrow> string \<Rightarrow> int \<Rightarrow> string option \<Rightarrow> string option \<Rightarrow> string \<Rightarrow> mqtt_tls_config \<Rightarrow> mqtt_client result" where
  "new_mqtt_client lib host port username password base tls =
     configure_client lib
       \<lparr>mq_host = host, mq_port = port, mq_username = username, mq_password = password, mq_base_topic = base,
        mq_keepalive = 60, mq_reconnect_min_delay = 1, mq_reconnect_max_delay = 30, mq_tls_config = tls,
        mq_connect_callback = False, mq_disconnect_callback = False, mq_connected = False, mq_calls = [],
        mq_notifications = [], mq_authorization_failed = 0\<rparr>"

definition set_connect_callback :: "mqtt_client \<Rightarrow> mqtt_client" where
  "set_connect_callback c = c\<lparr>mq_connect_callback := True\<rparr>"

definition set_disconnect_callback :: "mqtt_client \<Rightarrow> mqtt_client" where
  "set_disconnect_callback c = c\<lparr>mq_disconnect_callback := True\<rparr>"

text \<open>\<open>fault\<close> is what \<^verbatim>\<open>connect_async\<close> raises, if anything.\<close>

definition mq_connect :: "exn option \<Rightarrow> mqtt_client \<Rightarrow> unit result \<times> mqtt_client" where
  "mq_connect fault c =
     (let c = paho (ReconnectDelaySet (mq_reconnect_min_delay c) (mq_reconnect_max_delay c)) c;
          c = paho (ConnectAsync (mq_host c) (mq_port c) (mq_keepalive c)) c in
      case fault of
        Some e \<Rightarrow> if is_OSError e then (Inr (), paho LoopStart c) else (Inl e, c)
      | None \<Rightarrow> (Inr (), paho LoopStart c))"

definition mq_disconnect :: "mqtt_client \<Rightarrow> unit result \<times> mqtt_client" where
  "mq_disconnect c = (Inr (), paho LoopStop (paho PahoDisconnect c))"

definition subscribe_commands :: "mqtt_client \<Rightarrow> unit result \<times> mqtt_client" where
  "subscribe_commands c =
     (case topic_command_filter (mq_base_topic c) of
        Inl e \<Rightarrow> (Inl e, c)
      | Inr f \<Rightarrow> (Inr (), paho (Subscribe f 0) c))"

definition mq_on_connect :: "mqtt_client \<Rightarrow> unit result \<times> mqtt_client" where
  "mq_on_connect c =
     (case subscribe_commands (c\<lparr>mq_connected := True\<rparr>) of
        (Inl e, c) \<Rightarrow> (Inl e, c)
      | (Inr _, c) \<Rightarrow>
          (Inr (), if mq_connect_callback c then c\<lparr>mq_notifications := mq_notifications c @ [MqttConnected]\<rparr> else c))"

text \<open>The arguments after \<^verbatim>\<open>userdata\<close>, each an object or \<^verbatim>\<open>None\<close>.  An authorisation failure, which is only logged, is counted.\<close>

definition mq_on_disconnect :: "reason_object option list \<Rightarrow> mqtt_client \<Rightarrow> unit result \<times> mqtt_client" where
  "mq_on_disconnect args c =
     (let c = c\<lparr>mq_connected := False\<rparr>;
          reason_code = (case disconnect_reason_code args of None \<Rightarrow> None | Some r \<Rightarrow> r);
          reason_label = reason_code_label reason_code;
          reason_number = reason_code_as_int reason_code;
          c = (if is_authorization_failure reason_number reason_label
               then c\<lparr>mq_authorization_failed := Suc (mq_authorization_failed c)\<rparr> else c) in
      (Inr (), if mq_disconnect_callback c
               then c\<lparr>mq_notifications := mq_notifications c @ [MqttDisconnected reason_number]\<rparr> else c))"

subsection \<open>Sessions\<close>

datatype mqtt_occurrence =
    Connect "exn option"
  | PahoOnConnect
  | PahoOnDisconnect "reason_object option list"
  | Publish mqtt_message
  | Disconnect

fun mq_occurs :: "mqtt_occurrence \<Rightarrow> mqtt_client \<Rightarrow> unit result \<times> mqtt_client" where
  "mq_occurs (Connect fault) c = mq_connect fault c"
| "mq_occurs PahoOnConnect c = mq_on_connect c"
| "mq_occurs (PahoOnDisconnect args) c = mq_on_disconnect args c"
| "mq_occurs (Publish m) c = (Inr (), paho (PahoPublish m) c)"
| "mq_occurs Disconnect c = mq_disconnect c"

definition mq_session :: "mqtt_occurrence list \<Rightarrow> mqtt_client \<Rightarrow> mqtt_client" where
  "mq_session os c = fold (\<lambda>x c. snd (mq_occurs x c)) os c"

subsection \<open>Configuration comes first\<close>

fun configures :: "paho_call \<Rightarrow> bool" where
  "configures (TlsSetContext ctx) = True"
| "configures (UsernamePwSet u p) = True"
| "configures (WillSet w) = True"
| "configures _ = False"

fun subscribes :: "paho_call \<Rightarrow> string option" where
  "subscribes (Subscribe f q) = Some f"
| "subscribes _ = None"

text \<open>The calls a session adds, and what it leaves alone.\<close>

definition extends :: "mqtt_client \<Rightarrow> mqtt_client \<Rightarrow> bool" where
  "extends c c' \<longleftrightarrow> mq_base_topic c' = mq_base_topic c \<and>
     (\<exists>rest. mq_calls c' = mq_calls c @ rest \<and> (\<forall>x \<in> set rest. \<not> configures x \<and>
        (\<forall>f. subscribes x = Some f \<longrightarrow> topic_command_filter (mq_base_topic c) = Inr f)))"

lemma extends_refl: "extends c c"
  by (simp add: extends_def)

lemma extends_trans: "extends c c' \<Longrightarrow> extends c' c'' \<Longrightarrow> extends c c''"
  by (fastforce simp: extends_def)

lemma occurs_extends: "extends c (snd (mq_occurs x c))"
  by (cases x)
     (auto simp: extends_def mq_connect_def mq_disconnect_def mq_on_connect_def mq_on_disconnect_def subscribe_commands_def
       paho_def Let_def split: option.splits sum.splits)

lemma session_snoc: "mq_session (os @ [x]) c = snd (mq_occurs x (mq_session os c))"
  by (simp add: mq_session_def)

lemma session_extends: "extends c (mq_session os c)"
  by (induction os rule: rev_induct)
     (auto simp: session_snoc mq_session_def [of "[]"] extends_refl intro: extends_trans occurs_extends)

lemma built_context_verified:
  "build_mqtt_ssl_context lib t = Inr (Some ctx) \<Longrightarrow> mt_enabled t \<and> sc_cert_required ctx \<and> sc_check_hostname ctx"
  by (auto simp: build_mqtt_ssl_context_def create_default_context_def load_cert_chain_def Let_def
      split: if_splits sum.splits option.splits)

lemma new_client_calls:
  assumes "new_mqtt_client lib host port username password base tls = Inr c"
  shows "\<exists>tlss w. last_will base = Inr w \<and> mq_base_topic c = base \<and>
     mq_calls c = tlss @ (if opt_truthy username then [UsernamePwSet (the username) password] else []) @ [WillSet w] \<and>
     (if mt_enabled tls then \<exists>ctx. tlss = [TlsSetContext ctx] \<and> build_mqtt_ssl_context lib tls = Inr (Some ctx) else tlss = [])"
  using assms
  by (auto simp: new_mqtt_client_def configure_client_def configure_tls_def paho_def rbind_eq_Inr Let_def
      split: if_splits option.splits)

text \<open>
  C16.  For every client that could be built and any sequence of connections, callbacks, publications and
  disconnections: the TLS context, the credentials and the last will are given to paho before
  anything else and never again, so they are in force at every connection attempt.  With TLS enabled
  there is exactly one context and it requires the broker's certificate and checks the host name; there is never an
  unencrypted attempt.  The last will marks the bridge offline; credentials are set exactly
  when there is a user name.
\<close>

theorem mqtt_session_secured:
  assumes "new_mqtt_client lib host port username password base tls = Inr c"
  shows "\<exists>tlss w rest. mq_calls (mq_session os c) =
       tlss @ (if opt_truthy username then [UsernamePwSet (the username) password] else []) @ [WillSet w] @ rest \<and>
     (\<forall>x \<in> set rest. \<not> configures x) \<and>
     publish_availability base False 0 = Inr w \<and>
     (if mt_enabled tls
      then \<exists>ctx. tlss = [TlsSetContext ctx] \<and> sc_cert_required ctx \<and> sc_check_hostname ctx
      else tlss = [])"
proof -
  obtain tlss w where c: "last_will base = Inr w" "mq_calls c = tlss @ (if opt_truthy username then [UsernamePwSet (the username) password] else []) @ [WillSet w]"
    "if mt_enabled tls then \<exists>ctx. tlss = [TlsSetContext ctx] \<and> build_mqtt_ssl_context lib tls = Inr (Some ctx) else tlss = []"
    using new_client_calls [OF assms] by blast
  obtain rest where "mq_calls (mq_session os c) = mq_calls c @ rest" "\<forall>x \<in> set rest. \<not> configures x"
    using session_extends [of c os] unfolding extends_def by blast
  moreover have "publish_availability base False 0 = Inr w" using c(1) by (simp add: last_will_def publish_availability_def)
  moreover have "if mt_enabled tls then \<exists>ctx. tlss = [TlsSetContext ctx] \<and> sc_cert_required ctx \<and> sc_check_hostname ctx else tlss = []"
    using c(3) built_context_verified by (auto split: if_splits)
  ultimately show ?thesis
    unfolding c(2) by (intro exI [of _ tlss] exI [of _ w] exI [of _ rest]) simp
qed

definition demo_client_tls :: mqtt_tls_config where
  "demo_client_tls = \<lparr>mt_enabled = True, mt_ca_file = None, mt_cert_file = None, mt_key_file = None, mt_key_password = None\<rparr>"

theorem mqtt_session_secured_witness:
  "\<exists>c w ctx rest. new_mqtt_client demo_ssl ''mosquitto'' 8883 (Some ''x10'') (Some ''secret'') ''x10'' demo_client_tls = Inr c \<and>
     mq_calls (mq_session [Connect None, PahoOnConnect, PahoOnDisconnect [], PahoOnConnect] c) =
       [TlsSetContext ctx, UsernamePwSet ''x10'' (Some ''secret''), WillSet w] @ rest \<and> sc_cert_required ctx"
proof -
  let ?r = "new_mqtt_client demo_ssl ''mosquitto'' 8883 (Some ''x10'') (Some ''secret'') ''x10'' demo_client_tls"
  have "case ?r of Inl _ \<Rightarrow> False | Inr _ \<Rightarrow> True" by code_simp
  then obtain c where c: "?r = Inr c" by (auto split: sum.splits)
  have t: "opt_truthy (Some ''x10'')" "mt_enabled demo_client_tls" by (simp_all add: opt_truthy_def demo_client_tls_def)
  from mqtt_session_secured [OF c, of "[Connect None, PahoOnConnect, PahoOnDisconnect [], PahoOnConnect]"] t c show ?thesis
    by auto
qed

subsection \<open>Commands are delivered once\<close>

text \<open>
  Which topics a subscription covers, by the rules of MQTT: \<^verbatim>\<open>+\<close> stands for one level, a final \<^verbatim>\<open>#\<close> for any
  number of levels.
\<close>

fun levels_match :: "string list \<Rightarrow> string list \<Rightarrow> bool" where
  "levels_match [] ts = (ts = [])"
| "levels_match (f # fs) ts =
     (if f = ''#'' \<and> fs = [] then True
      else case ts of [] \<Rightarrow> False | t # ts' \<Rightarrow> (f = ''+'' \<or> f = t) \<and> levels_match fs ts')"

definition filter_matches :: "string \<Rightarrow> string \<Rightarrow> bool" where
  "filter_matches f t = levels_match (split_on CHR ''/'' f) (split_on CHR ''/'' t)"

definition subscriptions :: "mqtt_client \<Rightarrow> string set" where
  "subscriptions c = {f. \<exists>x \<in> set (mq_calls c). subscribes x = Some f}"

lemma filter_matches_command:
  assumes "clean b" "CHR ''/'' \<notin> set b" "CHR ''/'' \<notin> set s"
  shows "filter_matches (topic_join [b, ''+'', ''command'']) (topic_join [b, s, ''command''])"
proof -
  have "split_on CHR ''/'' (topic_join [b, x, ''command'']) = [b, x, ''command'']" if "CHR ''/'' \<notin> set x" for x
    using that assms(2) by (simp add: topic_join_def split_on_append split_on_none)
  then show ?thesis using assms(3) by (simp add: filter_matches_def)
qed

lemma subscribed_after_connect:
  assumes "new_mqtt_client lib host port username password base tls = Inr c" "topic_command_filter base = Inr f"
  shows "subscriptions (snd (mq_on_connect (mq_session os c))) = {f}" "mq_connected (snd (mq_on_connect (mq_session os c)))"
proof -
  let ?s = "mq_session os c"
  obtain tlss w where c: "mq_base_topic c = base"
    "mq_calls c = tlss @ (if opt_truthy username then [UsernamePwSet (the username) password] else []) @ [WillSet w]"
    "if mt_enabled tls then \<exists>ctx. tlss = [TlsSetContext ctx] \<and> build_mqtt_ssl_context lib tls = Inr (Some ctx) else tlss = []"
    using new_client_calls [OF assms(1)] by blast
  have none: "subscriptions c = {}" using c(2,3) by (auto simp: subscriptions_def split: if_splits)
  have base: "mq_base_topic ?s = base" "subscriptions ?s \<subseteq> {f}"
    using session_extends [of c os] none assms(2) c(1) unfolding extends_def by (auto simp: subscriptions_def)
  show "subscriptions (snd (mq_on_connect ?s)) = {f}" "mq_connected (snd (mq_on_connect ?s))"
    using base assms(2) by (auto simp: mq_on_connect_def subscribe_commands_def subscriptions_def paho_def)
qed



end
