(* ===== verification/BridgeCore.thy ===== *)
theory BridgeCore
  imports Config LineParser StateRuns Discovery DiscoveryRegistry MqttClient MochadClient
begin

section \<open>The bridge: state, effects, actions (\<^verbatim>\<open>bridge.py\<close>)\<close>

text \<open>
  The object \<^verbatim>\<open>Bridge\<close> is the record \<open>bridge\<close>.  The two clients appear in it as what the methods read
  and do: whether they are connected, the messages handed to the MQTT library and the lines written
  to the mochad socket, in order.  \<open>br_send_faults\<close> says which of the next writes to the socket fail,
  with the text of the \<^verbatim>\<open>OSError\<close>; after its end every write succeeds.  The clock readings of a call
  are texts: \<open>br_time\<close> is \<^verbatim>\<open>time.time()\<close>, \<open>br_time3\<close> the same with three decimals, \<open>br_now\<close> the date
  and time of events, \<open>br_stamp\<close> the stamp of a quarantined file.  Logging is left out; so is the
  pause between repeats.

  A method is a function from the state to a result or exception and the new state, and methods are
  composed with \<open>bbind\<close>.  Each callback of a client runs to its end before the next one; an exception
  that leaves it is caught and logged by the client.
\<close>

subsection \<open>The object\<close>

record bridge =
  br_config :: config
  br_devices :: "(address \<times> device_config) list"
  br_parser :: protocol_parser
  br_state :: state_manager
  br_discovery :: discovery_manager
  br_diagnostics :: mochad_diagnostics
  br_running :: bool
  br_stopping :: bool
  br_dropped_mqtt_publishes :: nat
  br_queued_device_commands :: "(address \<times> command) list"
  br_dropped_device_commands :: nat
  br_config_file_signature :: "(int \<times> int) option"
  br_health_file :: string
  br_mqtt_connected :: bool
  br_mochad_connected :: bool
  br_send_faults :: "string option list"
  br_files :: file_system
  br_published :: "mqtt_message list"
  br_sent :: "string list"
  br_time :: string
  br_time3 :: string
  br_now :: datetime
  br_stamp :: string

type_synonym 'a meth = "bridge \<Rightarrow> 'a result \<times> bridge"

definition bret :: "'a \<Rightarrow> 'a meth" where
  "bret a b = (Inr a, b)"

definition braise :: "exn \<Rightarrow> 'a meth" where
  "braise e b = (Inl e, b)"

definition bbind :: "'a meth \<Rightarrow> ('a \<Rightarrow> 'c meth) \<Rightarrow> 'c meth" where
  "bbind m f b = (case m b of (Inl e, b') \<Rightarrow> (Inl e, b') | (Inr a, b') \<Rightarrow> f a b')"

definition bseq :: "'a meth \<Rightarrow> 'c meth \<Rightarrow> 'c meth" where
  "bseq m n = bbind m (\<lambda>_. n)"

definition bread :: "(bridge \<Rightarrow> 'a meth) \<Rightarrow> 'a meth" where
  "bread f b = f b b"

definition bmodify :: "(bridge \<Rightarrow> bridge) \<Rightarrow> unit meth" where
  "bmodify f b = (Inr (), f b)"

definition bresult :: "'a result \<Rightarrow> 'a meth" where
  "bresult r b = (r, b)"

definition bwhen :: "bool \<Rightarrow> unit meth \<Rightarrow> unit meth" where
  "bwhen c m = (if c then m else bret ())"

fun bfor :: "('x \<Rightarrow> unit meth) \<Rightarrow> 'x list \<Rightarrow> unit meth" where
  "bfor f [] = bret ()"
| "bfor f (x # xs) = bseq (f x) (bfor f xs)"

text \<open>\<^verbatim>\<open>try: m except (ConnectionError, OSError) as exc: h(exc)\<close>\<close>

definition bcatch_os :: "'a meth \<Rightarrow> (exn \<Rightarrow> 'a meth) \<Rightarrow> 'a meth" where
  "bcatch_os m h b = (case m b of
     (Inl e, b') \<Rightarrow> if is_OSError e then h e b' else (Inl e, b')
   | (Inr a, b') \<Rightarrow> (Inr a, b'))"

subsection \<open>The clients\<close>

definition mqtt_out :: "mqtt_message result \<Rightarrow> unit meth" where
  "mqtt_out r = bbind (bresult r) (\<lambda>m. bmodify (\<lambda>b. b\<lparr>br_published := br_published b @ [m]\<rparr>))"

definition mochad_send :: "string \<Rightarrow> unit meth" where
  "mochad_send l b =
     (let fault = (case br_send_faults b of [] \<Rightarrow> None | f # _ \<Rightarrow> map_option OSError f);
          b' = (if br_mochad_connected b then b\<lparr>br_send_faults := tl (br_send_faults b)\<rparr> else b) in
      case send_line (br_mochad_connected b) fault l of
        Inl e \<Rightarrow> (Inl e, b')
      | Inr bytes \<Rightarrow> (Inr (), b'\<lparr>br_sent := br_sent b @ [bytes]\<rparr>))"

subsection \<open>Status payloads\<close>

definition mqtt_status_payload :: "bridge \<Rightarrow> json" where
  "mqtt_status_payload b =
     (let tls = cf_mqtt_tls (br_config b) in
      JObj [(''tls'', JObj
        [(''enabled'', JBool (mt_enabled tls)),
         (''custom_ca'', JBool (opt_truthy (mt_ca_file tls))),
         (''client_certificate'', JBool (opt_truthy (mt_cert_file tls) \<and> opt_truthy (mt_key_file tls)))])])"

definition mochad_diagnostics_payload :: "bridge \<Rightarrow> json" where
  "mochad_diagnostics_payload b =
     (let d = br_diagnostics b in
      JObj [(''daemon'', md_daemon d), (''version'', md_version d), (''upstream_base'', md_upstream_base d),
        (''features'', JObj [(''diagnostics'', md_diagnostics d), (''json'', md_json d),
           (''single_line'', md_single_line d), (''raw_data'', md_raw_data d)]),
        (''health'', JObj [(''uptime_seconds'', md_uptime_seconds d), (''usb_connected'', md_usb_connected d),
           (''controller'', md_controller d), (''endpoints_ready'', md_endpoints_ready d),
           (''transfers_ready'', md_transfers_ready d)]),
        (''last_updated'', (case md_last_updated d of None \<Rightarrow> JNull | Some t \<Rightarrow> JFloat t))])"

definition bridge_status_payload ::
  "string option \<Rightarrow> bool option \<Rightarrow> bool option \<Rightarrow> bridge \<Rightarrow> (string \<times> json) list" where
  "bridge_status_payload status mq mo b =
     [(''status'', JStr (case status of Some s \<Rightarrow> s
          | None \<Rightarrow> if bridge_available (br_state b) then ''online'' else ''offline'')),
      (''available'', JBool (bridge_available (br_state b))),
      (''mqtt_connected'', JBool (case mq of None \<Rightarrow> br_mqtt_connected b | Some x \<Rightarrow> x)),
      (''mochad_connected'', JBool (case mo of None \<Rightarrow> br_mochad_connected b | Some x \<Rightarrow> x)),
      (''configured_devices'', JInt (int (length (br_devices b)))),
      (''known_devices'', JInt (int (length (sm_devices (br_state b))))),
      (''dropped_mqtt_publishes'', JInt (int (br_dropped_mqtt_publishes b))),
      (''queued_device_commands'', JInt (int (length (br_queued_device_commands b)))),
      (''dropped_device_commands'', JInt (int (br_dropped_device_commands b))),
      (''mqtt'', mqtt_status_payload b),
      (''mochad'', mochad_diagnostics_payload b)]"

text \<open>\<^verbatim>\<open>self.clients.mqtt.publish_status(self._bridge_status_payload(), retain=True)\<close>\<close>

definition publish_current_status :: "unit meth" where
  "publish_current_status = bread (\<lambda>b.
     mqtt_out (publish_status (cf_mqtt_base_topic (br_config b))
       (JObj (bridge_status_payload None None None b)) True 0))"

subsection \<open>Devices\<close>

definition address_allowed_by_config :: "config \<Rightarrow> string \<Rightarrow> bool" where
  "address_allowed_by_config c a =
     (case cf_x10_housecodes c of
        None \<Rightarrow> True
      | Some hs \<Rightarrow> (case canon a of [] \<Rightarrow> False | h # _ \<Rightarrow> [h] \<in> set hs))"

definition bridge_device_config :: "string \<Rightarrow> device_config meth" where
  "bridge_device_config a = bread (\<lambda>b.
     let k = canon a in
     case map_of (br_devices b) k of
       Some d \<Rightarrow> bret d
     | None \<Rightarrow>
         let d = default_device k k in
         bseq (bmodify (\<lambda>b. b\<lparr>br_devices := AList.update k d (br_devices b)\<rparr>)) (bret d))"

subsection \<open>Sending and queueing device commands\<close>

definition REPEATABLE_COMMANDS :: "command set" where
  "REPEATABLE_COMMANDS = {ON, OFF}"

definition MAX_QUEUED_DEVICE_COMMANDS :: nat where
  "MAX_QUEUED_DEVICE_COMMANDS = 100"

definition send_device_command :: "address \<times> command \<Rightarrow> unit meth" where
  "send_device_command = (\<lambda>(a, c).
     bbind (bridge_device_config a) (\<lambda>device.
       let repeats = (if c \<in> REPEATABLE_COMMANDS then dc_command_repeats device else 1) in
       bbind (bresult (encode_rf_command a c)) (\<lambda>l.
         bfor (\<lambda>_. mochad_send l) (replicate (nat repeats) ()))))"

definition device_command_queue_reason :: "bridge \<Rightarrow> string option" where
  "device_command_queue_reason b =
     (let d = br_diagnostics b in
      if \<not> br_mochad_connected b then Some ''mochad disconnected''
      else if md_usb_connected d = JBool False then Some ''mochad USB disconnected''
      else if md_endpoints_ready d = JBool False then Some ''mochad USB endpoints not ready''
      else if md_transfers_ready d = JBool False then Some ''mochad USB transfers not ready''
      else None)"

text \<open>The two assignments to the queue: a full queue loses its oldest command.\<close>

definition enqueue :: "address \<times> command \<Rightarrow> bridge \<Rightarrow> bridge" where
  "enqueue action b =
     (let b = (if MAX_QUEUED_DEVICE_COMMANDS \<le> length (br_queued_device_commands b)
               then b\<lparr>br_queued_device_commands := tl (br_queued_device_commands b),
                      br_dropped_device_commands := Suc (br_dropped_device_commands b)\<rparr>
               else b)
      in b\<lparr>br_queued_device_commands := br_queued_device_commands b @ [action]\<rparr>)"

definition queue_device_command :: "address \<times> command \<Rightarrow> unit meth" where
  "queue_device_command action =
     bseq (bmodify (enqueue action))
       (bread (\<lambda>b. bwhen (br_mqtt_connected b) publish_current_status))"

text \<open>
  The loop of the flush; each turn removes a command, so the length of the queue bounds the turns.
  The result says whether it emptied the queue.
\<close>

fun flush_loop :: "nat \<Rightarrow> bool meth" where
  "flush_loop 0 b = (Inr (br_queued_device_commands b = []), b)"
| "flush_loop (Suc n) b =
     (case br_queued_device_commands b of
        [] \<Rightarrow> (Inr True, b)
      | action # rest \<Rightarrow>
          (case send_device_command action (b\<lparr>br_queued_device_commands := rest\<rparr>) of
             (Inl e, b') \<Rightarrow>
               if is_OSError e
               then (Inr False, b'\<lparr>br_queued_device_commands := action # br_queued_device_commands b'\<rparr>)
               else (Inl e, b')
           | (Inr _, b') \<Rightarrow> flush_loop n b'))"

definition flush_queued_device_commands :: "unit meth" where
  "flush_queued_device_commands = bread (\<lambda>b.
     if br_queued_device_commands b = [] then bret ()
     else if device_command_queue_reason b \<noteq> None then bret ()
     else bbind (flush_loop (length (br_queued_device_commands b))) (\<lambda>emptied.
       bwhen emptied (bread (\<lambda>b. bwhen (br_mqtt_connected b) publish_current_status))))"

subsection \<open>Executing actions\<close>

fun is_mqtt_publish :: "bridge_action \<Rightarrow> bool" where
  "is_mqtt_publish (SendMochadCommandAction _) = False"
| "is_mqtt_publish (SendDeviceCommandAction _ _) = False"
| "is_mqtt_publish RequestStatusAction = False"
| "is_mqtt_publish (LogUnknownEventAction _) = False"
| "is_mqtt_publish _ = True"

fun stops_on_failure :: "bridge_action \<Rightarrow> bool" where
  "stops_on_failure RequestStatusAction = True"
| "stops_on_failure (SendDeviceCommandAction _ _) = True"
| "stops_on_failure (SendMochadCommandAction _) = True"
| "stops_on_failure _ = False"

definition event_payload :: "device_event \<Rightarrow> json" where
  "event_payload e = JObj
     [(''timestamp'', JStr (de_timestamp e)), (''direction'', JStr (direction_name (de_direction e))),
      (''transport'', JStr (transport_name (de_transport e))), (''device'', JStr (de_address e)),
      (''command'', JStr (command_name (de_command e))),
      (''confirmed'', JBool (direction_name (de_direction e) \<noteq> ''TX''))]"

definition publish_messages :: "discovery_message list \<Rightarrow> unit meth" where
  "publish_messages = bfor (\<lambda>m. mqtt_out (publish_discovery m))"

definition response_payload ::
  "bridge \<Rightarrow> bridge_command option \<Rightarrow> bool \<Rightarrow> string \<Rightarrow> (string \<times> json) list \<Rightarrow> (string \<times> json) list" where
  "response_payload b command success message payload =
     obj_update
       [(''command'', (case command of None \<Rightarrow> JNull | Some c \<Rightarrow> JStr (bridge_command_name c))),
        (''success'', JBool success), (''message'', JStr message), (''timestamp'', JFloat (br_time b))]
       payload"

fun perform :: "bridge_action \<Rightarrow> unit meth" where
  "perform (PublishStateAction a c r) = bread (\<lambda>b.
     mqtt_out (publish_state (cf_mqtt_base_topic (br_config b)) a c r))"
| "perform (PublishEventAction e) = bread (\<lambda>b.
     mqtt_out (publish_event (cf_mqtt_base_topic (br_config b)) (de_address e) (event_payload e) False))"
| "perform (PublishCommandEventAction a p r) = bread (\<lambda>b.
     mqtt_out (publish_event (cf_mqtt_base_topic (br_config b)) a (JObj p) r))"
| "perform (PublishAttributesAction a p r) = bread (\<lambda>b.
     mqtt_out (publish_attributes (cf_mqtt_base_topic (br_config b)) a (JObj p) r))"
| "perform (PublishDiscoveryAction a) =
     bbind (bridge_device_config a) (\<lambda>device. bread (\<lambda>b.
       bbind (bresult (discovery_messages (br_discovery b) device (Some (br_diagnostics b)))) publish_messages))"
| "perform (PublishAvailabilityAction online) = bread (\<lambda>b.
     mqtt_out (publish_availability (cf_mqtt_base_topic (br_config b)) online 0))"
| "perform (PublishStatusAction s mq mo r) = bread (\<lambda>b.
     mqtt_out (publish_status (cf_mqtt_base_topic (br_config b))
       (JObj (bridge_status_payload (Some s) (Some mq) (Some mo) b)) r 0))"
| "perform (PublishBridgeResponseAction c ok msg p r) = bread (\<lambda>b.
     mqtt_out (publish_bridge_response (cf_mqtt_base_topic (br_config b))
       (JObj (response_payload b c ok msg p)) r))"
| "perform (SendMochadCommandAction c) = mochad_send c"
| "perform (SendDeviceCommandAction a c) = bread (\<lambda>b.
     case device_command_queue_reason b of
       Some reason \<Rightarrow> queue_device_command (a, c)
     | None \<Rightarrow> send_device_command (a, c))"
| "perform RequestStatusAction = mochad_send ''st''"
| "perform (LogUnknownEventAction e) = bret ()"

definition execute_action :: "bridge_action \<Rightarrow> unit meth" where
  "execute_action action = bread (\<lambda>b.
     if is_mqtt_publish action \<and> \<not> br_mqtt_connected b
     then bmodify (\<lambda>b. b\<lparr>br_dropped_mqtt_publishes := Suc (br_dropped_mqtt_publishes b)\<rparr>)
     else perform action)"

fun execute_actions :: "bridge_action list \<Rightarrow> unit meth" where
  "execute_actions [] b = (Inr (), b)"
| "execute_actions (action # actions) b =
     (case execute_action action b of
        (Inr _, b') \<Rightarrow> execute_actions actions b'
      | (Inl e, b') \<Rightarrow>
          if \<not> is_OSError e then (Inl e, b')
          else if stops_on_failure action then (Inr (), b')
          else execute_actions actions b')"

end
