(* ===== verification/Bridge.thy ===== *)
theory Bridge
  imports BridgeCore
begin

section \<open>The bridge: callbacks, discovery, configuration (\<^verbatim>\<open>bridge.py\<close>)\<close>

text \<open>
  The callbacks of the two clients, the handling of bridge commands, discovery with its registry, the
  diagnostics mochad reports, the heartbeat, the reload of the configuration, and the construction,
  start and stop of the bridge.  What the reload reads outside the model (whether the interval has
  passed, the signature of the file, the environment) is an argument.
\<close>

subsection \<open>Payloads of commands\<close>

definition COMMAND_PAYLOADS :: "(string \<times> command) list" where
  "COMMAND_PAYLOADS = [(''ON'', ON), (''OFF'', OFF), (''DIM'', DIM), (''BRIGHT'', BRIGHT)]"

definition BRIDGE_COMMAND_ALIASES :: "(string \<times> bridge_command) list" where
  "BRIDGE_COMMAND_ALIASES = [(''PRUNE_ENTITIES'', BC_PRUNE_DISCOVERY), (''PRUNE'', BC_PRUNE_DISCOVERY)]"

definition parse_command_payload :: "string \<Rightarrow> command option" where
  "parse_command_payload payload = map_of COMMAND_PAYLOADS (canon payload)"

text \<open>\<^verbatim>\<open>BridgeCommand[name]\<close>\<close>

definition bridge_command_of :: "string \<Rightarrow> bridge_command option" where
  "bridge_command_of s = map_of (map (\<lambda>c. (bridge_command_name c, c))
     [BC_STATUS, BC_SYNC, BC_REDISCOVER, BC_PRUNE_DISCOVERY, BC_RESET_DISCOVERY, BC_PING]) s"

definition parse_bridge_command_payload :: "string \<Rightarrow> bridge_command option" where
  "parse_bridge_command_payload payload =
     (let normalized = canon payload in
      if normalized = [] then None
      else
        let normalized = map (\<lambda>c. if c = CHR ''-'' \<or> c = CHR '' '' then CHR ''_'' else c) normalized in
        case bridge_command_of normalized of
          Some c \<Rightarrow> Some c
        | None \<Rightarrow> map_of BRIDGE_COMMAND_ALIASES normalized)"

subsection \<open>Discovery\<close>

definition all_discovery_messages :: "bridge \<Rightarrow> discovery_message list result" where
  "all_discovery_messages b =
     rbind (map_result (\<lambda>(_, d). discovery_messages (br_discovery b) d (Some (br_diagnostics b))) (br_devices b))
       (\<lambda>device_messages.
     rbind (bridge_diagnostic_messages (br_discovery b) (Some (br_diagnostics b))) (\<lambda>bridge_messages.
       Inr (concat device_messages @ bridge_messages)))"

definition publish_bridge_diagnostic_discovery :: "unit meth" where
  "publish_bridge_diagnostic_discovery = bread (\<lambda>b.
     bbind (bresult (bridge_diagnostic_messages (br_discovery b) (Some (br_diagnostics b)))) publish_messages)"

definition publish_current_discovery :: "nat meth" where
  "publish_current_discovery = bread (\<lambda>b.
     bbind (bresult (all_discovery_messages b)) (\<lambda>messages.
       bseq (publish_messages messages) (bret (length messages))))"

definition desired_discovery_topics :: "string set meth" where
  "desired_discovery_topics = bread (\<lambda>b.
     bbind (bresult (all_discovery_messages b)) (\<lambda>messages. bret (set (map dm_topic messages))))"

definition load_discovery_registry :: "string set result meth" where
  "load_discovery_registry b =
     (let (r, fs) = registry_load (cf_discovery_registry_path (br_config b)) (br_stamp b) (br_files b)
      in (Inr r, b\<lparr>br_files := fs\<rparr>))"

definition save_discovery_registry :: "string set \<Rightarrow> bool meth" where
  "save_discovery_registry topics b =
     (let (r, fs) = registry_save (cf_discovery_registry_path (br_config b)) (sorted_list_of_set topics) (br_files b)
      in (Inr (case r of Inl _ \<Rightarrow> False | Inr _ \<Rightarrow> True), b\<lparr>br_files := fs\<rparr>))"

definition empty_discovery_message :: "string \<Rightarrow> discovery_message" where
  "empty_discovery_message topic = \<lparr>dm_topic = topic, dm_payload = JStr [], dm_retain = True\<rparr>"

definition clear_topics :: "string list \<Rightarrow> unit meth" where
  "clear_topics topics = publish_messages (map empty_discovery_message topics)"

definition jcard :: "string set \<Rightarrow> json" where
  "jcard s = JInt (int (card s))"

definition run_discovery_cleanup :: "bool \<Rightarrow> (string \<times> json) list meth" where
  "run_discovery_cleanup force =
     bbind desired_discovery_topics (\<lambda>desired. bread (\<lambda>b.
       let enabled = (''cleanup_enabled'', JBool (cf_discovery_cleanup (br_config b))) in
       bbind load_discovery_registry (\<lambda>loaded.
         if \<not> force \<and> \<not> cf_discovery_cleanup (br_config b) then
           let previous = (case loaded of Inl _ \<Rightarrow> {} | Inr s \<Rightarrow> s) in
           bbind (save_discovery_registry (previous \<union> desired)) (\<lambda>saved.
             bret [(''success'', JBool saved), (''message'', JStr ''Discovery registry updated.''),
                   (''desired'', jcard desired), (''tracked'', jcard (previous \<union> desired)),
                   (''stale'', jcard (previous - desired)), enabled])
         else case loaded of
           Inl e \<Rightarrow>
             bret [(''success'', JBool False), (''message'', JStr (''Discovery cleanup skipped: '' @ exn_text e)),
                   (''desired'', jcard desired), (''stale'', JInt 0), enabled]
         | Inr previous \<Rightarrow>
             bseq (clear_topics (sorted_list_of_set (previous - desired)))
               (bbind (save_discovery_registry desired) (\<lambda>saved.
                 bret [(''success'', JBool saved),
                       (''message'', JStr (if saved then ''Discovery cleanup complete.''
                          else ''Discovery cleanup ran but registry save failed.'')),
                       (''desired'', jcard desired), (''stale'', jcard (previous - desired)), enabled])))))"

definition reset_discovery :: "(string \<times> json) list meth" where
  "reset_discovery =
     bbind desired_discovery_topics (\<lambda>desired.
     bbind load_discovery_registry (\<lambda>loaded.
       let topics = desired \<union> (case loaded of Inl _ \<Rightarrow> {} | Inr s \<Rightarrow> s) in
       bseq (clear_topics (sorted_list_of_set topics))
         (bbind (save_discovery_registry {}) (\<lambda>saved.
           bret [(''success'', JBool saved),
                 (''message'', JStr (if saved then ''Discovery reset complete.''
                    else ''Discovery reset ran but registry save failed.'')),
                 (''cleared'', jcard topics)]))))"

subsection \<open>Heartbeat\<close>

definition write_health :: "string \<Rightarrow> unit meth" where
  "write_health status b =
     (Inr (), b\<lparr>br_files := snd (fs_write (br_health_file b) (status @ '' '' @ br_time3 b @ [CHR 0x0A]) (br_files b))\<rparr>)"

definition write_current_health :: "unit meth" where
  "write_current_health = bread (\<lambda>b.
     write_health (if bridge_available (br_state b) then ''running'' else ''starting''))"

subsection \<open>Device commands\<close>

text \<open>The actions of the state manager, executed.\<close>

definition with_state :: "(state_manager \<Rightarrow> bridge_action list \<times> state_manager) \<Rightarrow> unit meth" where
  "with_state f b = (let (acts, m) = f (br_state b) in execute_actions acts (b\<lparr>br_state := m\<rparr>))"

definition on_mqtt_command :: "string \<Rightarrow> string \<Rightarrow> string \<Rightarrow> unit meth" where
  "on_mqtt_command device payload topic = bread (\<lambda>b.
     case parse_command_topic topic (cf_mqtt_base_topic (br_config b)) of
       Inl _ \<Rightarrow> bret ()
     | Inr topic_addr \<Rightarrow>
         if topic_addr \<noteq> device then bret ()
         else (case parse_command_payload payload of
           None \<Rightarrow> bret ()
         | Some command \<Rightarrow>
             (case normalize_address device of
                Inl _ \<Rightarrow> bret ()
              | Inr a \<Rightarrow>
                  bbind (bridge_device_config a) (\<lambda>dc.
                    if command \<notin> dc_supported_commands dc then bret ()
                    else (case encode_rf_command a command of
                      Inl _ \<Rightarrow> bret ()
                    | Inr _ \<Rightarrow> with_state (optimistic_update (br_now b) a command))))))"

subsection \<open>Bridge commands\<close>

definition respond :: "bridge_command option \<Rightarrow> bool \<Rightarrow> string \<Rightarrow> (string \<times> json) list \<Rightarrow> unit meth" where
  "respond command success message payload =
     execute_action (PublishBridgeResponseAction command success message payload False)"

definition respond_result :: "bridge_command \<Rightarrow> string \<Rightarrow> (string \<times> json) list \<Rightarrow> unit meth" where
  "respond_result command fallback result =
     respond (Some command)
       (case map_of result ''success'' of Some (JBool s) \<Rightarrow> s | _ \<Rightarrow> False)
       (case map_of result ''message'' of Some (JStr s) \<Rightarrow> s | _ \<Rightarrow> fallback) result"

definition handle_bridge_command :: "bridge_command \<Rightarrow> unit meth" where
  "handle_bridge_command command = bread (\<lambda>b.
     if command \<in> {BC_PRUNE_DISCOVERY, BC_RESET_DISCOVERY} \<and> \<not> cf_enable_maintenance_buttons (br_config b)
     then respond (Some command) False
       ''Maintenance command disabled; set ENABLE_MAINTENANCE_BUTTONS=true to enable it.'' []
     else (case command of
       BC_PING \<Rightarrow> respond (Some command) True ''pong'' []
     | BC_STATUS \<Rightarrow>
         respond (Some command) True ''Bridge status returned.'' (bridge_status_payload None None None b)
     | BC_SYNC \<Rightarrow>
         if \<not> br_mochad_connected b
         then respond (Some command) False ''Cannot sync because mochad is not connected.'' []
         else bbind (bcatch_os (bseq (execute_action RequestStatusAction) (bret None)) (\<lambda>e. bret (Some e))) (\<lambda>failed.
           case failed of
             Some e \<Rightarrow> respond (Some command) False (''Status sync request failed: '' @ exn_text e) []
           | None \<Rightarrow> respond (Some command) True ''Status sync requested from mochad.'' [])
     | BC_REDISCOVER \<Rightarrow>
         bbind publish_current_discovery (\<lambda>published.
         bbind desired_discovery_topics (\<lambda>desired.
         bseq (save_discovery_registry desired)
           (respond (Some command) True ''Discovery messages republished.'' [(''published'', JInt (int published))])))
     | BC_PRUNE_DISCOVERY \<Rightarrow>
         bbind (run_discovery_cleanup True) (respond_result command ''Discovery prune completed.'')
     | BC_RESET_DISCOVERY \<Rightarrow>
         bbind reset_discovery (respond_result command ''Discovery reset completed.'')))"

definition on_mqtt_bridge_command :: "string \<Rightarrow> string \<Rightarrow> unit meth" where
  "on_mqtt_bridge_command payload topic =
     (case parse_bridge_command_payload payload of
        None \<Rightarrow> respond None False
          (''Ignoring unsupported MQTT bridge command payload '' @ py_repr_str payload @ '' on '' @ topic) []
      | Some command \<Rightarrow> handle_bridge_command command)"

subsection \<open>Connections\<close>

text \<open>The client sets its flag before it calls back.\<close>

definition on_mqtt_connected :: "unit meth" where
  "on_mqtt_connected =
     bseq (with_state sm_mqtt_connect)
       (bseq publish_bridge_diagnostic_discovery
         (bseq (run_discovery_cleanup False) write_current_health))"

definition on_mqtt_disconnected :: "unit meth" where
  "on_mqtt_disconnected = bread (\<lambda>b.
     if br_stopping b then bret ()
     else bseq (with_state sm_mqtt_disconnect) (write_health ''starting''))"

fun request_mochad_diagnostics :: "string list \<Rightarrow> unit meth" where
  "request_mochad_diagnostics [] b = (Inr (), b)"
| "request_mochad_diagnostics (c # cs) b =
     (case execute_action (SendMochadCommandAction c) b of
        (Inr _, b') \<Rightarrow> request_mochad_diagnostics cs b'
      | (Inl e, b') \<Rightarrow> if is_OSError e then (Inr (), b') else (Inl e, b'))"

definition on_mochad_connected :: "unit meth" where
  "on_mochad_connected =
     bseq (with_state sm_mochad_connect)
       (bseq (request_mochad_diagnostics [''hello'', ''capabilities'', ''health'']) write_current_health)"

definition on_mochad_disconnected :: "unit meth" where
  "on_mochad_disconnected =
     bseq (bmodify (\<lambda>b. b\<lparr>br_diagnostics := (br_diagnostics b)\<lparr>md_usb_connected := JNull,
              md_endpoints_ready := JNull, md_transfers_ready := JNull, md_last_updated := Some (br_time b)\<rparr>\<rparr>))
       (bseq (with_state sm_mochad_disconnect) (write_health ''starting''))"

subsection \<open>Lines of mochad\<close>

definition mochad_diagnostic_kind :: "(string \<times> json) list \<Rightarrow> string option" where
  "mochad_diagnostic_kind payload =
     (if obj_get payload ''diagnostics'' = JBool True \<and> has_key payload ''daemon'' then Some ''hello''
      else if obj_get payload ''json'' = JBool True \<and> has_key payload ''commands'' then Some ''capabilities''
      else if has_key payload ''usb_connected'' \<or> has_key payload ''controller'' then Some ''health''
      else None)"

definition assign_field ::
  "(string \<times> json) list \<Rightarrow> string \<Rightarrow> (json \<Rightarrow> mochad_diagnostics \<Rightarrow> mochad_diagnostics) \<Rightarrow> mochad_diagnostics \<Rightarrow> mochad_diagnostics" where
  "assign_field payload k set_field d = (case map_of payload k of None \<Rightarrow> d | Some v \<Rightarrow> set_field v d)"

definition assign_list ::
  "(string \<times> json) list \<Rightarrow> string \<Rightarrow> (string list \<Rightarrow> mochad_diagnostics \<Rightarrow> mochad_diagnostics) \<Rightarrow> mochad_diagnostics \<Rightarrow> mochad_diagnostics" where
  "assign_list payload k set_field d =
     (case map_of payload k of Some (JArr items) \<Rightarrow> set_field (map py_str items) d | _ \<Rightarrow> d)"

definition merge_mochad_diagnostics :: "string \<Rightarrow> (string \<times> json) list \<Rightarrow> mochad_diagnostics \<Rightarrow> mochad_diagnostics" where
  "merge_mochad_diagnostics now p d =
     (assign_list p ''legacy_commands'' (\<lambda>v d. d\<lparr>md_legacy_commands := v\<rparr>) \<circ>
      assign_list p ''commands'' (\<lambda>v d. d\<lparr>md_commands := v\<rparr>) \<circ>
      assign_field p ''listeners'' (\<lambda>v d. d\<lparr>md_listeners := v\<rparr>) \<circ>
      assign_field p ''clients_total'' (\<lambda>v d. d\<lparr>md_clients_total := v\<rparr>) \<circ>
      assign_field p ''transfers_ready'' (\<lambda>v d. d\<lparr>md_transfers_ready := v\<rparr>) \<circ>
      assign_field p ''endpoints_ready'' (\<lambda>v d. d\<lparr>md_endpoints_ready := v\<rparr>) \<circ>
      assign_field p ''controller'' (\<lambda>v d. d\<lparr>md_controller := v\<rparr>) \<circ>
      assign_field p ''usb_connected'' (\<lambda>v d. d\<lparr>md_usb_connected := v\<rparr>) \<circ>
      assign_field p ''uptime_seconds'' (\<lambda>v d. d\<lparr>md_uptime_seconds := v\<rparr>) \<circ>
      assign_field p ''raw_data'' (\<lambda>v d. d\<lparr>md_raw_data := v\<rparr>) \<circ>
      assign_field p ''single_line'' (\<lambda>v d. d\<lparr>md_single_line := v\<rparr>) \<circ>
      assign_field p ''json'' (\<lambda>v d. d\<lparr>md_json := v\<rparr>) \<circ>
      assign_field p ''diagnostics'' (\<lambda>v d. d\<lparr>md_diagnostics := v\<rparr>) \<circ>
      assign_field p ''upstream_base'' (\<lambda>v d. d\<lparr>md_upstream_base := v\<rparr>) \<circ>
      assign_field p ''version'' (\<lambda>v d. d\<lparr>md_version := v\<rparr>) \<circ>
      assign_field p ''daemon'' (\<lambda>v d. d\<lparr>md_daemon := v\<rparr>))
     (d\<lparr>md_last_updated := Some now\<rparr>)"

definition handle_diagnostic_payload :: "string \<Rightarrow> (string \<times> json) list \<Rightarrow> unit meth" where
  "handle_diagnostic_payload kind payload =
     bseq (bmodify (\<lambda>b. b\<lparr>br_diagnostics := merge_mochad_diagnostics (br_time b) payload (br_diagnostics b)\<rparr>))
    (bseq (bread (\<lambda>b. bwhen (br_mqtt_connected b)
        (bseq publish_current_status
          (bwhen (kind \<in> {''hello'', ''health''})
            (bseq publish_current_discovery
              (bbind desired_discovery_topics (\<lambda>desired.
                bseq (save_discovery_registry desired) (bret ()))))))))
      (bwhen (kind = ''health'') flush_queued_device_commands))"

definition handle_mochad_diagnostic_line :: "string \<Rightarrow> bool meth" where
  "handle_mochad_diagnostic_line l =
     (if \<not> startswith l ''{'' then bret False
      else case loads l of
        Some (JObj payload) \<Rightarrow>
          (case mochad_diagnostic_kind payload of
             None \<Rightarrow> bret False
           | Some kind \<Rightarrow> bseq (handle_diagnostic_payload kind payload) (bret True))
      | _ \<Rightarrow> bret False)"

definition on_mochad_line :: "string \<Rightarrow> unit meth" where
  "on_mochad_line raw =
     (let l = strip_by is_crlf raw in
      bbind (handle_mochad_diagnostic_line l) (\<lambda>handled.
        if handled then bret ()
        else bread (\<lambda>b.
          let (r, p) = parse_line (br_now b) l (br_parser b) in
          bseq (bmodify (\<lambda>b. b\<lparr>br_parser := p\<rparr>))
            (bbind (bresult r) (\<lambda>ev. with_state (sm_apply (br_now b) ev))))))"

subsection \<open>Reloading the configuration\<close>

text \<open>Equality of dictionaries does not depend on the order of their keys.\<close>

definition dict_eq :: "('k \<times> 'v) list \<Rightarrow> ('k \<times> 'v) list \<Rightarrow> bool" where
  "dict_eq d e \<longleftrightarrow> length d = length e \<and> list_all (\<lambda>(k, v). map_of e k = Some v) d"

definition allowed_devices :: "config \<Rightarrow> (address \<times> device_config) list \<Rightarrow> (address \<times> device_config) list" where
  "allowed_devices c devices = filter (\<lambda>(a, _). address_allowed_by_config c a) devices"

definition apply_runtime_config :: "config \<Rightarrow> unit meth" where
  "apply_runtime_config new_config = bread (\<lambda>b.
     let new_devices = allowed_devices (br_config b) (cf_devices new_config) in
     if dict_eq new_devices (br_devices b) \<and>
        cf_use_friendly_names new_config = cf_use_friendly_names (br_config b)
     then bret ()
     else
       bseq (bmodify (\<lambda>b. b\<lparr>br_config := (br_config b)\<lparr>cf_devices := cf_devices new_config,
               cf_use_friendly_names := cf_use_friendly_names new_config\<rparr>, br_devices := new_devices\<rparr>))
         (bread (\<lambda>b. bwhen (br_mqtt_connected b)
           (bseq publish_current_discovery (bseq (run_discovery_cleanup False) publish_current_status)))))"

definition check_config_file_reload :: "bool \<Rightarrow> bool \<Rightarrow> (int \<times> int) option \<Rightarrow> environment \<Rightarrow> unit meth" where
  "check_config_file_reload force due signature env = bread (\<lambda>b.
     if \<not> opt_truthy (cf_config_file (br_config b)) then bret ()
     else if \<not> force \<and> \<not> due then bret ()
     else if \<not> force \<and> signature = br_config_file_signature b then bret ()
     else case load_config env (br_files b) of
       Inl (ConfigError _) \<Rightarrow> bret ()
     | Inl e \<Rightarrow> braise e
     | Inr new_config \<Rightarrow>
         bseq (apply_runtime_config new_config)
           (bmodify (\<lambda>b. b\<lparr>br_config_file_signature := signature\<rparr>)))"

subsection \<open>Construction, start and stop\<close>

definition ensure_runtime_config_files :: "unit meth" where
  "ensure_runtime_config_files b =
     (let fs = snd (create_config_file_if_missing (br_config b) (br_files b));
          fs' = (case cf_config_file (br_config b) of
                   None \<Rightarrow> fs
                 | Some _ \<Rightarrow> snd (registry_create_if_missing (cf_discovery_registry_path (br_config b)) fs))
      in (Inr (), b\<lparr>br_files := fs'\<rparr>))"

definition DEFAULT_HEALTH_FILE :: string where
  "DEFAULT_HEALTH_FILE = ''/config/mqtt-mochad-bridge.health''"

definition new_bridge :: "config \<Rightarrow> (int \<times> int) option \<Rightarrow> environment \<Rightarrow> file_system \<Rightarrow> bridge" where
  "new_bridge c signature env fs =
     (let devices = allowed_devices c (cf_devices c) in
      snd (ensure_runtime_config_files
        \<lparr>br_config = c, br_devices = devices, br_parser = new_parser,
         br_state = new_state_manager (map snd devices) (cf_optimistic_updates c) (cf_x10_housecodes c),
         br_discovery = \<lparr>dg_discovery_prefix = cf_mqtt_discovery_prefix c, dg_base_topic = cf_mqtt_base_topic c,
           dg_support_url = DEFAULT_SUPPORT_URL, dg_enable_maintenance_buttons = cf_enable_maintenance_buttons c\<rparr>,
         br_diagnostics = new_diagnostics, br_running = False, br_stopping = False,
         br_dropped_mqtt_publishes = 0, br_queued_device_commands = [], br_dropped_device_commands = 0,
         br_config_file_signature = signature,
         br_health_file = (case env ''BRIDGE_HEALTH_FILE'' of Some p \<Rightarrow> p | None \<Rightarrow> DEFAULT_HEALTH_FILE),
         br_mqtt_connected = False, br_mochad_connected = False, br_send_faults = [], br_files = fs,
         br_published = [], br_sent = [], br_time = [], br_time3 = [], br_now = [], br_stamp = []\<rparr>))"

definition start :: "unit meth" where
  "start = bseq (bmodify (\<lambda>b. b\<lparr>br_running := True\<rparr>)) (write_health ''starting'')"

definition publish_shutdown_status :: "unit meth" where
  "publish_shutdown_status = bread (\<lambda>b.
     if \<not> br_mqtt_connected b then bret ()
     else
       let base = cf_mqtt_base_topic (br_config b);
           payload = AList.update ''available'' (JBool False)
             (bridge_status_payload (Some ''shutdown'') (Some True) (Some False) b) in
       bseq (mqtt_out (publish_status base (JObj payload) True 1))
         (mqtt_out (publish_availability base False 1)))"

definition stop :: "unit meth" where
  "stop =
     bseq (bmodify (\<lambda>b. b\<lparr>br_running := False, br_stopping := True, br_mochad_connected := False\<rparr>))
    (bseq publish_shutdown_status (write_health ''stopped''))"

text \<open>One turn of the loop of \<^verbatim>\<open>run_forever\<close>.\<close>

definition run_turn :: "bool \<Rightarrow> (int \<times> int) option \<Rightarrow> environment \<Rightarrow> unit meth" where
  "run_turn due signature env = bread (\<lambda>b. bwhen (br_running b)
     (bseq (check_config_file_reload False due signature env) write_current_health))"

subsection \<open>Runs\<close>

text \<open>
  What may happen to the bridge: the callbacks of the clients, turns of the main loop, the signal that
  stops it.  The clients set their connection flags before the callback and swallow its exceptions.
  Before each occurrence the environment chooses the clock readings, the coming failures of the
  socket and the files.
\<close>

datatype occurrence =
    MqttUp
  | MqttDown
  | MqttMessage string string
  | MochadUp
  | MochadDown
  | MochadLine string
  | Turn bool "(int \<times> int) option" environment
  | StopSignal

record surroundings =
  su_time :: string
  su_time3 :: string
  su_now :: datetime
  su_stamp :: string
  su_send_faults :: "string option list"
  su_files :: file_system

definition surround :: "surroundings \<Rightarrow> bridge \<Rightarrow> bridge" where
  "surround s b = b\<lparr>br_time := su_time s, br_time3 := su_time3 s, br_now := su_now s, br_stamp := su_stamp s,
     br_send_faults := su_send_faults s, br_files := su_files s\<rparr>"

definition on_mqtt_message :: "string \<Rightarrow> string \<Rightarrow> unit meth" where
  "on_mqtt_message topic raw = bread (\<lambda>b.
     case on_message (cf_mqtt_base_topic (br_config b)) topic raw of
       BridgeCommandMessage payload t \<Rightarrow> on_mqtt_bridge_command payload t
     | CommandMessage device payload t \<Rightarrow> on_mqtt_command device payload t
     | IgnoredMessage \<Rightarrow> bret ())"

fun handle :: "occurrence \<Rightarrow> unit meth" where
  "handle MqttUp = bseq (bmodify (\<lambda>b. b\<lparr>br_mqtt_connected := True\<rparr>)) on_mqtt_connected"
| "handle MqttDown = bseq (bmodify (\<lambda>b. b\<lparr>br_mqtt_connected := False\<rparr>)) on_mqtt_disconnected"
| "handle (MqttMessage topic raw) = on_mqtt_message topic raw"
| "handle MochadUp = bseq (bmodify (\<lambda>b. b\<lparr>br_mochad_connected := True\<rparr>)) on_mochad_connected"
| "handle MochadDown = bseq (bmodify (\<lambda>b. b\<lparr>br_mochad_connected := False\<rparr>)) on_mochad_disconnected"
| "handle (MochadLine l) = on_mochad_line l"
| "handle (Turn due signature env) = run_turn due signature env"
| "handle StopSignal = stop"

definition step :: "surroundings \<times> occurrence \<Rightarrow> bridge \<Rightarrow> bridge" where
  "step so b = snd (handle (snd so) (surround (fst so) b))"

definition run_bridge :: "(surroundings \<times> occurrence) list \<Rightarrow> bridge \<Rightarrow> bridge" where
  "run_bridge sos b = fold step sos b"

end
