(* ===== verification/StateKeys.thy ===== *)
theory StateKeys
  imports StateRuns LineParser
begin

section \<open>Which devices the state manager knows\<close>

text \<open>
  A method of the state manager adds at most the devices its argument names, and forgets none; with
  well-formed events and normalised requests every known address is a valid one.
\<close>

fun call_addresses :: "sm_call \<Rightarrow> address set" where
  "call_addresses (Apply now (Some (DeviceEvent e))) = {canon (de_address e)}"
| "call_addresses (Apply now (Some (StatusSnapshot ss))) = (canon \<circ> fst) ` set (ss_devices ss)"
| "call_addresses (Request now a c) = {canon a}"
| "call_addresses _ = {}"

definition dev_keys :: "state_manager \<Rightarrow> address set" where
  "dev_keys m = set (map fst (sm_devices m))"

lemma dev_keys_has_dev: "k \<in> dev_keys m \<longleftrightarrow> has_dev m k"
  by (simp add: dev_keys_def has_dev_def)

lemma dev_keys_basic [simp]:
  "dev_keys (stat f m) = dev_keys m" "dev_keys (put_dev k g m) = dev_keys m"
  "dev_keys (mark_seen k now m) = dev_keys m"
  "dev_keys (ensure_device a m) = insert (canon a) (dev_keys m)"
  by (auto simp: dev_keys_def stat_def put_dev_def mark_seen_def ensure_device_def Let_def update_keys
      dest: map_of_SomeD split: option.splits simp flip: set_map simp del: set_map) (force dest: map_of_SomeD)+

lemma dev_keys_flags [simp]:
  "dev_keys (m\<lparr>sm_mqtt_connected := x\<rparr>) = dev_keys m" "dev_keys (m\<lparr>sm_mochad_connected := x\<rparr>) = dev_keys m"
  "dev_keys (m\<lparr>sm_available := x\<rparr>) = dev_keys m" "dev_keys (m\<lparr>sm_mqtt_has_connected := x\<rparr>) = dev_keys m"
  "dev_keys (m\<lparr>sm_mqtt_generation := n\<rparr>) = dev_keys m"
  by (simp_all add: dev_keys_def)

lemma dev_keys_helpers [simp]:
  "dev_keys (snd (set_device_state k c now r cp m)) = dev_keys m"
  "dev_keys (snd (discovery_actions k m)) = dev_keys m"
  "dev_keys (snd (bridge_status_actions m)) = dev_keys m"
  by (simp_all add: set_device_state_def discovery_actions_def bridge_status_actions_def Let_def)

lemma dev_keys_house_loop [simp]: "dev_keys (snd (house_loop e ks m)) = dev_keys m"
  by (induction ks arbitrary: m) (simp_all add: case_prod_unfold Let_def)

lemma dev_keys_rediscover [simp]: "dev_keys (snd (rediscover_loop ks m)) = dev_keys m"
  by (induction ks arbitrary: m) (simp_all add: case_prod_unfold Let_def)

lemma dev_keys_snapshot_loop:
  "dev_keys m \<subseteq> dev_keys (snd (snapshot_loop now ds m)) \<and>
   dev_keys (snd (snapshot_loop now ds m)) \<subseteq> dev_keys m \<union> (canon \<circ> fst) ` set ds"
proof (induction ds arbitrary: m)
  case (Cons p ds)
  obtain a c where p: "p = (a, c)" by (cases p)
  have "\<exists>m'. snd (snapshot_loop now (p # ds) m) = snd (snapshot_loop now ds m') \<and>
      (dev_keys m' = dev_keys m \<or> dev_keys m' = insert (canon a) (dev_keys m))"
    unfolding p snapshot_loop.simps Let_def case_prod_unfold
    by (cases "address_allowed m a"; cases "dc_stateful (config_of (ensure_device a m) (ds_address (dev (ensure_device a m) (canon a))))")
       (simp_all, (rule exI, rule conjI, rule refl, simp)+)
  then obtain m' where "snd (snapshot_loop now (p # ds) m) = snd (snapshot_loop now ds m')"
    "dev_keys m' = dev_keys m \<or> dev_keys m' = insert (canon a) (dev_keys m)" by blast
  with Cons.IH [of m'] p show ?case by auto
qed simp

lemma dev_keys_mochad_disconnect [simp]: "dev_keys (snd (sm_mochad_disconnect m)) = dev_keys m"
  unfolding sm_mochad_disconnect_def dev_keys_helpers by (force simp: dev_keys_def)

text \<open>The devices after a call.\<close>

lemma dev_keys_exec:
  "dev_keys m \<subseteq> dev_keys (snd (sm_exec c m)) \<and> dev_keys (snd (sm_exec c m)) \<subseteq> dev_keys m \<union> call_addresses c"
proof (cases c)
  case (Apply now ev)
  show ?thesis
  proof (cases ev)
    case None
    then show ?thesis by (simp add: Apply)
  next
    case (Some e)
    have "dev_keys m \<subseteq> dev_keys (snd (apply_status_snapshot now ss m)) \<and>
        dev_keys (snd (apply_status_snapshot now ss m)) \<subseteq> dev_keys m \<union> (canon \<circ> fst) ` set (ss_devices ss)" for ss
      using dev_keys_snapshot_loop [of "stat (\<lambda>s. s\<lparr>st_status_syncs := Suc (st_status_syncs s)\<rparr>) m" now "ss_devices ss"]
      by (simp add: apply_status_snapshot_def)
    with Some show ?thesis
      by (cases e) (auto simp: Apply apply_device_event_def apply_house_event_def
          Let_def case_prod_unfold)
  qed
qed (auto simp: optimistic_update_def sm_mqtt_connect_def sm_mqtt_disconnect_def sm_mochad_connect_def
    Let_def case_prod_unfold)

text \<open>A call of the bridge: its event comes from the parser, its request from a checked topic.\<close>

fun call_ok :: "sm_call \<Rightarrow> bool" where
  "call_ok (Apply now ev) \<longleftrightarrow> pred_option event_ok ev"
| "call_ok (Request now a c) \<longleftrightarrow> valid_address (canon a) \<and> encodable c"
| "call_ok _ \<longleftrightarrow> True"

definition keys_valid :: "state_manager \<Rightarrow> bool" where
  "keys_valid m \<longleftrightarrow> (\<forall>k \<in> dev_keys m. valid_address k)"

lemma call_ok_addresses: "call_ok c \<Longrightarrow> k \<in> call_addresses c \<Longrightarrow> valid_address k"
  by (induction c rule: call_addresses.induct) (auto simp: snapshot_ok_def list_all_iff valid_address_canon)

lemma keys_valid_exec: "keys_valid m \<Longrightarrow> call_ok c \<Longrightarrow> keys_valid (snd (sm_exec c m))"
  using dev_keys_exec [of m c] call_ok_addresses [of c] by (force simp: keys_valid_def)

subsection \<open>The addresses of the actions\<close>

fun act_address :: "bridge_action \<Rightarrow> address set" where
  "act_address (PublishStateAction a c r) = {a}"
| "act_address (PublishEventAction e) = {canon (de_address e)}"
| "act_address (PublishCommandEventAction a p r) = {a}"
| "act_address (PublishAttributesAction a p r) = {a}"
| "act_address (PublishDiscoveryAction a) = {a}"
| "act_address (SendDeviceCommandAction a c) = {a}"
| "act_address _ = {}"

definition acts_address :: "bridge_action list \<Rightarrow> address set" where
  "acts_address acts = (\<Union>x \<in> set acts. act_address x)"

lemma acts_address_simps [simp]:
  "acts_address [] = {}" "acts_address (x # acts) = act_address x \<union> acts_address acts"
  "acts_address (acts @ acts') = acts_address acts \<union> acts_address acts'"
  by (auto simp: acts_address_def)

text \<open>A stored device carries its key as its address, in every state a method goes through.\<close>

definition self_named :: "state_manager \<Rightarrow> bool" where
  "self_named m \<longleftrightarrow> (\<forall>k. ds_address (dev m k) = k)"

lemma sm_inv_self_named: "sm_inv m \<Longrightarrow> self_named m"
  unfolding self_named_def
proof
  fix k assume "sm_inv m"
  then show "ds_address (dev m k) = k" by (cases "has_dev m k") (simp_all add: dev_absent)
qed

lemma self_named_address [simp]: "self_named m \<Longrightarrow> ds_address (dev m k) = k"
  by (simp add: self_named_def)

lemma self_named_basic [simp]:
  "self_named (stat f m) \<longleftrightarrow> self_named m" "self_named m \<Longrightarrow> self_named (ensure_device a m)"
  "self_named m \<Longrightarrow> self_named (mark_seen k now m)"
  "self_named m \<Longrightarrow> (\<And>s. ds_address (g s) = ds_address s) \<Longrightarrow> self_named (put_dev k g m)"
  by (simp_all add: self_named_def dict_simps mark_seen_def)

lemma self_named_flags [simp]:
  "self_named (m\<lparr>sm_mqtt_connected := x\<rparr>) \<longleftrightarrow> self_named m" "self_named (m\<lparr>sm_available := x\<rparr>) \<longleftrightarrow> self_named m"
  "self_named (m\<lparr>sm_mqtt_has_connected := x\<rparr>) \<longleftrightarrow> self_named m" "self_named (m\<lparr>sm_mqtt_generation := n\<rparr>) \<longleftrightarrow> self_named m"
  by (simp_all add: self_named_def dev_def)

lemma set_device_state_address:
  assumes "self_named m"
  shows "acts_address (fst (set_device_state k c now r cp m)) \<subseteq> {k}" "self_named (snd (set_device_state k c now r cp m))"
  using assms by (auto simp: set_device_state_def Let_def clear_confirmed_pending_def)

lemma discovery_actions_address:
  assumes "self_named m"
  shows "acts_address (fst (discovery_actions k m)) \<subseteq> {k}" "self_named (snd (discovery_actions k m))"
  using assms by (auto simp: discovery_actions_def)

lemma bridge_status_address [simp]: "acts_address (fst (bridge_status_actions m)) = {}"
  "self_named (snd (bridge_status_actions m)) \<longleftrightarrow> self_named m"
  by (simp_all add: bridge_status_actions_def Let_def)

lemma house_loop_address: "self_named m \<Longrightarrow> acts_address (fst (house_loop e ks m)) \<subseteq> set ks"
proof (induction ks arbitrary: m)
  case (Cons k ks)
  let ?c = "if he_command e \<in> {ALL_UNITS_OFF, ALL_LIGHTS_OFF} then OFF else ON"
  note s = set_device_state_address [of "mark_seen k (he_timestamp e) m" k ?c "he_timestamp e" True True]
  show ?case
    using Cons.IH [OF Cons.prems] Cons.IH [OF s(2)] s(1) Cons.prems
    by (simp only: house_loop.simps Let_def case_prod_unfold) auto
qed simp

lemma rediscover_address: "self_named m \<Longrightarrow> acts_address (fst (rediscover_loop ks m)) \<subseteq> set ks"
proof (induction ks arbitrary: m)
  case (Cons k ks)
  let ?m = "put_dev k (\<lambda>s. s\<lparr>ds_discovered := True\<rparr>)
    (stat (\<lambda>s. s\<lparr>st_discovery_messages := Suc (st_discovery_messages s)\<rparr>) (put_dev k (\<lambda>s. s\<lparr>ds_discovered := False\<rparr>) m))"
  have m: "self_named ?m" "self_named (put_dev k (\<lambda>s. s\<lparr>ds_discovered := False\<rparr>) m)" using Cons.prems by simp_all
  show ?case
    using Cons.IH [OF m(1)] m by (simp only: rediscover_loop.simps Let_def case_prod_unfold) (auto split: option.splits)
qed simp

lemma snapshot_loop_address: "self_named m \<Longrightarrow> acts_address (fst (snapshot_loop now ds m)) \<subseteq> (canon \<circ> fst) ` set ds"
proof (induction ds arbitrary: m)
  case (Cons p ds)
  obtain a c where p: "p = (a, c)" by (cases p)
  note s = set_device_state_address [of "mark_seen (canon a) now (ensure_device a m)" "canon a" c now True True]
  show ?case
    using Cons.IH [OF Cons.prems] Cons.IH [of "ensure_device a m"] Cons.IH [OF s(2)] s(1) Cons.prems
    by (simp only: p snapshot_loop.simps Let_def case_prod_unfold) auto
qed simp

lemma exec_address:
  assumes "sm_inv m"
  shows "acts_address (fst (sm_exec c m)) \<subseteq> dev_keys m \<union> call_addresses c"
proof (cases c)
  case (Apply now ev)
  show ?thesis
  proof (cases ev)
    case (Some e)
    show ?thesis
    proof (cases e)
      case (DeviceEvent ev)
      let ?m = "mark_seen (canon (de_address ev)) (de_timestamp ev) (ensure_device (de_address ev)
        (stat (\<lambda>s. s\<lparr>st_events_received := Suc (st_events_received s)\<rparr>) m))"
      have m: "self_named ?m" using sm_inv_self_named [OF assms] by simp
      show ?thesis
        using discovery_actions_address [OF m, of "canon (de_address ev)"]
          set_device_state_address(1) [OF discovery_actions_address(2) [OF m], of "canon (de_address ev)" "de_command ev"
            "de_timestamp ev" True True "canon (de_address ev)"]
        unfolding Apply Some DeviceEvent sm_exec.simps sm_apply.simps apply_device_event_def Let_def case_prod_unfold
        by (auto split: if_splits)
    next
      case (HouseEvent ev)
      let ?m = "stat (\<lambda>s. s\<lparr>st_events_received := Suc (st_events_received s)\<rparr>) m"
      have "acts_address (fst (house_loop ev (devices_for_house ?m (he_house ev)) ?m)) \<subseteq> set (devices_for_house ?m (he_house ev))"
        using sm_inv_self_named [OF assms] by (intro house_loop_address) simp
      also have "\<dots> \<subseteq> dev_keys m" by (auto simp: devices_for_house_def dev_keys_def stat_def)
      finally show ?thesis by (simp add: Apply Some HouseEvent apply_house_event_def Let_def)
    next
      case (StatusSnapshot ss)
      show ?thesis
        using snapshot_loop_address [of "stat (\<lambda>s. s\<lparr>st_status_syncs := Suc (st_status_syncs s)\<rparr>) m" now "ss_devices ss"]
          sm_inv_self_named [OF assms]
        by (auto simp: Apply Some StatusSnapshot apply_status_snapshot_def)
    qed (simp add: Apply Some)
  qed (simp add: Apply)
next
  case (Request now a cmd)
  let ?m = "stat (\<lambda>s. s\<lparr>st_commands_sent := Suc (st_commands_sent s)\<rparr>)
    (put_dev (canon a) (\<lambda>s. s\<lparr>ds_pending_command := Some cmd\<rparr>) (ensure_device a m))"
  have m: "self_named (ensure_device a m)" "self_named ?m" using sm_inv_self_named [OF assms] by simp_all
  show ?thesis
    using discovery_actions_address [OF m(2), of "canon a"] m(1)
      set_device_state_address(1) [OF discovery_actions_address(2) [OF m(2)], of "canon a" cmd now True False "canon a"]
    unfolding Request sm_exec.simps optimistic_update_def Let_def case_prod_unfold
    by (auto split: if_splits)
next
  case MqttConnected
  have "acts_address (fst (rediscover_loop (map fst (sm_devices m)) m')) \<subseteq> dev_keys m" if "self_named m'" for m'
    using rediscover_address [OF that, of "map fst (sm_devices m)"] by (simp add: dev_keys_def)
  with sm_inv_self_named [OF assms] show ?thesis
    by (simp add: MqttConnected sm_mqtt_connect_def Let_def case_prod_unfold)
qed (simp_all add: sm_mqtt_disconnect_def sm_mochad_connect_def sm_mochad_disconnect_def Let_def case_prod_unfold)

lemma exec_address_valid:
  "sm_inv m \<Longrightarrow> keys_valid m \<Longrightarrow> call_ok c \<Longrightarrow> a \<in> acts_address (fst (sm_exec c m)) \<Longrightarrow> valid_address a"
  using exec_address [of m c] call_ok_addresses [of c] by (auto simp: keys_valid_def)

end
