(* ===== verification/BridgeLaws.thy ===== *)
theory BridgeLaws
  imports Bridge StateKeys
begin

section \<open>Properties every method of the bridge keeps\<close>

text \<open>
  Most facts about the bridge have one form: a property of its state holds before and after every
  method.  The first locale has the rules of the control structures; the second asks for a law for
  each elementary effect (a message published, a line sent, a command queued, a call of the state
  manager, ...) and derives the property for every callback; the third extends this to runs.  The
  interpretations then need only the laws of the effects.
\<close>

subsection \<open>Control structures\<close>

definition keeps :: "(bridge \<Rightarrow> bool) \<Rightarrow> 'a meth \<Rightarrow> bool" where
  "keeps P m \<longleftrightarrow> (\<forall>b. P b \<longrightarrow> P (snd (m b)))"

lemma keepsD: "keeps P m \<Longrightarrow> P b \<Longrightarrow> m b = (r, b') \<Longrightarrow> P b'"
  by (metis keeps_def snd_conv)

locale kept_property =
  fixes P :: "bridge \<Rightarrow> bool"
begin

lemma keeps_bret: "keeps P (bret a)"
  by (simp add: keeps_def bret_def)

lemma keeps_braise: "keeps P (braise e)"
  by (simp add: keeps_def braise_def)

lemma keeps_bresult: "keeps P (bresult r)"
  by (simp add: keeps_def bresult_def)

lemma keeps_bbind:
  assumes "keeps P m" "\<And>a. keeps P (f a)"
  shows "keeps P (bbind m f)"
proof -
  have "P (snd (bbind m f b))" if "P b" for b
  proof -
    obtain r b' where mb: "m b = (r, b')" by fastforce
    have "P b'" by (rule keepsD [OF assms(1) that mb])
    then show ?thesis using assms(2) by (cases r) (auto simp: bbind_def mb keeps_def)
  qed
  then show ?thesis by (simp add: keeps_def)
qed

lemma keeps_bseq: "keeps P m \<Longrightarrow> keeps P n \<Longrightarrow> keeps P (bseq m n)"
  by (simp add: bseq_def keeps_bbind)

lemma keeps_bread: "(\<And>b. P b \<Longrightarrow> keeps P (f b)) \<Longrightarrow> keeps P (bread f)"
  by (simp add: keeps_def bread_def)

lemma keeps_bmodify: "(\<And>b. P b \<Longrightarrow> P (f b)) \<Longrightarrow> keeps P (bmodify f)"
  by (simp add: keeps_def bmodify_def)

lemma keeps_bwhen: "(c \<Longrightarrow> keeps P m) \<Longrightarrow> keeps P (bwhen c m)"
  by (simp add: bwhen_def keeps_bret)

lemma keeps_bfor: "(\<And>x. x \<in> set xs \<Longrightarrow> keeps P (f x)) \<Longrightarrow> keeps P (bfor f xs)"
  by (induction xs) (simp_all add: keeps_bret keeps_bseq)

lemma keeps_bcatch_os:
  assumes "keeps P m" "\<And>e. keeps P (h e)"
  shows "keeps P (bcatch_os m h)"
proof -
  have "P (snd (bcatch_os m h b))" if "P b" for b
  proof -
    obtain r b' where mb: "m b = (r, b')" by fastforce
    have "P b'" by (rule keepsD [OF assms(1) that mb])
    then show ?thesis using assms(2) by (cases r) (auto simp: bcatch_os_def mb keeps_def)
  qed
  then show ?thesis by (simp add: keeps_def)
qed

lemmas keeps_control = keeps_bret keeps_braise keeps_bresult keeps_bbind keeps_bseq keeps_bread
  keeps_bwhen keeps_bfor keeps_bcatch_os

lemma keeps_execute_actions:
  assumes "\<And>a. a \<in> set acts \<Longrightarrow> keeps P (execute_action a)"
  shows "keeps P (execute_actions acts)"
proof -
  have "P (snd (execute_actions acts b))" if "P b" for b
    using assms that
  proof (induction acts arbitrary: b)
    case (Cons a acts)
    obtain r b' where ab: "execute_action a b = (r, b')" by fastforce
    have "P b'" using keepsD [OF Cons.prems(1) Cons.prems(2) ab] by simp
    with Cons ab show ?case by (cases r) auto
  qed simp
  then show ?thesis by (simp add: keeps_def)
qed

lemma keeps_request_mochad_diagnostics:
  assumes "\<And>c. c \<in> set cs \<Longrightarrow> keeps P (execute_action (SendMochadCommandAction c))"
  shows "keeps P (request_mochad_diagnostics cs)"
proof -
  have "P (snd (request_mochad_diagnostics cs b))" if "P b" for b
    using assms that
  proof (induction cs arbitrary: b)
    case (Cons c cs)
    obtain r b' where ab: "execute_action (SendMochadCommandAction c) b = (r, b')" by fastforce
    have "P b'" using keepsD [OF Cons.prems(1) Cons.prems(2) ab] by simp
    with Cons ab show ?case by (cases r) auto
  qed simp
  then show ?thesis by (simp add: keeps_def)
qed

end

text \<open>Sending a command changes neither the queue nor the counters nor the connections.\<close>

definition same_queue :: "bridge \<Rightarrow> bridge \<Rightarrow> bool" where
  "same_queue b0 b \<longleftrightarrow> br_queued_device_commands b = br_queued_device_commands b0 \<and>
     br_dropped_device_commands b = br_dropped_device_commands b0 \<and>
     br_mochad_connected b = br_mochad_connected b0 \<and> br_diagnostics b = br_diagnostics b0 \<and>
     br_published b = br_published b0 \<and> br_mqtt_connected b = br_mqtt_connected b0"

interpretation queue_kept: kept_property "same_queue b0" for b0 .

lemma mochad_send_same_queue: "keeps (same_queue b0) (mochad_send l)"
  by (auto simp: keeps_def same_queue_def mochad_send_def Let_def split: sum.splits)

lemma device_config_same_queue: "keeps (same_queue b0) (bridge_device_config a)"
  unfolding bridge_device_config_def Let_def
  by (rule queue_kept.keeps_bread)
     (auto intro!: queue_kept.keeps_control queue_kept.keeps_bmodify simp: same_queue_def split: option.splits)

lemma send_device_command_same_queue:
  assumes "send_device_command x b = (r, b')"
  shows "same_queue b b'"
proof -
  have "keeps (same_queue b) (send_device_command x)"
    unfolding send_device_command_def Let_def
    by (cases x) (simp, intro queue_kept.keeps_control mochad_send_same_queue device_config_same_queue)
  from keepsD [OF this _ assms] show ?thesis by (simp add: same_queue_def)
qed

subsection \<open>The effects\<close>

text \<open>
  \<open>ok\<close> says which device commands may be sent; the lines written to mochad are then those of permitted
  commands and the four requests of the bridge.
\<close>

definition wire_line :: "(address \<times> command \<Rightarrow> bool) \<Rightarrow> string \<Rightarrow> bool" where
  "wire_line ok l \<longleftrightarrow> l \<in> {''st'', ''hello'', ''capabilities'', ''health''} \<or>
     (\<exists>a c. ok (a, c) \<and> encode_rf_command a c = Inr l)"

fun act_sends :: "(address \<times> command \<Rightarrow> bool) \<Rightarrow> bridge_action \<Rightarrow> bool" where
  "act_sends ok (SendDeviceCommandAction a c) \<longleftrightarrow> ok (a, c)"
| "act_sends ok (SendMochadCommandAction l) \<longleftrightarrow> wire_line ok l"
| "act_sends ok _ \<longleftrightarrow> True"

definition state_law :: "(bridge \<Rightarrow> bool) \<Rightarrow> (address \<times> command \<Rightarrow> bool) \<Rightarrow> bridge \<Rightarrow>
  bridge_action list \<times> state_manager \<Rightarrow> bool" where
  "state_law P ok b r \<longleftrightarrow> P (b\<lparr>br_state := snd r\<rparr>) \<and> list_all (act_sends ok) (fst r)"

locale bridge_property = kept_property +
  fixes ok :: "address \<times> command \<Rightarrow> bool"
  assumes P_publish: "P b \<Longrightarrow> P (b\<lparr>br_published := br_published b @ [m]\<rparr>)"
    and P_send: "P b \<Longrightarrow> wire_line ok l \<Longrightarrow> P (snd (mochad_send l b))"
    and P_learn: "P b \<Longrightarrow> map_of (br_devices b) (canon a) = None \<Longrightarrow>
      P (b\<lparr>br_devices := AList.update (canon a) (default_device (canon a) (canon a)) (br_devices b)\<rparr>)"
    and P_enqueue: "P b \<Longrightarrow> ok x \<Longrightarrow> P (enqueue x b)"
    and P_pop: "P b \<Longrightarrow> br_queued_device_commands b = x # rest \<Longrightarrow> ok x \<and> P (b\<lparr>br_queued_device_commands := rest\<rparr>)"
    and P_put_back: "P b \<Longrightarrow> br_queued_device_commands b = x # rest \<Longrightarrow> P b' \<Longrightarrow> br_queued_device_commands b' = rest \<Longrightarrow>
      P (b'\<lparr>br_queued_device_commands := x # rest\<rparr>)"
    and P_drop: "P b \<Longrightarrow> P (b\<lparr>br_dropped_mqtt_publishes := Suc (br_dropped_mqtt_publishes b)\<rparr>)"
    and P_request: "P b \<Longrightarrow> normalize_address raw = Inr a \<Longrightarrow> encodable c \<Longrightarrow> state_law P ok b (optimistic_update now a c (br_state b))"
    and P_connection: "P b \<Longrightarrow> call \<in> {MqttConnected, MqttDisconnected, MochadConnected, MochadDisconnected} \<Longrightarrow>
      state_law P ok b (sm_exec call (br_state b))"
    and P_parse: "P b \<Longrightarrow> parse_line now l (br_parser b) = (Inl e, p) \<Longrightarrow> P (b\<lparr>br_parser := p\<rparr>)"
    and P_event: "P b \<Longrightarrow> parse_line now l (br_parser b) = (Inr ev, p) \<Longrightarrow>
      state_law P ok (b\<lparr>br_parser := p\<rparr>) (sm_apply now ev (br_state b))"
    and P_files: "P b \<Longrightarrow> P (b\<lparr>br_files := fs\<rparr>)"
    and P_diagnostics: "P b \<Longrightarrow> P (b\<lparr>br_diagnostics := d\<rparr>)"
begin

lemma keeps_mqtt_out: "keeps P (mqtt_out r)"
  unfolding mqtt_out_def by (intro keeps_control keeps_bmodify P_publish)

lemma keeps_publish_messages: "keeps P (publish_messages msgs)"
  unfolding publish_messages_def by (intro keeps_control keeps_mqtt_out)

lemma keeps_mochad_send: "wire_line ok l \<Longrightarrow> keeps P (mochad_send l)"
  by (simp add: keeps_def P_send)

lemma keeps_device_config: "keeps P (bridge_device_config a)"
proof -
  have "P (snd (bridge_device_config a b))" if "P b" for b
    using P_learn [OF that, of a] that
    by (cases "map_of (br_devices b) (canon a)")
       (simp_all add: bridge_device_config_def bread_def Let_def bret_def bseq_def bbind_def bmodify_def)
  then show ?thesis by (simp add: keeps_def)
qed

lemma keeps_send_device_command:
  assumes "ok x"
  shows "keeps P (send_device_command x)"
proof -
  obtain a c where x: "x = (a, c)" by (cases x)
  have encoded: "keeps P (bbind (bresult (encode_rf_command a c)) (\<lambda>l. bfor (\<lambda>_. mochad_send l) us))" for us
  proof (cases "encode_rf_command a c")
    case (Inl e)
    then show ?thesis by (simp add: bbind_def bresult_def keeps_def)
  next
    case (Inr l)
    then have "wire_line ok l" using assms x by (auto simp: wire_line_def)
    then have "keeps P (bfor (\<lambda>_. mochad_send l) us)" by (intro keeps_bfor keeps_mochad_send)
    then show ?thesis using Inr by (simp add: bbind_def bresult_def keeps_def)
  qed
  show ?thesis
    unfolding send_device_command_def x Let_def prod.case
    by (rule keeps_bbind [OF keeps_device_config encoded])
qed

lemma keeps_publish_current_status: "keeps P publish_current_status"
  unfolding publish_current_status_def by (intro keeps_control keeps_mqtt_out)

lemma keeps_queue_device_command: "ok x \<Longrightarrow> keeps P (queue_device_command x)"
  unfolding queue_device_command_def
  by (intro keeps_control keeps_bmodify P_enqueue keeps_publish_current_status)

lemma P_flush_loop: "P b \<Longrightarrow> P (snd (flush_loop n b))"
proof (induction n arbitrary: b)
  case (Suc n)
  show ?case
  proof (cases "br_queued_device_commands b")
    case (Cons x rest)
    obtain r b' where sent: "send_device_command x (b\<lparr>br_queued_device_commands := rest\<rparr>) = (r, b')" by fastforce
    have pop: "ok x" "P (b\<lparr>br_queued_device_commands := rest\<rparr>)" using P_pop [OF Suc.prems Cons] by auto
    have b': "P b'" by (rule keepsD [OF keeps_send_device_command [OF pop(1)] pop(2) sent])
    have q: "br_queued_device_commands b' = rest"
      using send_device_command_same_queue [OF sent] by (simp add: same_queue_def)
    show ?thesis
      using Cons sent b' Suc.IH [OF b'] P_put_back [OF Suc.prems Cons b' q] q by (cases r) auto
  qed (simp add: Suc.prems)
qed simp

lemma keeps_flush: "keeps P flush_queued_device_commands"
proof -
  have "keeps P (flush_loop n)" for n by (simp add: keeps_def P_flush_loop)
  then show ?thesis
    unfolding flush_queued_device_commands_def
    by (intro keeps_bread) (auto intro!: keeps_control keeps_publish_current_status)
qed

lemma keeps_perform: "act_sends ok action \<Longrightarrow> keeps P (perform action)"
  by (cases action)
     (auto intro!: keeps_control keeps_mqtt_out keeps_publish_messages keeps_device_config keeps_mochad_send
       keeps_queue_device_command keeps_send_device_command simp: wire_line_def split: option.splits)

lemma keeps_execute_action: "act_sends ok action \<Longrightarrow> keeps P (execute_action action)"
  unfolding execute_action_def
  by (rule keeps_bread) (simp add: keeps_perform keeps_bmodify P_drop)

lemmas keeps_effects = keeps_control keeps_mqtt_out keeps_publish_messages
  keeps_publish_current_status keeps_flush

lemma P_execute_actions: "P b \<Longrightarrow> list_all (act_sends ok) acts \<Longrightarrow> P (snd (execute_actions acts b))"
  using keeps_execute_actions [of acts] keeps_execute_action by (simp add: keeps_def list_all_iff)

lemma keeps_with_state: "(\<And>b. P b \<Longrightarrow> state_law P ok b (f (br_state b))) \<Longrightarrow> keeps P (with_state f)"
  by (simp add: keeps_def with_state_def case_prod_unfold state_law_def Let_def P_execute_actions)

lemma keeps_files:
  "keeps P load_discovery_registry" "keeps P (save_discovery_registry ts)" "keeps P (write_health st)"
  by (simp_all add: keeps_def load_discovery_registry_def save_discovery_registry_def write_health_def
      case_prod_unfold Let_def P_files)

lemma keeps_write_current_health: "keeps P write_current_health"
  unfolding write_current_health_def by (intro keeps_control keeps_files)

lemma keeps_discovery:
  "keeps P publish_bridge_diagnostic_discovery" "keeps P publish_current_discovery"
  "keeps P desired_discovery_topics" "keeps P (clear_topics ts)"
  unfolding publish_bridge_diagnostic_discovery_def publish_current_discovery_def desired_discovery_topics_def clear_topics_def
  by (intro keeps_effects)+

lemma keeps_cleanup: "keeps P (run_discovery_cleanup force)" "keeps P reset_discovery"
  unfolding run_discovery_cleanup_def reset_discovery_def Let_def
  by (auto intro!: keeps_effects keeps_files keeps_discovery split: sum.splits)

lemma keeps_respond: "keeps P (respond cm su msg pl)" "keeps P (respond_result c' fb res)"
  unfolding respond_result_def respond_def by (rule keeps_execute_action, simp)+

lemma keeps_handle_bridge_command: "keeps P (handle_bridge_command cm)"
  unfolding handle_bridge_command_def
  by (cases cm) (auto intro!: keeps_effects keeps_files keeps_discovery keeps_cleanup keeps_respond keeps_execute_action
      split: option.splits)

lemma keeps_on_mqtt_command: "keeps P (on_mqtt_command dv payload topic)"
proof -
  have "keeps P (with_state (optimistic_update now a c))" if "normalize_address dv = Inr a" "encode_rf_command a c = Inr l" for now a c l
    using P_request [OF _ that(1)] that(2) by (intro keeps_with_state) (simp add: encode_rf_command_spec)
  then show ?thesis
    unfolding on_mqtt_command_def
    by (auto intro!: keeps_effects keeps_device_config split: sum.splits option.splits)
qed

lemma keeps_on_mqtt_message: "keeps P (on_mqtt_message topic msg)"
  unfolding on_mqtt_message_def on_mqtt_bridge_command_def
  by (auto intro!: keeps_control keeps_on_mqtt_command keeps_respond keeps_handle_bridge_command
      split: mqtt_route.splits option.splits)

lemma keeps_connection:
  "keeps P (with_state sm_mqtt_connect)" "keeps P (with_state sm_mqtt_disconnect)"
  "keeps P (with_state sm_mochad_connect)" "keeps P (with_state sm_mochad_disconnect)"
  using P_connection [of _ MqttConnected] P_connection [of _ MqttDisconnected]
    P_connection [of _ MochadConnected] P_connection [of _ MochadDisconnected]
  by (simp_all add: keeps_with_state)

lemma keeps_on_connection:
  "keeps P on_mqtt_connected" "keeps P on_mqtt_disconnected" "keeps P on_mochad_connected" "keeps P on_mochad_disconnected"
  unfolding on_mqtt_connected_def on_mqtt_disconnected_def on_mochad_connected_def on_mochad_disconnected_def
  by (auto intro!: keeps_effects keeps_connection keeps_discovery keeps_cleanup keeps_files keeps_write_current_health
      keeps_request_mochad_diagnostics keeps_execute_action keeps_bmodify P_diagnostics simp: wire_line_def)

lemma keeps_diagnostic_line: "keeps P (handle_mochad_diagnostic_line ln)"
  unfolding handle_mochad_diagnostic_line_def handle_diagnostic_payload_def
  by (auto intro!: keeps_effects keeps_discovery keeps_files keeps_bmodify P_diagnostics
      split: option.splits json.splits)

lemma keeps_event_line:
  "keeps P (bread (\<lambda>b. let (r, p) = parse_line (br_now b) ln (br_parser b) in
      bseq (bmodify (\<lambda>b. b\<lparr>br_parser := p\<rparr>)) (bbind (bresult r) (\<lambda>ev. with_state (sm_apply (br_now b) ev)))))"
  (is "keeps P ?m")
proof -
  have "P (snd (?m b))" if P: "P b" for b
  proof -
    obtain r p where rp: "parse_line (br_now b) ln (br_parser b) = (r, p)" by fastforce
    show ?thesis
    proof (cases r)
      case (Inl e)
      with rp P_parse [OF P] show ?thesis by (auto simp: bread_def bseq_def bbind_def bmodify_def bresult_def)
    next
      case (Inr ev)
      with P_event [OF P] rp have "state_law P ok (b\<lparr>br_parser := p\<rparr>) (sm_apply (br_now b) ev (br_state b))" by blast
      then show ?thesis
        using rp Inr P_execute_actions
        by (simp add: bread_def bseq_def bbind_def bmodify_def bresult_def with_state_def Let_def case_prod_unfold state_law_def)
    qed
  qed
  then show ?thesis by (simp add: keeps_def)
qed

lemma keeps_on_mochad_line: "keeps P (on_mochad_line ln)"
  unfolding on_mochad_line_def Let_def
  by (rule keeps_bbind [OF keeps_diagnostic_line]) (use keeps_event_line in \<open>auto simp: keeps_bret Let_def\<close>)

end

subsection \<open>Runs\<close>

text \<open>The remaining effects: connection flags, the main loop, the surroundings.\<close>

locale run_property = bridge_property +
  assumes P_mqtt_flag: "P b \<Longrightarrow> P (b\<lparr>br_mqtt_connected := fl\<rparr>)"
    and P_mochad_flag: "P b \<Longrightarrow> P (b\<lparr>br_mochad_connected := fl\<rparr>)"
    and P_reload: "P b \<Longrightarrow> load_config env fs = Inr cf \<Longrightarrow>
      P (b\<lparr>br_config := (br_config b)\<lparr>cf_devices := cf_devices cf, cf_use_friendly_names := cf_use_friendly_names cf\<rparr>,
             br_devices := allowed_devices (br_config b) (cf_devices cf)\<rparr>)"
    and P_signature: "P b \<Longrightarrow> P (b\<lparr>br_config_file_signature := sg\<rparr>)"
    and P_stop: "P b \<Longrightarrow> P (b\<lparr>br_running := False, br_stopping := True, br_mochad_connected := False\<rparr>)"
    and P_surround: "P b \<Longrightarrow> P (surround su b)"
begin

lemma keeps_apply_runtime_config:
  assumes "load_config env fs = Inr cf"
  shows "keeps P (apply_runtime_config cf)"
proof -
  let ?tail = "bread (\<lambda>b. bwhen (br_mqtt_connected b)
      (bseq publish_current_discovery (bseq (run_discovery_cleanup False) publish_current_status)))"
  have tail: "keeps P ?tail" by (intro keeps_effects keeps_discovery keeps_cleanup)
  have "P (snd (apply_runtime_config cf b))" if P: "P b" for b
  proof (cases "dict_eq (allowed_devices (br_config b) (cf_devices cf)) (br_devices b) \<and>
      cf_use_friendly_names cf = cf_use_friendly_names (br_config b)")
    case True
    then show ?thesis by (simp add: apply_runtime_config_def bread_def Let_def bret_def P)
  next
    case False
    let ?b = "b\<lparr>br_config := (br_config b)\<lparr>cf_devices := cf_devices cf, cf_use_friendly_names := cf_use_friendly_names cf\<rparr>,
             br_devices := allowed_devices (br_config b) (cf_devices cf)\<rparr>"
    have "P (snd (?tail ?b))" using tail P_reload [OF P assms] by (simp add: keeps_def)
    moreover have "snd (apply_runtime_config cf b) = snd (?tail ?b)"
      unfolding apply_runtime_config_def bread_def [of _ b] Let_def if_not_P [OF False]
      by (simp add: bseq_def [of "bmodify _"] bbind_def bmodify_def)
    ultimately show ?thesis by metis
  qed
  then show ?thesis by (simp add: keeps_def)
qed

lemma keeps_check_config_file_reload: "keeps P (check_config_file_reload force due sg env)"
  unfolding check_config_file_reload_def
  by (auto intro!: keeps_control keeps_bmodify P_signature intro: keeps_apply_runtime_config split: sum.splits exn.splits)

lemma keeps_stop: "keeps P stop"
  unfolding stop_def publish_shutdown_status_def Let_def
  by (auto intro!: keeps_effects keeps_bmodify P_stop keeps_files)

lemma keeps_handle: "keeps P (handle oc)"
  by (cases oc)
     (auto intro!: keeps_control keeps_bmodify P_mqtt_flag P_mochad_flag keeps_on_connection keeps_on_mqtt_message
       keeps_on_mochad_line keeps_stop keeps_check_config_file_reload keeps_write_current_health simp: run_turn_def)

lemma P_step: "P b \<Longrightarrow> P (step so b)"
  unfolding step_def using keeps_handle [of "snd so"] P_surround by (auto simp: keeps_def)

lemma P_run: "P b \<Longrightarrow> P (run_bridge sos b)"
  unfolding run_bridge_def by (induction sos arbitrary: b) (auto intro: P_step)

end

end
