(* ===== verification/BridgeRuns.thy ===== *)
theory BridgeRuns
  imports BridgeLaws
begin

section \<open>Every run of the bridge\<close>

text \<open>
  The invariant of the bridge, over every run: any order of callbacks, turns of the main loop and
  signals, any failures of the socket and any content of the files.
\<close>

subsection \<open>What is sent\<close>

lemma sends_free_loops:
  "SendDeviceCommandAction x c \<notin> set (fst (set_device_state k c' now r cp m))"
  "SendDeviceCommandAction x c \<notin> set (fst (discovery_actions k m))"
  "SendDeviceCommandAction x c \<notin> set (fst (house_loop e ks m))"
  "SendDeviceCommandAction x c \<notin> set (fst (snapshot_loop now ds m))"
  "SendDeviceCommandAction x c \<notin> set (fst (rediscover_loop ks m))"
  "SendDeviceCommandAction x c \<notin> set (fst (bridge_status_actions m))"
proof -
  show set: "SendDeviceCommandAction x c \<notin> set (fst (set_device_state k c' now r cp m))" for k c' now r cp m
    by (simp add: set_device_state_def Let_def)
  show "SendDeviceCommandAction x c \<notin> set (fst (discovery_actions k m))" by (simp add: discovery_actions_def)
  show "SendDeviceCommandAction x c \<notin> set (fst (bridge_status_actions m))" by (simp add: bridge_status_actions_def Let_def)
  show "SendDeviceCommandAction x c \<notin> set (fst (house_loop e ks m))"
    by (induction ks arbitrary: m) (auto simp: case_prod_unfold Let_def set)
  show "SendDeviceCommandAction x c \<notin> set (fst (snapshot_loop now ds m))"
  proof (induction ds arbitrary: m)
    case (Cons p ds)
    then show ?case
      by (cases p) (simp only: snapshot_loop.simps Let_def case_prod_unfold, auto simp: set split: if_splits)
  qed simp
  show "SendDeviceCommandAction x c \<notin> set (fst (rediscover_loop ks m))"
    by (induction ks arbitrary: m) (auto simp: case_prod_unfold Let_def split: option.splits)
qed

lemma sends_of_exec:
  assumes "SendDeviceCommandAction x c \<in> set (fst (sm_exec call m))" "sm_inv m"
  shows "\<exists>now a. call = Request now a c \<and> x = canon a"
proof (cases call)
  case (Request now a c')
  have "ds_address (dev (ensure_device a m) (canon a)) = canon a" if "address_allowed m a"
    using sm_inv_ensure_device [OF assms(2) that] by (simp add: has_dev_ensure_device)
  then show ?thesis
    using assms(1) unfolding Request sm_exec.simps optimistic_update_def
    by (auto simp: Let_def case_prod_unfold sends_free_loops split: if_splits)
next
  case (Apply now ev)
  then show ?thesis
  proof (cases ev)
    case (Some e)
    then show ?thesis using assms(1) Apply
      by (cases e) (auto simp: apply_device_event_def apply_house_event_def apply_status_snapshot_def Let_def
          case_prod_unfold sends_free_loops split: if_splits)
  qed (use assms(1) Apply in simp)
qed (use assms(1) in \<open>auto simp: sm_mqtt_connect_def sm_mqtt_disconnect_def sm_mochad_connect_def
    sm_mochad_disconnect_def Let_def case_prod_unfold sends_free_loops\<close>)

text \<open>A device command the bridge may send, for a manager with the configuration of \<open>m0\<close>.\<close>

definition may_send :: "state_manager \<Rightarrow> address \<times> command \<Rightarrow> bool" where
  "may_send m0 = (\<lambda>(a, c). valid_address a \<and> encodable c \<and> address_allowed m0 a \<and> c \<in> dc_supported_commands (config_of m0 a))"

lemma exec_sends:
  assumes "sm_inv m" "same_config m0 m" "call_ok call"
  shows "list_all (act_sends (may_send m0)) (fst (sm_exec call m))"
  unfolding list_all_iff
proof
  fix act assume act: "act \<in> set (fst (sm_exec call m))"
  have law: "act_ok m0 act"
    using lawful_exec [OF assms(1), of call] act_ok_cong [OF assms(2)] act by (simp add: lawful_def list_all_iff)
  show "act_sends (may_send m0) act"
  proof (cases act)
    case (SendDeviceCommandAction a c)
    with act sends_of_exec [OF _ assms(1)] obtain now a' where "call = Request now a' c" "a = canon a'" by blast
    with assms(3) law SendDeviceCommandAction show ?thesis by (simp add: may_send_def normal_address_def)
  qed (use law in simp_all)
qed

subsection \<open>The invariant\<close>

text \<open>
  The lines on the wire: one of the requests of the bridge, or the radio command of a device whose
  house is allowed and whose configuration supports it.
\<close>

definition sent_ok :: "state_manager \<Rightarrow> string \<Rightarrow> bool" where
  "sent_ok m0 s \<longleftrightarrow> (\<exists>l. wire_line (may_send m0) l \<and> s = l @ [CHR 0x0A])"

definition entry_ok :: "address \<times> device_config \<Rightarrow> bool" where
  "entry_ok = (\<lambda>(k, d). dc_address d = k \<and> canon k = k \<and> 1 \<le> dc_command_repeats d \<and> dc_command_repeats d \<le> 5)"

definition bridge_inv :: "state_manager \<Rightarrow> bridge \<Rightarrow> bool" where
  "bridge_inv m0 b \<longleftrightarrow> same_config m0 (br_state b) \<and> sm_inv (br_state b) \<and> keys_valid (br_state b) \<and>
     pp_inv (br_parser b) \<and> length (br_queued_device_commands b) \<le> MAX_QUEUED_DEVICE_COMMANDS \<and>
     list_all (may_send m0) (br_queued_device_commands b) \<and> list_all (sent_ok m0) (br_sent b) \<and>
     distinct (map fst (br_devices b)) \<and> list_all entry_ok (br_devices b)"

lemma wire_line_plain: "wire_line ok l \<Longrightarrow> rstrip_by is_crlf l = l"
proof -
  assume "wire_line ok l"
  then consider "l \<in> {''st'', ''hello'', ''capabilities'', ''health''}" | a c where "encode_rf_command a c = Inr l"
    by (auto simp: wire_line_def)
  then show ?thesis
  proof cases
    case 1
    have "list_all (\<lambda>l. rstrip_by is_crlf l = l) [''st'', ''hello'', ''capabilities'', ''health'']" by code_simp
    with 1 show ?thesis by auto
  next
    case 2
    then have enc: "encodable c" "\<exists>p. l = p @ lower (command_name c)"
      by (auto simp: encode_rf_command_spec split: if_splits)
    have "list_all (\<lambda>c. lower (command_name c) \<noteq> [] \<and> \<not> is_crlf (last (lower (command_name c)))) [ON, OFF, DIM, BRIGHT]"
      by code_simp
    moreover have "c \<in> set [ON, OFF, DIM, BRIGHT]" using enc(1) by (simp add: encodable_def)
    ultimately have "lower (command_name c) \<noteq> []" "\<not> is_crlf (last (lower (command_name c)))"
      unfolding list_all_iff by blast+
    with enc(2) show ?thesis by (auto intro!: rstrip_by_id)
  qed
qed

lemma inv_send:
  assumes "bridge_inv m0 b" "wire_line (may_send m0) l"
  shows "bridge_inv m0 (snd (mochad_send l b))"
  using assms wire_line_plain [OF assms(2)]
  by (auto simp: mochad_send_def send_line_def Let_def bridge_inv_def sent_ok_def split: option.splits list.splits)

lemma inv_exec:
  assumes "bridge_inv m0 b" "call_ok call"
  shows "state_law (bridge_inv m0) (may_send m0) b (sm_exec call (br_state b))"
proof -
  have m: "sm_inv (br_state b)" "same_config m0 (br_state b)" "keys_valid (br_state b)"
    using assms(1) by (simp_all add: bridge_inv_def)
  have "lawful (br_state b) (sm_exec call (br_state b))" by (rule lawful_exec [OF m(1)])
  then have "sm_inv (snd (sm_exec call (br_state b)))" "same_config m0 (snd (sm_exec call (br_state b)))"
    using same_config_trans [OF m(2)] by (auto simp: lawful_def)
  then show ?thesis
    using assms(1) exec_sends [OF m(1,2) assms(2)] keys_valid_exec [OF m(3) assms(2)]
    by (simp add: state_law_def bridge_inv_def)
qed

lemma inv_learn:
  assumes "bridge_inv m0 b"
  shows "bridge_inv m0 (b\<lparr>br_devices := AList.update (canon a) (default_device (canon a) (canon a)) (br_devices b)\<rparr>)"
proof -
  have "entry_ok (canon a, default_device (canon a) (canon a))" by (simp add: entry_ok_def)
  with assms show ?thesis
    by (auto simp: bridge_inv_def list_all_iff distinct_update dest!: set_update_entry)
qed

lemma inv_enqueue: "bridge_inv m0 b \<Longrightarrow> may_send m0 x \<Longrightarrow> bridge_inv m0 (enqueue x b)"
  by (cases "br_queued_device_commands b")
     (auto simp: enqueue_def Let_def bridge_inv_def MAX_QUEUED_DEVICE_COMMANDS_def)

lemma devices_ok_entry: "devices_ok f devices \<Longrightarrow> (a, d) \<in> set devices \<Longrightarrow> valid_address a \<and> entry_ok (a, d)"
  using valid_address_canon [of a] by (auto simp: devices_ok_def device_ok_def entry_ok_def dest!: bspec)

lemma inv_reload:
  assumes "bridge_inv m0 b" "load_config env fs = Inr c"
  shows "bridge_inv m0 (b\<lparr>br_config := c', br_devices := allowed_devices c'' (cf_devices c)\<rparr>)"
proof -
  have ok: "devices_ok (cf_use_friendly_names c) (cf_devices c)"
    using load_config_Inr [OF assms(2)] devices_from_sources_ok by blast
  then have "distinct (map fst (allowed_devices c'' (cf_devices c)))" "list_all entry_ok (allowed_devices c'' (cf_devices c))"
    using devices_ok_entry [OF ok]
    by (auto simp: allowed_devices_def list_all_iff devices_ok_def intro!: distinct_map_filter)
  with assms(1) show ?thesis by (simp add: bridge_inv_def)
qed

interpretation safe: run_property "bridge_inv m0" "may_send m0" for m0
proof
  fix b assume inv: "bridge_inv m0 b"
  show "state_law (bridge_inv m0) (may_send m0) b (optimistic_update now a c (br_state b))"
    if "normalize_address raw = Inr a" "encodable c" for raw a now c
    using inv_exec [OF inv, of "Request now a c"] that by (simp add: validation.norm_Inr_iff valid_address_canon)
  show "state_law (bridge_inv m0) (may_send m0) b (sm_exec call (br_state b))"
    if "call \<in> {MqttConnected, MqttDisconnected, MochadConnected, MochadDisconnected}" for call
    using that by (intro inv_exec [OF inv]) auto
  have pp: "pp_inv (br_parser b)" using inv by (simp add: bridge_inv_def)
  show "bridge_inv m0 (b\<lparr>br_parser := p\<rparr>)" if "parse_line now l (br_parser b) = (Inl e, p)" for now l e p
    using parse_line_total [OF pp, of now l] that by auto
  show "state_law (bridge_inv m0) (may_send m0) (b\<lparr>br_parser := p\<rparr>) (sm_apply now ev (br_state b))"
    if "parse_line now l (br_parser b) = (Inr ev, p)" for now l ev p
  proof -
    have "pp_inv p" "pred_option event_ok ev" using parse_line_total [OF pp, of now l] that by auto
    then show ?thesis using inv_exec [of m0 "b\<lparr>br_parser := p\<rparr>" "Apply now ev"] inv by (simp add: bridge_inv_def)
  qed
qed ((rule inv_send inv_learn inv_enqueue inv_reload; assumption) | (auto simp: bridge_inv_def surround_def; fail))+

text \<open>
  What the methods do not touch: any property of the topics, the switches of the configuration and
  the running flag that survives the stop of the bridge may be added to the invariant.
\<close>

definition frame_view :: "bridge \<Rightarrow> discovery_manager \<times> string \<times> bool \<times> bool \<times> bool" where
  "frame_view b = (br_discovery b, cf_mqtt_base_topic (br_config b), cf_discovery_cleanup (br_config b),
     cf_enable_maintenance_buttons (br_config b), br_running b)"

locale framed_property =
  fixes m0 :: state_manager and Q :: "bridge \<Rightarrow> bool"
  assumes Q_frame: "Q b \<Longrightarrow> frame_view b' = frame_view b \<Longrightarrow> Q b'"
    and Q_stop: "Q b \<Longrightarrow> Q (b\<lparr>br_running := False, br_stopping := True, br_mochad_connected := False\<rparr>)"
begin

lemma framed_law:
  "state_law (bridge_inv m0) (may_send m0) b r \<Longrightarrow> Q b \<Longrightarrow> state_law (\<lambda>b. bridge_inv m0 b \<and> Q b) (may_send m0) b r"
  by (auto simp: state_law_def frame_view_def intro: Q_frame)

end

sublocale framed_property \<subseteq> run_property "\<lambda>b. bridge_inv m0 b \<and> Q b" "may_send m0"
proof
  fix b assume P: "bridge_inv m0 b \<and> Q b"
  then have inv: "bridge_inv m0 b" and q: "Q b" by simp_all
  have q': "Q (b\<lparr>br_parser := p\<rparr>)" for p using q by (rule Q_frame) (simp add: frame_view_def)
  show "state_law (\<lambda>b. bridge_inv m0 b \<and> Q b) (may_send m0) b (optimistic_update now a cm (br_state b))"
    if "normalize_address raw = Inr a" "encodable cm" for raw a cm now
    by (rule framed_law [OF safe.P_request [OF inv that] q])
  show "state_law (\<lambda>b. bridge_inv m0 b \<and> Q b) (may_send m0) b (sm_exec call (br_state b))"
    if "call \<in> {MqttConnected, MqttDisconnected, MochadConnected, MochadDisconnected}" for call
    by (rule framed_law [OF safe.P_connection [OF inv that] q])
  show "state_law (\<lambda>b. bridge_inv m0 b \<and> Q b) (may_send m0) (b\<lparr>br_parser := pp\<rparr>) (sm_apply now ev (br_state b))"
    if "parse_line now l (br_parser b) = (Inr ev, pp)" for now l ev pp
    by (rule framed_law [OF safe.P_event [OF inv that] q'])
  show "bridge_inv m0 (snd (mochad_send l b)) \<and> Q (snd (mochad_send l b))" if "wire_line (may_send m0) l" for l
    using safe.P_send [OF inv that] Q_frame [OF q] by (auto simp: frame_view_def mochad_send_def Let_def split: sum.splits)
  show "bridge_inv m0 (enqueue x b) \<and> Q (enqueue x b)" if "may_send m0 x" for x
    using safe.P_enqueue [OF inv that] Q_frame [OF q] by (auto simp: frame_view_def enqueue_def Let_def)
  show "may_send m0 x \<and> bridge_inv m0 (b\<lparr>br_queued_device_commands := rest\<rparr>) \<and> Q (b\<lparr>br_queued_device_commands := rest\<rparr>)"
    if "br_queued_device_commands b = x # rest" for x rest
    using safe.P_pop [OF inv that] Q_frame [OF q] by (auto simp: frame_view_def)
  show "bridge_inv m0 (b\<lparr>br_parser := pp\<rparr>) \<and> Q (b\<lparr>br_parser := pp\<rparr>)"
    if "parse_line now l (br_parser b) = (Inl e, pp)" for now l e pp
    using safe.P_parse [OF inv that] q' by simp
  show "bridge_inv m0 (b\<lparr>br_config := (br_config b)\<lparr>cf_devices := cf_devices cf, cf_use_friendly_names := cf_use_friendly_names cf\<rparr>,
             br_devices := allowed_devices (br_config b) (cf_devices cf)\<rparr>) \<and>
      Q (b\<lparr>br_config := (br_config b)\<lparr>cf_devices := cf_devices cf, cf_use_friendly_names := cf_use_friendly_names cf\<rparr>,
             br_devices := allowed_devices (br_config b) (cf_devices cf)\<rparr>)" if "load_config env fs = Inr cf" for env fs cf
    using safe.P_reload [OF inv that] Q_frame [OF q] by (auto simp: frame_view_def)
  show "bridge_inv m0 (b'\<lparr>br_queued_device_commands := x # rest\<rparr>) \<and> Q (b'\<lparr>br_queued_device_commands := x # rest\<rparr>)"
    if "br_queued_device_commands b = x # rest" "bridge_inv m0 b' \<and> Q b'" "br_queued_device_commands b' = rest" for x rest b'
    using safe.P_put_back [OF inv that(1)] that Q_frame by (auto simp: frame_view_def)
  show "bridge_inv m0 (surround su b) \<and> Q (surround su b)" for su
    using safe.P_surround [OF inv] Q_frame [OF q] by (simp add: frame_view_def surround_def)
qed (auto simp: frame_view_def intro: Q_frame Q_stop safe.P_publish safe.P_learn safe.P_drop safe.P_files
    safe.P_diagnostics safe.P_mqtt_flag safe.P_mochad_flag safe.P_signature safe.P_stop)

subsection \<open>From the start\<close>

lemma dev_keys_add_configs: "dev_keys (add_configs ds m) \<subseteq> dev_keys m \<union> (canon \<circ> dc_address) ` set ds"
proof (induction ds arbitrary: m)
  case (Cons d ds)
  let ?m = "m\<lparr>sm_device_configs := AList.update (canon (dc_address d)) d (sm_device_configs m)\<rparr>"
  have "dev_keys (ensure_device (dc_address d) ?m) = insert (canon (dc_address d)) (dev_keys m)"
    by (simp add: dev_keys_def [of ?m]) (simp add: dev_keys_def)
  then show ?case
    using Cons [of m] Cons [of "ensure_device (dc_address d) ?m"] by auto
qed simp

lemma new_bridge_fields:
  "br_state (new_bridge c sg env fs) =
     new_state_manager (map snd (allowed_devices c (cf_devices c))) (cf_optimistic_updates c) (cf_x10_housecodes c)"
  "br_parser (new_bridge c sg env fs) = new_parser" "br_queued_device_commands (new_bridge c sg env fs) = []"
  "br_sent (new_bridge c sg env fs) = []" "br_devices (new_bridge c sg env fs) = allowed_devices c (cf_devices c)"
  "\<not> br_mqtt_connected (new_bridge c sg env fs)" "\<not> br_mochad_connected (new_bridge c sg env fs)"
  "br_dropped_device_commands (new_bridge c sg env fs) = 0"
  "br_published (new_bridge c sg env fs) = []" "br_config (new_bridge c sg env fs) = c"
  "br_discovery (new_bridge c sg env fs) = \<lparr>dg_discovery_prefix = cf_mqtt_discovery_prefix c, dg_base_topic = cf_mqtt_base_topic c,
     dg_support_url = DEFAULT_SUPPORT_URL, dg_enable_maintenance_buttons = cf_enable_maintenance_buttons c\<rparr>"
  by (simp_all add: new_bridge_def ensure_runtime_config_files_def Let_def)

lemma bridge_inv_new:
  assumes "load_config env fs = Inr c"
  shows "bridge_inv (br_state (new_bridge c sg env' fs')) (new_bridge c sg env' fs')"
proof -
  let ?ds = "map snd (allowed_devices c (cf_devices c))"
  have ok: "devices_ok (cf_use_friendly_names c) (cf_devices c)"
    using load_config_Inr [OF assms] devices_from_sources_ok by blast
  note entry = devices_ok_entry [OF ok]
  have "valid_address (canon (dc_address d))" if d: "d \<in> set ?ds" for d
  proof -
    obtain a where "(a, d) \<in> set (cf_devices c)" using d by (auto simp: allowed_devices_def)
    from entry [OF this] show ?thesis by (auto simp: entry_ok_def)
  qed
  then have "keys_valid (br_state (new_bridge c sg env' fs'))"
    using dev_keys_add_configs [of ?ds] unfolding keys_valid_def new_bridge_fields new_state_manager_def
    by (fastforce simp: dev_keys_def [of "\<lparr>sm_devices = [], sm_device_configs = cfg, sm_statistics = st, sm_mqtt_connected = u,
          sm_mqtt_has_connected = v, sm_mochad_connected = w, sm_available = x, sm_mqtt_generation = n,
          sm_optimistic_updates = y, sm_allowed_housecodes = h\<rparr>" for cfg st u v w x n y h])
  moreover have "sm_inv (br_state (new_bridge c sg env' fs'))"
    unfolding new_bridge_fields using fresh_new by (simp add: fresh_def)
  moreover have "distinct (map fst (allowed_devices c (cf_devices c)))" "list_all entry_ok (allowed_devices c (cf_devices c))"
    using entry ok by (auto simp: allowed_devices_def list_all_iff devices_ok_def intro!: distinct_map_filter)
  ultimately show ?thesis
    by (simp add: bridge_inv_def new_bridge_fields pp_inv_new)
qed

lemma run_inv:
  assumes "load_config env fs = Inr c"
  shows "bridge_inv (br_state (new_bridge c sg env' fs')) (run_bridge sos (new_bridge c sg env' fs'))"
  by (rule safe.P_run [OF bridge_inv_new [OF assms]])

text \<open>
  C4. Over every run of the bridge, from its construction with a loaded configuration and through any
  order of connections, messages, lines, reloads and failures: the queue of device commands holds at
  most one hundred, the state manager's invariant holds and its devices have valid addresses, and the
  table of devices is keyed by normalised addresses with one to five repeats each.  The state manager keeps
  the configuration it was constructed with: a reload changes the table of the bridge only.
\<close>

theorem bridge_run_invariant:
  assumes "load_config env fs = Inr c"
  shows "let b0 = new_bridge c sg env' fs'; b = run_bridge sos b0 in
    length (br_queued_device_commands b) \<le> 100 \<and> sm_inv (br_state b) \<and>
    (\<forall>k. has_dev (br_state b) k \<longrightarrow> valid_address k) \<and>
    distinct (map fst (br_devices b)) \<and>
    (\<forall>(k, d) \<in> set (br_devices b). dc_address d = k \<and> canon k = k \<and> dc_command_repeats d \<in> {1..5}) \<and>
    sm_device_configs (br_state b) = sm_device_configs (br_state b0)"
proof -
  let ?start = "new_bridge c sg env' fs'" and ?b = "run_bridge sos (new_bridge c sg env' fs')"
  have inv: "bridge_inv (br_state ?start) ?b" by (rule run_inv [OF assms])
  then have q: "length (br_queued_device_commands ?b) \<le> 100" by (simp add: bridge_inv_def MAX_QUEUED_DEVICE_COMMANDS_def)
  have "\<forall>k. has_dev (br_state ?b) k \<longrightarrow> valid_address k"
    using inv by (simp add: bridge_inv_def keys_valid_def dev_keys_has_dev)
  moreover have "\<forall>(k, d) \<in> set (br_devices ?b). dc_address d = k \<and> canon k = k \<and> dc_command_repeats d \<in> {1..5}"
    using inv by (auto simp: bridge_inv_def list_all_iff entry_ok_def)
  ultimately show ?thesis
    unfolding Let_def using inv q by (simp add: bridge_inv_def same_config_def)
qed

subsection \<open>House codes on the wire\<close>

lemma is_housecode_canon: "is_housecode h \<Longrightarrow> canon h = h \<and> strip h \<noteq> []"
  by (auto simp: is_housecode_def strip_no_space house_char_not_space upper_def upper_house_char)

lemma canon_first:
  assumes "canon a = h # t"
  shows "canon [h] = [h]"
proof -
  obtain x s where x: "strip a = x # s" "h = upper_char x" using assms by (cases "strip a") (auto simp: upper_def)
  then have "\<not> is_space x" using hd_strip_by [of is_space a] by (simp add: strip_def)
  then have "strip [h] = [h]" using x by (intro strip_no_space) simp
  then show ?thesis using x by (simp add: upper_def)
qed

lemma allowed_by_config:
  assumes "housecodes_ok (cf_x10_housecodes c)" "address_allowed (new_state_manager ds opt (cf_x10_housecodes c)) a"
  shows "address_allowed_by_config c a"
proof -
  have hs: "sm_allowed_housecodes (add_configs ds m) = sm_allowed_housecodes m" for m
  proof (induction ds arbitrary: m)
    case (Cons d ds)
    then show ?case
      by (auto simp: ensure_device_def Let_def split: option.splits)
  qed simp
  show ?thesis
  proof (cases "cf_x10_housecodes c")
    case None
    then show ?thesis by (simp add: address_allowed_by_config_def)
  next
    case (Some codes)
    then have codes: "codes \<noteq> []" "\<forall>h \<in> set codes. is_housecode h"
      using assms(1) by (auto simp: housecodes_ok_def list_all_iff)
    then have "filter (\<lambda>c. strip c \<noteq> []) codes = codes" "map canon codes = codes"
      using is_housecode_canon by (auto simp: filter_id_conv intro!: map_idI)
    with codes(1) have "normalize_housecodes (Some codes) = Some (set codes)" by (simp add: normalize_housecodes_def)
    with assms(2) Some show ?thesis
      by (auto simp: address_allowed_def house_allowed_def new_state_manager_def hs address_allowed_by_config_def
          canon_first upper_def [of "[]"] split: list.splits)
  qed
qed

text \<open>
  C7. Nothing but permitted requests is ever written to mochad, over every run: each line is one of the
  four requests of the bridge (\<^verbatim>\<open>st\<close>, \<^verbatim>\<open>hello\<close>, \<^verbatim>\<open>capabilities\<close>, \<^verbatim>\<open>health\<close>) or the radio command of a valid
  address whose house code the configuration allows, and of a command (\<^verbatim>\<open>ON\<close>, \<^verbatim>\<open>OFF\<close>, \<^verbatim>\<open>DIM\<close>, \<^verbatim>\<open>BRIGHT\<close>) that the
  device supports, whether it was sent at once or had been queued.
\<close>

theorem only_permitted_lines_sent:
  assumes "load_config env fs = Inr c" "s \<in> set (br_sent (run_bridge sos (new_bridge c sg env' fs')))"
  shows "s \<in> {''st'' @ [CHR 0x0A], ''hello'' @ [CHR 0x0A], ''capabilities'' @ [CHR 0x0A], ''health'' @ [CHR 0x0A]} \<or>
    (\<exists>a cmd. s = ''rf '' @ a @ '' '' @ lower (command_name cmd) @ [CHR 0x0A] \<and> valid_address a \<and>
       address_allowed_by_config c a \<and> cmd \<in> {ON, OFF, DIM, BRIGHT} \<and>
       cmd \<in> dc_supported_commands (config_of (br_state (new_bridge c sg env' fs')) a))"
proof -
  let ?m0 = "br_state (new_bridge c sg env' fs')"
  obtain l where l: "wire_line (may_send ?m0) l" "s = l @ [CHR 0x0A]"
    using run_inv [OF assms(1), of sg env' fs' sos] assms(2) by (auto simp: bridge_inv_def list_all_iff sent_ok_def)
  have hc: "housecodes_ok (cf_x10_housecodes c)" by (rule load_config_housecodes [OF assms(1)])
  from l(1) consider "l \<in> {''st'', ''hello'', ''capabilities'', ''health''}"
    | a cmd where "may_send ?m0 (a, cmd)" "encode_rf_command a cmd = Inr l" by (auto simp: wire_line_def)
  then show ?thesis
  proof cases
    case 1
    then show ?thesis using l(2) by auto
  next
    case (2 a cmd)
    then have "valid_address a" "address_allowed ?m0 a" "cmd \<in> dc_supported_commands (config_of ?m0 a)"
      by (auto simp: may_send_def)
    moreover from this have "address_allowed_by_config c a"
      using allowed_by_config [OF hc] by (simp add: new_bridge_fields)
    moreover have "l = ''rf '' @ a @ '' '' @ lower (command_name cmd)" "cmd \<in> {ON, OFF, DIM, BRIGHT}"
      using 2(2) valid_address_canon [OF \<open>valid_address a\<close>] by (auto simp: encode_rf_command_spec encodable_def)
    ultimately show ?thesis using l(2) by auto
  qed
qed

definition calm :: surroundings where
  "calm = \<lparr>su_time = ''1.5'', su_time3 = ''1.500'', su_now = ''now'', su_stamp = ''stamp'', su_send_faults = [], su_files = demo_files\<rparr>"

definition demo_run :: "(surroundings \<times> occurrence) list" where
  "demo_run = [(calm, MqttMessage ''x10/a1/command'' ''ON''), (calm, MochadUp), (calm, MqttMessage ''x10/A1/command'' ''off'')]"

lemma demo_sent:
  "case load_config demo_env demo_files of
     Inl _ \<Rightarrow> False
   | Inr c \<Rightarrow> (let b = run_bridge demo_run (new_bridge c None demo_env demo_files) in
       ''rf A1 off'' @ [CHR 0x0A] \<in> set (br_sent b) \<and> br_queued_device_commands b = [(''A1'', ON)] \<and>
       device_command_queue_reason b = None \<and> \<not> br_mqtt_connected b \<and> br_send_faults b = [] \<and>
       ds_current_state (dev (br_state b) ''A1'') = Some OFF \<and> br_devices b = allowed_devices c (cf_devices c))"
  by code_simp

lemma demo_reached:
  obtains c where "load_config demo_env demo_files = Inr c"
    "''rf A1 off'' @ [CHR 0x0A] \<in> set (br_sent (run_bridge demo_run (new_bridge c None demo_env demo_files)))"
    "br_queued_device_commands (run_bridge demo_run (new_bridge c None demo_env demo_files)) = [(''A1'', ON)]"
    "device_command_queue_reason (run_bridge demo_run (new_bridge c None demo_env demo_files)) = None"
    "\<not> br_mqtt_connected (run_bridge demo_run (new_bridge c None demo_env demo_files))"
    "br_send_faults (run_bridge demo_run (new_bridge c None demo_env demo_files)) = []"
    "ds_current_state (dev (br_state (run_bridge demo_run (new_bridge c None demo_env demo_files))) ''A1'') = Some OFF"
    "br_devices (run_bridge demo_run (new_bridge c None demo_env demo_files)) = allowed_devices c (cf_devices c)"
proof (cases "load_config demo_env demo_files")
  case (Inl e)
  with demo_sent show ?thesis by (simp only: sum.case)
next
  case (Inr c)
  from demo_sent [unfolded Inr sum.case Let_def] show ?thesis by (elim conjE) (rule that [OF Inr])
qed

theorem bridge_run_invariant_witness:
  "\<exists>c. load_config demo_env demo_files = Inr c \<and>
     length (br_queued_device_commands (run_bridge demo_run (new_bridge c None demo_env demo_files))) \<le> 100 \<and>
     br_queued_device_commands (run_bridge demo_run (new_bridge c None demo_env demo_files)) = [(''A1'', ON)]"
proof -
  obtain c where c: "load_config demo_env demo_files = Inr c"
    "br_queued_device_commands (run_bridge demo_run (new_bridge c None demo_env demo_files)) = [(''A1'', ON)]"
    by (rule demo_reached)
  with bridge_run_invariant [OF c(1), of None demo_env demo_files demo_run, unfolded Let_def] show ?thesis by blast
qed

theorem only_permitted_lines_sent_witness:
  "\<exists>c a cmd. load_config demo_env demo_files = Inr c \<and>
     ''rf A1 off'' @ [CHR 0x0A] = ''rf '' @ a @ '' '' @ lower (command_name cmd) @ [CHR 0x0A] \<and> address_allowed_by_config c a"
proof -
  let ?s = "''rf A1 off'' @ [CHR 0x0A]"
  obtain c where c: "load_config demo_env demo_files = Inr c"
    "?s \<in> set (br_sent (run_bridge demo_run (new_bridge c None demo_env demo_files)))"
    by (rule demo_reached)
  have ne: "?s \<notin> {''st'' @ [CHR 0x0A], ''hello'' @ [CHR 0x0A], ''capabilities'' @ [CHR 0x0A], ''health'' @ [CHR 0x0A]}" by simp
  from only_permitted_lines_sent [OF c] show ?thesis
  proof
    assume "?s \<in> {''st'' @ [CHR 0x0A], ''hello'' @ [CHR 0x0A], ''capabilities'' @ [CHR 0x0A], ''health'' @ [CHR 0x0A]}"
    with ne show ?thesis by (rule notE)
  qed (use c(1) in \<open>elim exE conjE, intro exI conjI\<close>)
qed

end
