(* ===== verification/BridgeQueue.thy ===== *)
theory BridgeQueue
  imports BridgeRuns
begin

section \<open>The queue of device commands\<close>

text \<open>
  Commands that cannot be sent wait in a queue of bounded length that loses its oldest entry when it
  is full, and are sent in order when mochad reports that its USB controller is ready.
\<close>

subsection \<open>A bounded queue\<close>

text \<open>
  The interface: pushing onto a queue with room appends, pushing onto a full queue loses the first
  entry and counts it.  After any number of pushes the queue holds the last entries and the counter
  the number of the others.
\<close>

locale bounded_fifo =
  fixes push :: "'a \<Rightarrow> 'q \<Rightarrow> 'q"
    and contents :: "'q \<Rightarrow> 'a list"
    and lost :: "'q \<Rightarrow> nat"
    and cap :: nat
  assumes cap_pos: "0 < cap"
    and push_room: "length (contents q) < cap \<Longrightarrow> contents (push x q) = contents q @ [x] \<and> lost (push x q) = lost q"
    and push_full: "cap \<le> length (contents q) \<Longrightarrow>
      contents (push x q) = tl (contents q) @ [x] \<and> lost (push x q) = Suc (lost q)"
begin

lemma push_bound: "length (contents q) \<le> cap \<Longrightarrow> length (contents (push x q)) \<le> cap"
  using cap_pos push_room [of q x] push_full [of q x] by (cases "length (contents q) < cap") auto

lemma push_all:
  assumes "length (contents q) \<le> cap"
  shows "contents (fold push xs q) = drop (length (contents q @ xs) - cap) (contents q @ xs) \<and>
    lost (fold push xs q) = lost q + (length (contents q @ xs) - cap)"
  using assms
proof (induction xs arbitrary: q)
  case (Cons x xs)
  show ?case
  proof (cases "length (contents q) < cap")
    case True
    with Cons.IH [of "push x q"] push_room [OF True, of x] show ?thesis by simp
  next
    case False
    then have full: "length (contents q) = cap" using Cons.prems by simp
    then obtain y ys where y: "contents q = y # ys" using cap_pos by (cases "contents q") auto
    have "contents (push x q) = ys @ [x]" "lost (push x q) = Suc (lost q)"
      using push_full [of q x] full y by simp_all
    moreover have "cap = Suc (length ys)" using full y by simp
    ultimately show ?thesis using Cons.IH [of "push x q"] y by (simp add: Suc_diff_le)
  qed
qed simp

end

interpretation device_queue: bounded_fifo enqueue br_queued_device_commands br_dropped_device_commands
  MAX_QUEUED_DEVICE_COMMANDS
  by unfold_locales (auto simp: enqueue_def Let_def MAX_QUEUED_DEVICE_COMMANDS_def)

subsection \<open>Commands while mochad is not ready\<close>

definition can_report :: "bridge \<Rightarrow> bool" where
  "can_report b \<longleftrightarrow> br_mqtt_connected b \<longrightarrow> (\<exists>t. topic_status (cf_mqtt_base_topic (br_config b)) = Inr t)"

lemma publish_current_status_ok:
  assumes "topic_status (cf_mqtt_base_topic (br_config b)) = Inr t"
  shows "\<exists>m. publish_current_status b = (Inr (), b\<lparr>br_published := br_published b @ [m]\<rparr>)"
proof -
  let ?r = "publish_status (cf_mqtt_base_topic (br_config b)) (JObj (bridge_status_payload None None None b)) True 0"
  obtain m where "?r = Inr m" using assms by (simp add: publish_status_def)
  then show ?thesis
    by (intro exI [of _ m]) (simp add: publish_current_status_def bread_def mqtt_out_def bbind_def bresult_def bmodify_def)
qed

lemma queue_device_command_effect:
  assumes "can_report b"
  shows "\<exists>ms'. queue_device_command x b = (Inr (), (enqueue x b)\<lparr>br_published := br_published b @ ms'\<rparr>)"
proof -
  have e: "br_published (enqueue x b) = br_published b" "br_mqtt_connected (enqueue x b) = br_mqtt_connected b"
    "br_config (enqueue x b) = br_config b"
    by (simp_all add: enqueue_def Let_def)
  have q: "queue_device_command x b = bwhen (br_mqtt_connected b) publish_current_status (enqueue x b)"
    by (simp add: queue_device_command_def bseq_def bbind_def bmodify_def bread_def e)
  show ?thesis
  proof (cases "br_mqtt_connected b")
    case True
    with assms obtain t where "topic_status (cf_mqtt_base_topic (br_config (enqueue x b))) = Inr t"
      by (auto simp: can_report_def e)
    from publish_current_status_ok [OF this] True show ?thesis by (auto simp: q bwhen_def e)
  next
    case False
    then have "queue_device_command x b = (Inr (), (enqueue x b)\<lparr>br_published := br_published b @ []\<rparr>)"
      by (simp add: q bwhen_def bret_def e [symmetric])
    then show ?thesis by blast
  qed
qed

lemma enqueue_fields:
  "br_sent (enqueue x b) = br_sent b" "br_mochad_connected (enqueue x b) = br_mochad_connected b"
  "br_diagnostics (enqueue x b) = br_diagnostics b" "br_mqtt_connected (enqueue x b) = br_mqtt_connected b"
  "br_config (enqueue x b) = br_config b"
  by (simp_all add: enqueue_def Let_def)

text \<open>
  C9. While mochad is disconnected or reports its USB controller as not ready, device commands are kept, in
  the order they came: however many there are, the queue then holds the last hundred of all that waited, the
  counter of dropped commands grows by exactly the number of the others, none of them is written to
  mochad, and no error stops the remaining actions.
\<close>

theorem commands_queued_while_not_ready:
  assumes "device_command_queue_reason b \<noteq> None" "length (br_queued_device_commands b) \<le> 100"
    and "br_mqtt_connected b \<longrightarrow> (\<exists>t. topic_status (cf_mqtt_base_topic (br_config b)) = Inr t)"
  shows "let all = br_queued_device_commands b @ cmds;
             (r, b') = execute_actions (map (\<lambda>(a, c). SendDeviceCommandAction a c) cmds) b in
    r = Inr () \<and> br_queued_device_commands b' = drop (length all - 100) all \<and>
    br_dropped_device_commands b' = br_dropped_device_commands b + (length all - 100) \<and>
    br_sent b' = br_sent b"
proof -
  have run: "\<exists>b'. execute_actions (map (\<lambda>(a, c). SendDeviceCommandAction a c) cmds) b = (Inr (), b') \<and>
      br_queued_device_commands b' = br_queued_device_commands (fold enqueue cmds b0) \<and>
      br_dropped_device_commands b' = br_dropped_device_commands (fold enqueue cmds b0) \<and> br_sent b' = br_sent b"
    if "device_command_queue_reason b \<noteq> None" "can_report b"
      "br_queued_device_commands b = br_queued_device_commands b0" "br_dropped_device_commands b = br_dropped_device_commands b0" for b0 b
    using that
  proof (induction cmds arbitrary: b b0)
    case (Cons x cmds)
    obtain a c where x: "x = (a, c)" by (cases x)
    obtain ms' where q: "queue_device_command x b = (Inr (), (enqueue x b)\<lparr>br_published := br_published b @ ms'\<rparr>)"
      using queue_device_command_effect [OF Cons.prems(2)] by blast
    let ?b = "(enqueue x b)\<lparr>br_published := br_published b @ ms'\<rparr>"
    have "execute_action (SendDeviceCommandAction a c) b = (Inr (), ?b)"
      using Cons.prems(1) q x by (auto simp: execute_action_def bread_def)
    moreover have "device_command_queue_reason ?b \<noteq> None" "can_report ?b"
      using Cons.prems(1,2) by (simp_all add: device_command_queue_reason_def can_report_def enqueue_fields)
    moreover have "br_queued_device_commands ?b = br_queued_device_commands (enqueue x b0)"
        "br_dropped_device_commands ?b = br_dropped_device_commands (enqueue x b0)"
      using Cons.prems(3,4) by (simp_all add: enqueue_def Let_def)
    ultimately show ?case
      using Cons.IH [of ?b "enqueue x b0"] x by (auto simp: enqueue_fields)
  qed simp
  from run [OF assms(1), of b] assms(3) device_queue.push_all [of b cmds] assms(2) show ?thesis
    by (auto simp: can_report_def MAX_QUEUED_DEVICE_COMMANDS_def)
qed

subsection \<open>The flush\<close>

text \<open>The lines a command becomes: as many as the device's configuration asks for.\<close>

definition device_of :: "bridge \<Rightarrow> address \<Rightarrow> device_config" where
  "device_of b a = (case map_of (br_devices b) (canon a) of
     Some d \<Rightarrow> d | None \<Rightarrow> default_device (canon a) (canon a))"

definition radio_lines :: "bridge \<Rightarrow> address \<times> command \<Rightarrow> string list" where
  "radio_lines b = (\<lambda>(a, c).
     replicate (nat (if c \<in> {ON, OFF} then dc_command_repeats (device_of b a) else 1))
       (''rf '' @ a @ '' '' @ lower (command_name c) @ [CHR 0x0A]))"

definition queueable :: "address \<times> command \<Rightarrow> bool" where
  "queueable = (\<lambda>(a, c). valid_address a \<and> c \<in> {ON, OFF, DIM, BRIGHT})"

lemma send_repeated:
  assumes "br_mochad_connected b" "rstrip_by is_crlf l = l"
  shows "\<exists>k r fs. bfor (\<lambda>_. mochad_send l) (replicate n ()) b =
      (r, b\<lparr>br_sent := br_sent b @ replicate k (l @ [CHR 0x0A]), br_send_faults := fs\<rparr>) \<and> set fs \<subseteq> set (br_send_faults b) \<and>
    (r = Inr () \<and> k = n \<or> k < n \<and> (\<exists>e. r = Inl (OSError e) \<and> Some e \<in> set (br_send_faults b)))"
  using assms(1)
proof (induction n arbitrary: b)
  case 0
  show ?case by (intro exI [of _ 0] exI [of _ "Inr ()"] exI [of _ "br_send_faults b"]) (simp add: bret_def)
next
  case (Suc n)
  let ?sent = "b\<lparr>br_sent := br_sent b @ [l @ [CHR 0x0A]], br_send_faults := tl (br_send_faults b)\<rparr>"
  show ?case
  proof (cases "\<exists>e rest. br_send_faults b = Some e # rest")
    case True
    then show ?thesis using Suc.prems
      by (auto simp: bseq_def bbind_def mochad_send_def send_line_def intro!: exI [of _ 0])
  next
    case False
    then have "mochad_send l b = (Inr (), ?sent)"
      using Suc.prems assms(2) by (auto simp: mochad_send_def send_line_def split: list.splits option.splits)
    moreover obtain k r fs where rest: "bfor (\<lambda>_. mochad_send l) (replicate n ()) ?sent =
        (r, ?sent\<lparr>br_sent := br_sent ?sent @ replicate k (l @ [CHR 0x0A]), br_send_faults := fs\<rparr>)"
        "set fs \<subseteq> set (tl (br_send_faults b))"
        "r = Inr () \<and> k = n \<or> k < n \<and> (\<exists>e. r = Inl (OSError e) \<and> Some e \<in> set (tl (br_send_faults b)))"
      using Suc.IH [of ?sent] Suc.prems by auto
    moreover have "set (tl (br_send_faults b)) \<subseteq> set (br_send_faults b)" by (simp add: set_mono_suffix suffix_tl)
    ultimately show ?thesis
      by (intro exI [of _ "Suc k"] exI [of _ r] exI [of _ fs]) (auto simp: bseq_def bbind_def)
  qed
qed

lemma device_config_effect:
  "\<exists>ds. bridge_device_config a b = (Inr (device_of b a), b\<lparr>br_devices := ds\<rparr>) \<and>
     (\<forall>a. device_of (b\<lparr>br_devices := ds\<rparr>) a = device_of b a)"
proof (cases "map_of (br_devices b) (canon a)")
  case None
  show ?thesis
    by (rule exI [of _ "AList.update (canon a) (default_device (canon a) (canon a)) (br_devices b)"])
       (use None in \<open>auto simp: bridge_device_config_def device_of_def bread_def Let_def bseq_def bbind_def bmodify_def
          bret_def update_conv' split: option.splits\<close>)
next
  case (Some d)
  show ?thesis
    by (rule exI [of _ "br_devices b"]) (use Some in \<open>auto simp: bridge_device_config_def device_of_def bread_def Let_def bret_def\<close>)
qed

lemma send_device_command_effect:
  assumes "br_mochad_connected b" "queueable x"
  shows "\<exists>k r fs ds. send_device_command x b =
      (r, b\<lparr>br_devices := ds, br_sent := br_sent b @ take k (radio_lines b x), br_send_faults := fs\<rparr>) \<and>
    (\<forall>a. device_of (b\<lparr>br_devices := ds\<rparr>) a = device_of b a) \<and> set fs \<subseteq> set (br_send_faults b) \<and>
    (r = Inr () \<and> length (radio_lines b x) \<le> k \<or>
     k < length (radio_lines b x) \<and> (\<exists>e. r = Inl (OSError e) \<and> Some e \<in> set (br_send_faults b)))"
proof -
  obtain a c where x: "x = (a, c)" by (cases x)
  let ?l = "''rf '' @ a @ '' '' @ lower (command_name c)"
  have a: "canon a = a" and enc: "encode_rf_command a c = Inr ?l"
    using assms(2) valid_address_canon by (auto simp: x queueable_def encode_rf_command_spec encodable_def)
  have plain: "rstrip_by is_crlf ?l = ?l"
    using enc wire_line_plain [of "\<lambda>_. True"] by (auto simp: wire_line_def)
  obtain ds where cfg: "bridge_device_config a b = (Inr (device_of b a), b\<lparr>br_devices := ds\<rparr>)"
      "\<forall>a. device_of (b\<lparr>br_devices := ds\<rparr>) a = device_of b a"
    using device_config_effect by blast
  define n where "n = nat (if c \<in> REPEATABLE_COMMANDS then dc_command_repeats (device_of b a) else 1)"
  have lines: "radio_lines b x = replicate n (?l @ [CHR 0x0A])"
    by (simp add: radio_lines_def x REPEATABLE_COMMANDS_def n_def)
  have sent: "send_device_command x b = bfor (\<lambda>_. mochad_send ?l) (replicate n ()) (b\<lparr>br_devices := ds\<rparr>)"
    unfolding send_device_command_def x Let_def prod.case by (simp add: bbind_def cfg(1) bresult_def enc n_def)
  obtain k r fs where rep: "bfor (\<lambda>_. mochad_send ?l) (replicate n ()) (b\<lparr>br_devices := ds\<rparr>) =
      (r, (b\<lparr>br_devices := ds\<rparr>)\<lparr>br_sent := br_sent (b\<lparr>br_devices := ds\<rparr>) @ replicate k (?l @ [CHR 0x0A]), br_send_faults := fs\<rparr>)"
      "set fs \<subseteq> set (br_send_faults (b\<lparr>br_devices := ds\<rparr>))"
      "r = Inr () \<and> k = n \<or> k < n \<and> (\<exists>e. r = Inl (OSError e) \<and> Some e \<in> set (br_send_faults (b\<lparr>br_devices := ds\<rparr>)))"
  proof -
    have "br_mochad_connected (b\<lparr>br_devices := ds\<rparr>)" using assms(1) by simp
    from send_repeated [OF this plain, of n] show ?thesis by (elim exE conjE) (rule that)
  qed
  have part: "take k (radio_lines b x) = replicate k (?l @ [CHR 0x0A])" and len: "length (radio_lines b x) = n"
    using rep(3) unfolding lines by (auto simp: take_replicate min_def simp del: append_assoc)
  show ?thesis
  proof (intro exI conjI)
    show "send_device_command x b =
        (r, b\<lparr>br_devices := ds, br_sent := br_sent b @ take k (radio_lines b x), br_send_faults := fs\<rparr>)"
      unfolding sent rep(1) part by simp
    show "\<forall>a. device_of (b\<lparr>br_devices := ds\<rparr>) a = device_of b a" by (rule cfg(2))
    show "set fs \<subseteq> set (br_send_faults b)" using rep(2) by simp
    show "r = Inr () \<and> length (radio_lines b x) \<le> k \<or>
     k < length (radio_lines b x) \<and> (\<exists>e. r = Inl (OSError e) \<and> Some e \<in> set (br_send_faults b))"
      using rep(3) unfolding len by auto
  qed
qed

lemma radio_lines_cong: "(\<And>a. device_of b' a = device_of b a) \<Longrightarrow> radio_lines b' = radio_lines b"
  by (rule ext) (auto simp: radio_lines_def)

lemma flush_loop_effect:
  assumes "br_mochad_connected b" "list_all queueable (br_queued_device_commands b)"
  shows "\<exists>gone rest part fs ds. br_queued_device_commands b = gone @ rest \<and>
    flush_loop (length (br_queued_device_commands b)) b = (Inr (rest = []),
      b\<lparr>br_devices := ds, br_queued_device_commands := rest,
        br_sent := br_sent b @ concat (map (radio_lines b) gone) @ part, br_send_faults := fs\<rparr>) \<and>
    (if rest = [] then part = []
     else (\<exists>k < length (radio_lines b (hd rest)). part = take k (radio_lines b (hd rest))) \<and>
       (\<exists>e. Some e \<in> set (br_send_faults b)))"
  using assms
proof (induction "br_queued_device_commands b" arbitrary: b)
  case Nil
  have "flush_loop (length (br_queued_device_commands b)) b = (Inr ([] = []), b\<lparr>br_devices := br_devices b,
      br_queued_device_commands := [], br_sent := br_sent b @ concat (map (radio_lines b) []) @ [],
      br_send_faults := br_send_faults b\<rparr>)"
    using Nil.hyps [symmetric] by simp
  moreover have "br_queued_device_commands b = [] @ []" using Nil.hyps by simp
  ultimately show ?case by (intro exI conjI) (assumption+, simp)
next
  case (Cons x q)
  let ?b = "b\<lparr>br_queued_device_commands := q\<rparr>"
  have q: "br_queued_device_commands b = x # q" using Cons.hyps(2) by simp
  obtain k r fs ds where send: "send_device_command x ?b =
      (r, ?b\<lparr>br_devices := ds, br_sent := br_sent ?b @ take k (radio_lines ?b x), br_send_faults := fs\<rparr>)"
    "\<forall>a. device_of (?b\<lparr>br_devices := ds\<rparr>) a = device_of ?b a" "set fs \<subseteq> set (br_send_faults ?b)"
    "r = Inr () \<and> length (radio_lines ?b x) \<le> k \<or>
     k < length (radio_lines ?b x) \<and> (\<exists>e. r = Inl (OSError e) \<and> Some e \<in> set (br_send_faults ?b))"
  proof -
    have "br_mochad_connected ?b" "queueable x" using Cons.prems q by simp_all
    from send_device_command_effect [OF this] show ?thesis by (elim exE conjE) (rule that)
  qed
  have lines: "radio_lines ?b = radio_lines b" by (rule radio_lines_cong) (simp add: device_of_def)
  let ?b' = "?b\<lparr>br_devices := ds, br_sent := br_sent b @ take k (radio_lines b x), br_send_faults := fs\<rparr>"
  from send(4) show ?case
  proof
    assume ok: "r = Inr () \<and> length (radio_lines ?b x) \<le> k"
    have lines': "radio_lines ?b' = radio_lines b"
      using send(2) by (intro radio_lines_cong) (simp add: device_of_def)
    have b': "q = br_queued_device_commands ?b'" "br_mochad_connected ?b'" "list_all queueable (br_queued_device_commands ?b')"
      using Cons.prems q by simp_all
    obtain gone rest part fs' ds' where ih: "br_queued_device_commands ?b' = gone @ rest"
      "flush_loop (length (br_queued_device_commands ?b')) ?b' = (Inr (rest = []),
         ?b'\<lparr>br_devices := ds', br_queued_device_commands := rest,
           br_sent := br_sent ?b' @ concat (map (radio_lines ?b') gone) @ part, br_send_faults := fs'\<rparr>)"
      "if rest = [] then part = []
       else (\<exists>k < length (radio_lines ?b' (hd rest)). part = take k (radio_lines ?b' (hd rest))) \<and>
         (\<exists>e. Some e \<in> set (br_send_faults ?b'))"
      using Cons.hyps(1) [OF b'] by (elim exE conjE) (rule that)
    have "flush_loop (length (br_queued_device_commands b)) b = (Inr (rest = []),
        b\<lparr>br_devices := ds', br_queued_device_commands := rest,
          br_sent := br_sent b @ concat (map (radio_lines b) (x # gone)) @ part, br_send_faults := fs'\<rparr>)"
      using ih(2) ok unfolding q lines lines' by (simp add: q send(1) lines)
    moreover have "br_queued_device_commands b = (x # gone) @ rest" using ih(1) q by simp
    moreover have "if rest = [] then part = []
       else (\<exists>k < length (radio_lines b (hd rest)). part = take k (radio_lines b (hd rest))) \<and>
         (\<exists>e. Some e \<in> set (br_send_faults b))"
      using ih(3) send(3) unfolding lines' by (auto split: if_splits)
    ultimately show ?thesis by (intro exI conjI)
  next
    assume bad: "k < length (radio_lines ?b x) \<and> (\<exists>e. r = Inl (OSError e) \<and> Some e \<in> set (br_send_faults ?b))"
    show ?thesis
      by (intro exI [of _ "[]"] exI [of _ "x # q"] exI [of _ "take k (radio_lines b x)"] exI [of _ fs] exI [of _ ds] conjI)
         (use q send(1) bad in \<open>auto simp: lines\<close>)
  qed
qed

text \<open>
  C8. When mochad is ready, a flush writes the waiting commands in the order they were queued, each with the
  repeats of its device, and keeps the others: the queue afterwards is a suffix of the queue before, and
  the lines written are those of the commands that left it, followed, if a write failed, by fewer than all of
  the repeats of the command that stayed in front.  Without failing writes nothing stays: every waiting command is sent
  exactly once.
\<close>

theorem flush_in_order:
  assumes "device_command_queue_reason b = None"
    and "\<forall>(a, c) \<in> set (br_queued_device_commands b). valid_address a \<and> c \<in> {ON, OFF, DIM, BRIGHT}"
    and "br_mqtt_connected b \<longrightarrow> (\<exists>t. topic_status (cf_mqtt_base_topic (br_config b)) = Inr t)"
  shows "case flush_queued_device_commands b of (r, b') \<Rightarrow> r = Inr () \<and>
    (\<exists>gone part. br_queued_device_commands b = gone @ br_queued_device_commands b' \<and>
       br_sent b' = br_sent b @ concat (map (radio_lines b) gone) @ part \<and>
       (if br_queued_device_commands b' = [] then part = []
        else \<exists>k < length (radio_lines b (hd (br_queued_device_commands b'))).
          part = take k (radio_lines b (hd (br_queued_device_commands b'))))) \<and>
    ((\<forall>e. Some e \<notin> set (br_send_faults b)) \<longrightarrow> br_queued_device_commands b' = [])"
proof (cases "br_queued_device_commands b = []")
  case True
  then show ?thesis by (simp add: flush_queued_device_commands_def bread_def bret_def)
next
  case False
  have conn: "br_mochad_connected b" using assms(1) by (auto simp: device_command_queue_reason_def Let_def split: if_splits)
  have able: "list_all queueable (br_queued_device_commands b)" using assms(2) by (auto simp: list_all_iff queueable_def)
  obtain gone rest part fs ds where f: "br_queued_device_commands b = gone @ rest"
    "flush_loop (length (br_queued_device_commands b)) b = (Inr (rest = []),
      b\<lparr>br_devices := ds, br_queued_device_commands := rest,
        br_sent := br_sent b @ concat (map (radio_lines b) gone) @ part, br_send_faults := fs\<rparr>)"
    "if rest = [] then part = []
     else (\<exists>k < length (radio_lines b (hd rest)). part = take k (radio_lines b (hd rest))) \<and> (\<exists>e. Some e \<in> set (br_send_faults b))"
    using flush_loop_effect [OF conn able] by (elim exE conjE) (rule that)
  let ?b = "b\<lparr>br_devices := ds, br_queued_device_commands := rest,
      br_sent := br_sent b @ concat (map (radio_lines b) gone) @ part, br_send_faults := fs\<rparr>"
  have flush: "flush_queued_device_commands b =
      bwhen (rest = []) (bread (\<lambda>b. bwhen (br_mqtt_connected b) publish_current_status)) ?b"
    using False assms(1) f(2) by (simp add: flush_queued_device_commands_def bread_def bbind_def)
  have "\<exists>pub. flush_queued_device_commands b = (Inr (), ?b\<lparr>br_published := pub\<rparr>)"
  proof (cases "rest = [] \<and> br_mqtt_connected b")
    case True
    with assms(3) publish_current_status_ok [of ?b] show ?thesis by (auto simp: flush bwhen_def bread_def)
  next
    case False
    then have "flush_queued_device_commands b = (Inr (), ?b\<lparr>br_published := br_published ?b\<rparr>)"
      by (auto simp: flush bwhen_def bread_def bret_def)
    then show ?thesis by blast
  qed
  then obtain pub where e: "flush_queued_device_commands b = (Inr (), ?b\<lparr>br_published := pub\<rparr>)" by blast
  show ?thesis
    unfolding e using f(1,3) by (auto intro!: exI [of _ gone] exI [of _ part] split: if_splits)
qed

theorem commands_queued_while_not_ready_witness:
  "\<exists>c. load_config demo_env demo_files = Inr c \<and>
     (let (r, b) = execute_actions (map (\<lambda>(a, c). SendDeviceCommandAction a c) (replicate 102 (''A1'', ON)))
        (new_bridge c None demo_env demo_files) in
      r = Inr () \<and> length (br_queued_device_commands b) = 100 \<and> br_dropped_device_commands b = 2 \<and> br_sent b = [])"
proof -
  obtain c where c: "load_config demo_env demo_files = Inr c" by (rule demo_reached)
  let ?b = "new_bridge c None demo_env demo_files"
  have "device_command_queue_reason ?b \<noteq> None" "length (br_queued_device_commands ?b) \<le> 100"
    "br_mqtt_connected ?b \<longrightarrow> (\<exists>t. topic_status (cf_mqtt_base_topic (br_config ?b)) = Inr t)"
    by (simp_all add: device_command_queue_reason_def new_bridge_fields)
  from commands_queued_while_not_ready [OF this, of "replicate 102 (''A1'', ON)"] c show ?thesis
    by (auto simp: new_bridge_fields Let_def case_prod_unfold)
qed

theorem flush_in_order_witness:
  "\<exists>c. load_config demo_env demo_files = Inr c \<and>
     (let b = run_bridge demo_run (new_bridge c None demo_env demo_files) in
      br_queued_device_commands b = [(''A1'', ON)] \<and>
      (case flush_queued_device_commands b of (r, b') \<Rightarrow>
         br_queued_device_commands b' = [] \<and> br_sent b' = br_sent b @ radio_lines b (''A1'', ON)))"
proof -
  obtain c where c: "load_config demo_env demo_files = Inr c"
    "br_queued_device_commands (run_bridge demo_run (new_bridge c None demo_env demo_files)) = [(''A1'', ON)]"
    "device_command_queue_reason (run_bridge demo_run (new_bridge c None demo_env demo_files)) = None"
    "\<not> br_mqtt_connected (run_bridge demo_run (new_bridge c None demo_env demo_files))"
    "br_send_faults (run_bridge demo_run (new_bridge c None demo_env demo_files)) = []"
    by (rule demo_reached)
  let ?b = "run_bridge demo_run (new_bridge c None demo_env demo_files)"
  have "valid_address ''A1''" by code_simp
  then have "\<forall>(a, c) \<in> set (br_queued_device_commands ?b). valid_address a \<and> c \<in> {ON, OFF, DIM, BRIGHT}"
    by (simp add: c(2))
  note flush = flush_in_order [OF c(3) this, unfolded case_prod_unfold]
  then have none: "br_queued_device_commands (snd (flush_queued_device_commands ?b)) = []" using c(4,5) by simp
  with flush c(2,4) have "br_sent (snd (flush_queued_device_commands ?b)) = br_sent ?b @ concat (map (radio_lines ?b) [(''A1'', ON)])"
    by auto
  with none c(1,2) show ?thesis by (auto simp: case_prod_unfold Let_def)
qed

end
