(* ===== verification/BridgeSync.thy ===== *)
theory BridgeSync
  imports BridgeQueue
begin

section \<open>What the broker shows\<close>

text \<open>
  The broker keeps, per topic, the last retained message.  While MQTT is connected the bridge keeps it
  in step with the state manager: the state topic of every device shows the state the manager knows,
  and the availability topic whether both connections are up.
\<close>

subsection \<open>Retained messages\<close>

text \<open>An empty retained message clears its topic.\<close>

definition retain_message :: "mqtt_message \<Rightarrow> (string \<Rightarrow> string option) \<Rightarrow> string \<Rightarrow> string option" where
  "retain_message m v =
     (if \<not> mm_retain m then v
      else v(mm_topic m := (if mm_payload m = [] then None else Some (mm_payload m))))"

definition retained :: "mqtt_message list \<Rightarrow> string \<Rightarrow> string option" where
  "retained msgs = fold retain_message msgs Map.empty"

lemma retained_snoc: "retained (msgs @ [m]) = retain_message m (retained msgs)"
  by (simp add: retained_def)

subsection \<open>Methods that succeed\<close>

definition works :: "(bridge \<Rightarrow> bool) \<Rightarrow> 'a meth \<Rightarrow> bool" where
  "works P m \<longleftrightarrow> (\<forall>b. P b \<longrightarrow> (\<exists>r b'. m b = (Inr r, b') \<and> P b'))"

lemma worksD: "works P m \<Longrightarrow> P b \<Longrightarrow> \<exists>r b'. m b = (Inr r, b') \<and> P b'"
  by (simp add: works_def)

locale total_property =
  fixes P :: "bridge \<Rightarrow> bool"
begin

lemma works_bret: "works P (bret a)"
  by (simp add: works_def bret_def)

lemma works_bresult: "works P (bresult (Inr a))"
  by (simp add: works_def bresult_def)

lemma works_bbind: "works P m \<Longrightarrow> (\<And>a. works P (f a)) \<Longrightarrow> works P (bbind m f)"
  by (fastforce simp: works_def bbind_def)

lemma works_bseq: "works P m \<Longrightarrow> works P n \<Longrightarrow> works P (bseq m n)"
  by (simp add: bseq_def works_bbind)

lemma works_bread: "(\<And>b. P b \<Longrightarrow> works P (f b)) \<Longrightarrow> works P (bread f)"
  by (simp add: works_def bread_def)

lemma works_bmodify: "(\<And>b. P b \<Longrightarrow> P (f b)) \<Longrightarrow> works P (bmodify f)"
  by (simp add: works_def bmodify_def)

lemma works_bwhen: "(c \<Longrightarrow> works P m) \<Longrightarrow> works P (bwhen c m)"
  by (simp add: bwhen_def works_bret)

lemma works_bfor: "(\<And>x. x \<in> set xs \<Longrightarrow> works P (f x)) \<Longrightarrow> works P (bfor f xs)"
  by (induction xs) (simp_all add: works_bret works_bseq)

lemma works_bcatch_os: "works P m \<Longrightarrow> works P (bcatch_os m h)"
  by (fastforce simp: works_def bcatch_os_def)

lemmas works_control = works_bret works_bbind works_bseq works_bread works_bwhen works_bfor works_bcatch_os

end

subsection \<open>The invariant\<close>

text \<open>
  \<open>settled\<close> gathers what makes every method succeed: usable topics, a table of devices that can be
  announced, no failing writes, queued commands that can be encoded.  The default configuration
  neither clears stale topics nor allows the maintenance commands.
\<close>

definition discoverable :: "device_config \<Rightarrow> bool" where
  "discoverable d \<longleftrightarrow> valid_address (canon (dc_address d)) \<and> strip (dc_name d) \<noteq> [] \<and>
     (dc_stateful d \<or> dc_entity_type d = CHIME)"

definition settled :: "string \<Rightarrow> string \<Rightarrow> bridge \<Rightarrow> bool" where
  "settled base p b \<longleftrightarrow>
     clean_segment (cf_mqtt_base_topic (br_config b)) = Inr base \<and>
     clean_segment (dg_base_topic (br_discovery b)) = Inr base \<and>
     clean_segment (dg_discovery_prefix (br_discovery b)) = Inr p \<and> CHR ''/'' \<notin> set p \<and>
     \<not> cf_discovery_cleanup (br_config b) \<and> \<not> cf_enable_maintenance_buttons (br_config b) \<and>
     list_all (discoverable \<circ> snd) (br_devices b) \<and> list_all queueable (br_queued_device_commands b)"

definition state_topic :: "string \<Rightarrow> address \<Rightarrow> string" where
  "state_topic base a = topic_join [base, a, ''state'']"

definition availability_topic :: "string \<Rightarrow> string" where
  "availability_topic base = topic_join [base, ''bridge'', ''availability'']"

definition online_text :: "bool \<Rightarrow> string" where
  "online_text online = (if online then ''online'' else ''offline'')"

text \<open>\<open>v\<close> and \<open>av\<close> are the states and the availability the broker is to show.\<close>

definition shows_view :: "string \<Rightarrow> (address \<Rightarrow> command option) \<Rightarrow> bool option \<Rightarrow> mqtt_message list \<Rightarrow> bool" where
  "shows_view base v av msgs \<longleftrightarrow>
     (\<forall>a c. v a = Some c \<longrightarrow> retained msgs (state_topic base a) = Some (command_name c)) \<and>
     (\<forall>online. av = Some online \<longrightarrow> retained msgs (availability_topic base) = Some (online_text online))"

definition steady :: "string \<Rightarrow> string \<Rightarrow> state_manager \<Rightarrow> protocol_parser \<Rightarrow> bool \<Rightarrow>
    (address \<Rightarrow> command option) \<Rightarrow> bool option \<Rightarrow> bridge \<Rightarrow> bool" where
  "steady base p m pp up v av b \<longleftrightarrow> settled base p b \<and> br_mqtt_connected b \<and> br_mochad_connected b = up \<and>
     (\<forall>e. Some e \<notin> set (br_send_faults b)) \<and> br_state b = m \<and> br_parser b = pp \<and> shows_view base v av (br_published b)"

interpretation steady: total_property "steady base p m pp up v av" for base p m pp up v av .

subsection \<open>Messages that leave the view alone\<close>

definition last_segment :: "string \<Rightarrow> string" where
  "last_segment t = rev (takeWhile (\<lambda>c. c \<noteq> CHR ''/'') (rev t))"

definition bystander :: "string \<Rightarrow> bool" where
  "bystander t \<longleftrightarrow> last_segment t \<noteq> ''state'' \<and> last_segment t \<noteq> ''availability''"

lemma last_segment_join:
  assumes "CHR ''/'' \<notin> set z"
  shows "last_segment (topic_join [x, y, z]) = z" "last_segment (topic_join [w, x, y, z]) = z"
proof -
  have "last_segment (pre @ CHR ''/'' # z) = z" for pre
    unfolding last_segment_def using assms by (simp add: takeWhile_append)
  from this [of "x @ CHR ''/'' # y"] this [of "w @ CHR ''/'' # x @ CHR ''/'' # y"]
  show "last_segment (topic_join [x, y, z]) = z" "last_segment (topic_join [w, x, y, z]) = z"
    by (simp_all add: topic_join_def)
qed

lemma last_segments [simp]:
  "last_segment (topic_join [x, y, ''status'']) = ''status''" "last_segment (topic_join [x, y, ''response'']) = ''response''"
  "last_segment (topic_join [x, y, ''event'']) = ''event''" "last_segment (topic_join [x, y, ''attributes'']) = ''attributes''"
  "last_segment (topic_join [w, x, y, ''config'']) = ''config''" "last_segment (state_topic base a) = ''state''"
  "last_segment (availability_topic base) = ''availability''"
  by (simp_all add: last_segment_join state_topic_def availability_topic_def)

lemma bystander_topics [simp]:
  "bystander (topic_join [x, y, ''status''])" "bystander (topic_join [x, y, ''response''])"
  "bystander (topic_join [x, y, ''event''])" "bystander (topic_join [x, y, ''attributes''])"
  "bystander (topic_join [w, x, y, ''config''])"
  by (simp_all add: bystander_def)

lemma bystander_ne: "bystander t \<Longrightarrow> state_topic base a \<noteq> t \<and> availability_topic base \<noteq> t"
  unfolding bystander_def by (metis last_segments(6,7))

lemma shows_bystander:
  assumes "shows_view base v av msgs" "bystander (mm_topic m)"
  shows "shows_view base v av (msgs @ [m])"
proof -
  note ne = bystander_ne [OF assms(2), of base]
  have "retained (msgs @ [m]) (state_topic base a) = retained msgs (state_topic base a)" for a
    using ne [of a] by (simp add: retained_snoc retain_message_def)
  moreover have "retained (msgs @ [m]) (availability_topic base) = retained msgs (availability_topic base)"
    using ne by (simp add: retained_snoc retain_message_def)
  ultimately show ?thesis using assms(1) by (simp add: shows_view_def)
qed

lemma state_topic_inj [simp]: "state_topic base a = state_topic base a' \<longleftrightarrow> a = a'"
  by (auto simp: state_topic_def topic_join_def)

lemma state_not_availability [simp]: "state_topic base a \<noteq> availability_topic base" "availability_topic base \<noteq> state_topic base a"
proof -
  have "last_segment (state_topic base a) \<noteq> last_segment (availability_topic base)" by simp
  then show "state_topic base a \<noteq> availability_topic base" "availability_topic base \<noteq> state_topic base a" by metis+
qed

lemma shows_state:
  assumes "shows_view base v av msgs"
  shows "shows_view base (v(a := Some c)) av (msgs @ [mqtt_publish (state_topic base a) (JStr (command_name c)) True q])"
    (is "shows_view _ _ _ ?msgs")
proof -
  have "command_name c \<noteq> []" by (cases c) simp_all
  then have "retained ?msgs (state_topic base x) = (if x = a then Some (command_name c) else retained msgs (state_topic base x))"
      "retained ?msgs (availability_topic base) = retained msgs (availability_topic base)" for x
    by (simp_all add: retained_snoc retain_message_def mqtt_publish_def serialize_payload_def)
  with assms show ?thesis by (auto simp: shows_view_def)
qed

lemma shows_availability:
  assumes "shows_view base v av msgs"
  shows "shows_view base v (Some online)
    (msgs @ [mqtt_publish (availability_topic base) (JStr (online_text online)) True q])" (is "shows_view _ _ _ ?msgs")
proof -
  have "online_text online \<noteq> []" by (simp add: online_text_def)
  then have "retained ?msgs (state_topic base x) = retained msgs (state_topic base x)"
      "retained ?msgs (availability_topic base) = Some (online_text online)" for x
    by (simp_all add: retained_snoc retain_message_def mqtt_publish_def serialize_payload_def)
  with assms show ?thesis by (simp add: shows_view_def)
qed

subsection \<open>The effects\<close>

lemma topics_ok:
  assumes "clean_segment B = Inr base"
  shows "topic_status B = Inr (topic_join [base, ''bridge'', ''status''])"
    "topic_availability B = Inr (availability_topic base)"
    "topic_bridge_response B = Inr (topic_join [base, ''bridge'', ''response''])"
    "valid_address a \<Longrightarrow> topic_state a B = Inr (state_topic base a)"
    "valid_address (canon a) \<Longrightarrow> topic_event a B = Inr (topic_join [base, canon a, ''event''])"
    "valid_address (canon a) \<Longrightarrow> topic_attributes a B = Inr (topic_join [base, canon a, ''attributes''])"
proof -
  have seg: "clean_segment ''status'' = Inr ''status''" "clean_segment ''availability'' = Inr ''availability''"
    "clean_segment ''response'' = Inr ''response''" "clean_segment ''event'' = Inr ''event''"
    "clean_segment ''attributes'' = Inr ''attributes''" "clean_segment ''state'' = Inr ''state''" by code_simp+
  show "topic_status B = Inr (topic_join [base, ''bridge'', ''status''])"
    "topic_availability B = Inr (availability_topic base)"
    "topic_bridge_response B = Inr (topic_join [base, ''bridge'', ''response''])"
    by (simp_all add: topic_status_def topic_availability_def topic_bridge_response_def bridge_topic_def assms seg availability_topic_def)
  show "valid_address a \<Longrightarrow> topic_state a B = Inr (state_topic base a)"
    "valid_address (canon a) \<Longrightarrow> topic_event a B = Inr (topic_join [base, canon a, ''event''])"
    "valid_address (canon a) \<Longrightarrow> topic_attributes a B = Inr (topic_join [base, canon a, ''attributes''])"
    by (simp_all add: topic_state_def topic_event_def topic_attributes_def device_topic_def assms seg topic_address_spec
        state_topic_def valid_address_canon)
qed

lemma steady_publish:
  assumes "steady base p m pp up v av b" "shows_view base v' av' (br_published b @ [msg])"
  shows "steady base p m pp up v' av' (b\<lparr>br_published := br_published b @ [msg]\<rparr>)"
  using assms by (simp add: steady_def settled_def)

lemma mqtt_out_steady: "bystander (mm_topic msg) \<Longrightarrow> works (steady base p m pp up v av) (mqtt_out (Inr msg))"
  unfolding works_def mqtt_out_def bbind_def bresult_def bmodify_def
proof (intro allI impI)
  fix b assume "bystander (mm_topic msg)" "steady base p m pp up v av b"
  moreover from this have "shows_view base v av (br_published b @ [msg])" by (simp add: steady_def shows_bystander)
  ultimately show "\<exists>r b'. (case (Inr msg, b) of (Inl e, b') \<Rightarrow> (Inl e, b')
      | (Inr a, b') \<Rightarrow> (Inr (), b'\<lparr>br_published := br_published b' @ [a]\<rparr>)) = (Inr r, b') \<and> steady base p m pp up v av b'"
    by (auto intro: steady_publish)
qed

lemma steady_base: "steady base p m pp up v av b \<Longrightarrow> clean_segment (cf_mqtt_base_topic (br_config b)) = Inr base"
  by (simp add: steady_def settled_def)

lemma publish_current_status_steady: "works (steady base p m pp up v av) publish_current_status"
  unfolding publish_current_status_def
  by (rule steady.works_bread)
     (simp add: publish_status_def topics_ok(1) [OF steady_base] mqtt_publish_def mqtt_out_steady)

lemma device_config_steady:
  assumes "valid_address (canon a)" "steady base p m pp up v av b"
  shows "\<exists>d b'. bridge_device_config a b = (Inr d, b') \<and> steady base p m pp up v av b' \<and> discoverable d"
proof (cases "map_of (br_devices b) (canon a)")
  case None
  let ?d = "default_device (canon a) (canon a)"
  have "discoverable ?d" using assms(1) valid_address_strip [OF assms(1)] by (simp add: discoverable_def)
  with assms None show ?thesis
    by (auto simp: bridge_device_config_def bread_def Let_def bseq_def bbind_def bmodify_def bret_def steady_def settled_def
        list_all_iff dest!: set_update_entry)
next
  case (Some d)
  then have "discoverable d" using assms(2) map_of_SomeD [OF Some] by (auto simp: steady_def settled_def list_all_iff)
  with assms(2) Some show ?thesis by (simp add: bridge_device_config_def bread_def Let_def bret_def)
qed

lemma mochad_send_steady: "works (steady base p m pp True v av) (mochad_send l)"
  unfolding works_def
proof (intro allI impI)
  fix b assume b: "steady base p m pp True v av b"
  then have f: "\<forall>e. Some e \<notin> set (br_send_faults b)" "br_mochad_connected b" by (simp_all add: steady_def)
  then have none: "(case br_send_faults b of [] \<Rightarrow> None | f # _ \<Rightarrow> map_option OSError f) = None"
    and rest: "\<forall>e. Some e \<notin> set (tl (br_send_faults b))"
    by (cases "br_send_faults b"; cases "hd (br_send_faults b)"; auto)+
  have "mochad_send l b = (Inr (), b\<lparr>br_send_faults := tl (br_send_faults b), br_sent := br_sent b @ [rstrip_by is_crlf l @ [CHR 0x0A]]\<rparr>)"
    using f(2) by (simp add: mochad_send_def none send_line_def)
  with b rest show "\<exists>r b'. mochad_send l b = (Inr r, b') \<and> steady base p m pp True v av b'"
    by (simp add: steady_def settled_def)
qed

lemma send_device_command_steady:
  assumes "queueable x"
  shows "works (steady base p m pp True v av) (send_device_command x)"
proof -
  obtain a c where x: "x = (a, c)" by (cases x)
  with assms have a: "valid_address (canon a)" and "\<exists>l. encode_rf_command a c = Inr l"
    using valid_address_canon by (auto simp: queueable_def encode_rf_command_spec encodable_def)
  then obtain l where l: "encode_rf_command a c = Inr l" by blast
  have cfg: "works (steady base p m pp True v av) (bridge_device_config a)"
    unfolding works_def using device_config_steady [OF a] by blast
  show ?thesis
    unfolding send_device_command_def x prod.case Let_def l
    by (intro steady.works_control steady.works_bresult mochad_send_steady cfg)
qed

lemma queue_device_command_steady:
  assumes "queueable x"
  shows "works (steady base p m pp up v av) (queue_device_command x)"
proof -
  have "steady base p m pp up v av (enqueue x b)" if "steady base p m pp up v av b" for b
    using that assms by (cases "br_queued_device_commands b") (auto simp: steady_def settled_def enqueue_def Let_def)
  then show ?thesis
    unfolding queue_device_command_def
    by (intro steady.works_control steady.works_bmodify publish_current_status_steady)
qed

lemma flush_loop_steady:
  "steady base p m pp True v av b \<Longrightarrow> \<exists>r b'. flush_loop n b = (Inr r, b') \<and> steady base p m pp True v av b'"
proof (induction n arbitrary: b)
  case (Suc n)
  show ?case
  proof (cases "br_queued_device_commands b")
    case (Cons x q)
    let ?b = "b\<lparr>br_queued_device_commands := q\<rparr>"
    have x: "queueable x" "steady base p m pp True v av ?b" using Suc.prems Cons by (simp_all add: steady_def settled_def)
    obtain r b' where "send_device_command x ?b = (Inr r, b')" "steady base p m pp True v av b'"
      using worksD [OF send_device_command_steady [OF x(1)] x(2)] by blast
    with Suc.IH Cons show ?thesis by simp
  qed (use Suc.prems in auto)
qed auto

lemma flush_steady: "works (steady base p m pp up v av) flush_queued_device_commands"
  unfolding flush_queued_device_commands_def
proof (rule steady.works_bread)
  fix b assume b: "steady base p m pp up v av b"
  have "works (steady base p m pp up v av) (flush_loop n)" if "device_command_queue_reason b = None" for n
  proof -
    have "up" using that b by (auto simp: device_command_queue_reason_def Let_def steady_def split: if_splits)
    then show ?thesis using flush_loop_steady by (auto simp: works_def)
  qed
  then show "works (steady base p m pp up v av)
     (if br_queued_device_commands b = [] then bret ()
      else if device_command_queue_reason b \<noteq> None then bret ()
      else bbind (flush_loop (length (br_queued_device_commands b))) (\<lambda>emptied.
        bwhen emptied (bread (\<lambda>b. bwhen (br_mqtt_connected b) publish_current_status))))"
    by (auto intro!: steady.works_control publish_current_status_steady)
qed

subsection \<open>Discovery messages\<close>

lemma publish_messages_steady:
  "list_all (bystander \<circ> dm_topic) msgs \<Longrightarrow> works (steady base p m pp up v av) (publish_messages msgs)"
  unfolding publish_messages_def publish_discovery_def
  by (intro steady.works_bfor mqtt_out_steady) (simp add: mqtt_publish_def list_all_iff)

lemma device_messages_ok:
  assumes "steady base p m pp up v av b" "discoverable d"
  shows "\<exists>msgs. discovery_messages (br_discovery b) d diag = Inr msgs \<and> list_all (bystander \<circ> dm_topic) msgs"
proof -
  from assms obtain msgs where "discovery_messages (br_discovery b) d diag = Inr msgs"
      "device_message_ok (br_discovery b) p d msgs"
    using discoverable_messages [of d "br_discovery b" p base diag] by (auto simp: steady_def settled_def discoverable_def)
  then show ?thesis by (auto simp: device_message_ok_def)
qed

lemma bridge_messages_ok:
  assumes "steady base p m pp up v av b"
  shows "\<exists>msgs. bridge_diagnostic_messages (br_discovery b) diag = Inr msgs \<and> list_all (bystander \<circ> dm_topic) msgs"
proof -
  obtain msgs where msgs: "bridge_diagnostic_messages (br_discovery b) diag = Inr msgs"
    "map dm_topic msgs = map (bridge_entity_topic p) (bridge_entities (dg_enable_maintenance_buttons (br_discovery b)))"
    using bridge_messages_built [of "br_discovery b" p base diag] assms by (auto simp: steady_def settled_def)
  have "list_all bystander (map dm_topic msgs)"
    unfolding msgs(2) by (simp add: list_all_iff bridge_entity_topic_def case_prod_unfold)
  with msgs(1) show ?thesis by (simp add: list.pred_map)
qed

lemma all_discovery_messages_ok:
  assumes "steady base p m pp up v av b"
  shows "\<exists>msgs. all_discovery_messages b = Inr msgs \<and> list_all (bystander \<circ> dm_topic) msgs"
proof -
  let ?f = "\<lambda>(_, d). discovery_messages (br_discovery b) d (Some (br_diagnostics b))"
  have "\<exists>mss. map_result ?f ds = Inr mss \<and> list_all (list_all (bystander \<circ> dm_topic)) mss"
    if "list_all (discoverable \<circ> snd) ds" for ds
    using that
  proof (induction ds)
    case (Cons kd ds)
    moreover obtain ms' where "?f kd = Inr ms'" "list_all (bystander \<circ> dm_topic) ms'"
      using device_messages_ok [OF assms, of "snd kd" "Some (br_diagnostics b)"] Cons.prems by (auto simp: case_prod_unfold)
    ultimately show ?case by (auto simp: comp_def)
  qed simp
  moreover have "list_all (discoverable \<circ> snd) (br_devices b)" using assms by (simp add: steady_def settled_def)
  ultimately obtain mss where "map_result ?f (br_devices b) = Inr mss" "list_all (list_all (bystander \<circ> dm_topic)) mss" by blast
  moreover from bridge_messages_ok [OF assms, of "Some (br_diagnostics b)"] obtain bs where
    "bridge_diagnostic_messages (br_discovery b) (Some (br_diagnostics b)) = Inr bs" "list_all (bystander \<circ> dm_topic) bs" by blast
  ultimately show ?thesis by (auto simp: all_discovery_messages_def list_all_iff)
qed

lemma discovery_steady:
  "works (steady base p m pp up v av) publish_bridge_diagnostic_discovery"
  "works (steady base p m pp up v av) publish_current_discovery"
  "works (steady base p m pp up v av) desired_discovery_topics"
proof -
  show "works (steady base p m pp up v av) publish_bridge_diagnostic_discovery"
    unfolding publish_bridge_diagnostic_discovery_def
  proof (rule steady.works_bread)
    fix b assume "steady base p m pp up v av b"
    from bridge_messages_ok [OF this, of "Some (br_diagnostics b)"] obtain msgs where
      "bridge_diagnostic_messages (br_discovery b) (Some (br_diagnostics b)) = Inr msgs" "list_all (bystander \<circ> dm_topic) msgs" by blast
    then show "works (steady base p m pp up v av)
        (bbind (bresult (bridge_diagnostic_messages (br_discovery b) (Some (br_diagnostics b)))) publish_messages)"
      using publish_messages_steady by (simp add: bbind_def bresult_def works_def)
  qed
  show "works (steady base p m pp up v av) publish_current_discovery"
    unfolding publish_current_discovery_def
  proof (rule steady.works_bread)
    fix b assume "steady base p m pp up v av b"
    from all_discovery_messages_ok [OF this] obtain msgs where
      msgs: "all_discovery_messages b = Inr msgs" "list_all (bystander \<circ> dm_topic) msgs" by blast
    have "works (steady base p m pp up v av) (bseq (publish_messages msgs) (bret (length msgs)))"
      by (intro steady.works_control publish_messages_steady msgs)
    then show "works (steady base p m pp up v av) (bbind (bresult (all_discovery_messages b)) (\<lambda>messages.
       bseq (publish_messages messages) (bret (length messages))))"
      by (simp add: msgs(1) bbind_def bresult_def works_def)
  qed
  show "works (steady base p m pp up v av) desired_discovery_topics"
    unfolding desired_discovery_topics_def
  proof (rule steady.works_bread)
    fix b assume "steady base p m pp up v av b"
    from all_discovery_messages_ok [OF this] obtain msgs where "all_discovery_messages b = Inr msgs" by blast
    then show "works (steady base p m pp up v av)
        (bbind (bresult (all_discovery_messages b)) (\<lambda>messages. bret (set (map dm_topic messages))))"
      by (simp add: bbind_def bresult_def works_def bret_def)
  qed
qed

subsection \<open>Actions\<close>

fun book_av :: "bridge_action \<Rightarrow> bool option \<Rightarrow> bool option" where
  "book_av (PublishAvailabilityAction online) av = Some online"
| "book_av _ av = av"

text \<open>The actions that succeed: of valid addresses, and a status request only while mochad is connected.\<close>

fun act_fits :: "bool \<Rightarrow> bridge_action \<Rightarrow> bool" where
  "act_fits up (PublishStateAction a c r) \<longleftrightarrow> valid_address a \<and> r"
| "act_fits up (SendDeviceCommandAction a c) \<longleftrightarrow> queueable (a, c)"
| "act_fits up RequestStatusAction \<longleftrightarrow> up"
| "act_fits up (SendMochadCommandAction c) \<longleftrightarrow> up"
| "act_fits up x \<longleftrightarrow> (\<forall>a \<in> act_address x. valid_address a)"

lemma execute_action_steady:
  assumes b: "steady base p m pp up (lg_view l) av b" and fits: "act_fits up x"
  shows "\<exists>b'. execute_action x b = (Inr (), b') \<and> steady base p m pp up (lg_view (book x l)) (book_av x av) b'"
proof -
  have run: "execute_action x b = perform x b" using b by (simp add: execute_action_def bread_def steady_def)
  note t = topics_ok [OF steady_base [OF b]]
  have out: "\<exists>b'. mqtt_out (Inr msg) b = (Inr (), b') \<and> steady base p m pp up v' av' b'"
    if "shows_view base v' av' (br_published b @ [msg])" for msg v' av'
    using steady_publish [OF b that] by (simp add: mqtt_out_def bbind_def bresult_def bmodify_def)
  have view: "shows_view base (lg_view l) av (br_published b)" using b by (simp add: steady_def)
  have works: "\<exists>b'. n b = (Inr (), b') \<and> steady base p m pp up (lg_view l) av b'"
    if "works (steady base p m pp up (lg_view l) av) n" for n :: "unit meth"
    using worksD [OF that b] by auto
  show ?thesis
  proof (cases x)
    case (PublishStateAction a c r)
    then have "valid_address a" "r" using fits by simp_all
    then show ?thesis
      unfolding run using t(4) [of a] out [OF shows_state [OF view, of a c 0]]
      by (simp add: PublishStateAction bread_def publish_state_def)
  next
    case (PublishAvailabilityAction online)
    then show ?thesis unfolding run using t(2) out [OF shows_availability [OF view, of online 0]]
      by (simp add: PublishAvailabilityAction bread_def publish_availability_def online_text_def)
  next
    case (PublishDiscoveryAction a)
    from fits have "valid_address (canon a)" using valid_address_canon by (simp add: PublishDiscoveryAction)
    from device_config_steady [OF this b] obtain d b' where
      d: "bridge_device_config a b = (Inr d, b')" "steady base p m pp up (lg_view l) av b'" "discoverable d" by blast
    from device_messages_ok [OF d(2,3)] obtain msgs where
      "discovery_messages (br_discovery b') d (Some (br_diagnostics b')) = Inr msgs" "list_all (bystander \<circ> dm_topic) msgs" by blast
    with d worksD [OF publish_messages_steady d(2), of msgs] show ?thesis
      unfolding run by (auto simp: PublishDiscoveryAction bbind_def bread_def bresult_def)
  next
    case (SendDeviceCommandAction a c)
    then have q: "queueable (a, c)" using fits by simp
    show ?thesis
    proof (cases "device_command_queue_reason b")
      case None
      then have "up" using b by (auto simp: device_command_queue_reason_def Let_def steady_def split: if_splits)
      with None works [of "send_device_command (a, c)"] send_device_command_steady [OF q] show ?thesis
        unfolding run by (auto simp: SendDeviceCommandAction bread_def)
    next
      case (Some reason)
      with works [OF queue_device_command_steady [OF q]] show ?thesis
        unfolding run by (simp add: SendDeviceCommandAction bread_def)
    qed
  next
    case (PublishEventAction e)
    then show ?thesis unfolding run using fits t(5) [of "de_address e"] works [OF mqtt_out_steady]
      by (simp add: PublishEventAction bread_def publish_event_def mqtt_publish_def)
  next
    case (PublishCommandEventAction a pl r)
    then show ?thesis unfolding run using fits t(5) [of a] valid_address_canon [of a] works [OF mqtt_out_steady]
      by (simp add: PublishCommandEventAction bread_def publish_event_def mqtt_publish_def)
  next
    case (PublishAttributesAction a pl r)
    then show ?thesis unfolding run using fits t(6) [of a] valid_address_canon [of a] works [OF mqtt_out_steady]
      by (simp add: PublishAttributesAction bread_def publish_attributes_def mqtt_publish_def)
  next
    case (PublishStatusAction st mq mo r)
    then show ?thesis unfolding run using t(1) works [OF mqtt_out_steady] by (simp add: PublishStatusAction bread_def publish_status_def mqtt_publish_def)
  next
    case (PublishBridgeResponseAction cm su msg pl r)
    then show ?thesis unfolding run using t(3) works [OF mqtt_out_steady] by (simp add: PublishBridgeResponseAction bread_def publish_bridge_response_def mqtt_publish_def)
  next
    case (SendMochadCommandAction c)
    then show ?thesis unfolding run using fits works [of "mochad_send c"] mochad_send_steady by auto
  next
    case RequestStatusAction
    then show ?thesis unfolding run using fits works [of "mochad_send ''st''"] mochad_send_steady by auto
  next
    case (LogUnknownEventAction e)
    then show ?thesis unfolding run using b by (simp add: LogUnknownEventAction bret_def)
  qed
qed

lemma execute_actions_steady:
  assumes "steady base p m pp up (lg_view l) av b" "list_all (act_fits up) acts"
  shows "\<exists>b'. execute_actions acts b = (Inr (), b') \<and>
    steady base p m pp up (lg_view (fold book acts l)) (fold book_av acts av) b'"
  using assms
proof (induction acts arbitrary: b l av)
  case (Cons x acts)
  from execute_action_steady [OF Cons.prems(1), of x] Cons.prems(2) obtain b' where
    "execute_action x b = (Inr (), b')" "steady base p m pp up (lg_view (book x l)) (book_av x av) b'" by auto
  with Cons.IH [OF this(2)] Cons.prems(2) show ?case by simp
qed simp

end
