(* ===== verification/BridgeBroker.thy ===== *)
theory BridgeBroker
  imports BridgeSync
begin

section \<open>The broker and the state manager agree\<close>

text \<open>
  The callbacks of the bridge over the invariant of \<open>BridgeSync\<close>: connecting to MQTT establishes the
  agreement, and every callback that follows keeps it.
\<close>

subsection \<open>Calls of the state manager\<close>

text \<open>Availability changes only together with its publication, and only connections ask for the status.\<close>

fun calm_act :: "bridge_action \<Rightarrow> bool" where
  "calm_act (PublishAvailabilityAction online) = False"
| "calm_act RequestStatusAction = False"
| "calm_act _ = True"

lemma book_av_calm: "list_all calm_act acts \<Longrightarrow> fold book_av acts av = av"
proof (induction acts)
  case (Cons x acts)
  then show ?case by (cases x) simp_all
qed simp

definition same_availability :: "state_manager \<Rightarrow> bridge_action list \<times> state_manager \<Rightarrow> bool" where
  "same_availability m r \<longleftrightarrow> list_all calm_act (fst r) \<and> sm_available (snd r) = sm_available m"

lemma available_basic [simp]:
  "sm_available (stat f m) = sm_available m" "sm_available (put_dev k g m) = sm_available m"
  "sm_available (mark_seen k now m) = sm_available m" "sm_available (ensure_device a m) = sm_available m"
  by (auto simp: stat_def put_dev_def mark_seen_def ensure_device_def Let_def split: option.splits)

lemma helpers_available [simp]:
  "list_all calm_act (fst (set_device_state k c now r cp m))" "list_all calm_act (fst (discovery_actions k m))"
  "sm_available (snd (set_device_state k c now r cp m)) = sm_available m" "sm_available (snd (discovery_actions k m)) = sm_available m"
  by (simp_all add: set_device_state_def discovery_actions_def Let_def)

lemma same_availability_house_loop: "same_availability m (house_loop e ks m)"
  unfolding same_availability_def
  by (induction ks arbitrary: m) (simp_all add: Let_def case_prod_unfold)

lemma same_availability_snapshot_loop: "same_availability m (snapshot_loop now ds m)"
  unfolding same_availability_def
proof (induction ds arbitrary: m)
  case (Cons p ds)
  then show ?case by (cases p) (simp add: Let_def case_prod_unfold)
qed simp

lemma same_availability_apply: "same_availability m (sm_apply now ev m)"
proof (cases ev)
  case (Some e)
  show ?thesis
  proof (cases e)
    case (DeviceEvent d)
    then show ?thesis
      by (simp add: Some same_availability_def apply_device_event_def Let_def case_prod_unfold)
  next
    case (HouseEvent h)
    then show ?thesis
      using same_availability_house_loop by (simp add: Some same_availability_def apply_house_event_def Let_def)
  next
    case (StatusSnapshot ss)
    then show ?thesis
      using same_availability_snapshot_loop by (simp add: Some same_availability_def apply_status_snapshot_def)
  qed (simp add: Some same_availability_def)
qed (simp add: same_availability_def)

lemma same_availability_request: "same_availability m (optimistic_update now a c m)"
  by (simp add: same_availability_def optimistic_update_def Let_def case_prod_unfold)

lemma announces_calm [simp]: "list_all calm_act (concat (map (announce m) ks))"
  by (auto simp: list_all_iff announce_def split: option.splits)

lemma connect_calm: "sm_inv m \<Longrightarrow> \<exists>online st. fst (sm_mqtt_connect m) = PublishAvailabilityAction online # PublishStatusAction st True online True #
    concat (map (announce m) (map fst (sm_devices m))) \<and> sm_available (snd (sm_mqtt_connect m)) = online"
  using mqtt_connect_spec [of m] by (auto simp: case_prod_unfold Let_def)

text \<open>What the actions of a call leave the broker with.\<close>

lemma connect_availability:
  "sm_inv m \<Longrightarrow> fold book_av (fst (sm_mqtt_connect m)) av = Some (sm_available (snd (sm_mqtt_connect m)))"
  by (frule connect_calm, elim exE conjE) (simp add: book_av_calm del: map_map)

lemma exec_availability:
  assumes "sm_inv m"
  shows "fold book_av (fst (sm_exec c m)) (Some (sm_available m)) = Some (sm_available (snd (sm_exec c m)))"
proof (cases c)
  case (Apply now ev)
  then show ?thesis using same_availability_apply by (simp add: same_availability_def book_av_calm)
next
  case (Request now a c)
  then show ?thesis using same_availability_request by (simp add: same_availability_def book_av_calm)
next
  case MqttConnected
  then show ?thesis using connect_availability [OF assms] by simp
qed (simp_all add: sm_mqtt_disconnect_def sm_mochad_connect_def sm_mochad_disconnect_def bridge_status_actions_def Let_def)

lemma requests_status:
  assumes "RequestStatusAction \<in> set (fst (sm_exec c m))" "sm_inv m"
  shows "c = MochadConnected"
proof (cases c)
  case (Apply now ev)
  then show ?thesis using assms(1) same_availability_apply [of m now ev] by (auto simp: same_availability_def list_all_iff dest!: bspec)
next
  case (Request now a c)
  then show ?thesis using assms(1) same_availability_request [of m now a c] by (auto simp: same_availability_def list_all_iff dest!: bspec)
next
  case MqttConnected
  have "RequestStatusAction \<notin> set (concat (map (announce m) ks))" for ks
    using announces_calm [of m ks] by (auto simp: list_all_iff simp del: announces_calm dest!: bspec)
  then show ?thesis using assms(1) connect_calm [OF assms(2)] by (auto simp: MqttConnected simp del: set_concat set_map map_map)
qed (use assms(1) in \<open>simp_all add: sm_mqtt_disconnect_def sm_mochad_disconnect_def bridge_status_actions_def Let_def\<close>)

lemma book_announces:
  "lg_view (fold book (concat (map (announce m) ks)) l) k =
     (if k \<in> set ks \<and> known m k \<noteq> None then known m k else lg_view l k)"
proof (induction ks arbitrary: l)
  case (Cons j ks)
  then show ?case by (auto simp: announce_def split: option.splits)
qed simp

lemma connect_view:
  assumes "sm_inv m" "known (snd (sm_mqtt_connect m)) k = Some c"
  shows "lg_view (fold book (fst (sm_mqtt_connect m)) l) k = Some c"
proof -
  have spec: "fst (sm_mqtt_connect m) = [PublishAvailabilityAction (sm_mochad_connected m),
        PublishStatusAction (if sm_mochad_connected m then ''online'' else ''offline'') True (sm_mochad_connected m) True] @
        concat (map (announce m) (map fst (sm_devices m)))" "known (snd (sm_mqtt_connect m)) = known m"
    using mqtt_connect_spec [OF assms(1)] by (simp_all add: case_prod_unfold Let_def)
  have "has_dev m k"
    using assms(2) dev_absent [of m k] unfolding spec(2) by (cases "has_dev m k") (simp_all add: known_def)
  then show ?thesis using assms(2) unfolding spec by (simp add: book_announces has_dev_def del: map_map)
qed

lemma exec_fits:
  assumes "sm_inv m" "keys_valid m" "call_ok c" "c = MochadConnected \<longrightarrow> up"
  shows "list_all (act_fits up) (fst (sm_exec c m))"
  unfolding list_all_iff
proof
  fix x assume x: "x \<in> set (fst (sm_exec c m))"
  have law: "act_ok m x" using lawful_exec [OF assms(1), of c] x by (simp add: lawful_def list_all_iff)
  have valid: "valid_address a" if "a \<in> act_address x" for a
    using that x by (intro exec_address_valid [OF assms(1-3)]) (auto simp: acts_address_def)
  show "act_fits up x"
  proof (cases x)
    case (SendDeviceCommandAction a cmd)
    with x sends_of_exec [OF _ assms(1)] obtain now a' where "c = Request now a' cmd" by blast
    with assms(3) valid SendDeviceCommandAction show ?thesis by (simp add: queueable_def encodable_def)
  next
    case RequestStatusAction
    with requests_status [OF _ assms(1)] x assms(4) show ?thesis by auto
  qed (use law valid in auto)
qed

subsection \<open>Agreement\<close>

definition synced :: "string \<Rightarrow> string \<Rightarrow> bridge \<Rightarrow> bool" where
  "synced base p b \<longleftrightarrow> steady base p (br_state b) (br_parser b) (br_mochad_connected b) (known (br_state b))
       (Some (sm_available (br_state b))) b \<and>
     sm_inv (br_state b) \<and> keys_valid (br_state b) \<and> pp_inv (br_parser b)"

interpretation synced: total_property "synced base p" for base p .

lemma synced_works:
  assumes "\<And>m pp up v av. works (steady base p m pp up v av) n"
  shows "works (synced base p) n"
  unfolding works_def
proof (intro allI impI)
  fix b assume b: "synced base p b"
  let ?st = "steady base p (br_state b) (br_parser b) (br_mochad_connected b) (known (br_state b)) (Some (sm_available (br_state b)))"
  from worksD [OF assms] b obtain r b' where n: "n b = (Inr r, b')" "?st b'" unfolding synced_def by blast
  then have "br_state b' = br_state b" "br_parser b' = br_parser b" "br_mochad_connected b' = br_mochad_connected b"
    by (simp_all add: steady_def)
  with b n show "\<exists>r b'. n b = (Inr r, b') \<and> synced base p b'" by (auto simp: synced_def)
qed

lemma synced_valid_config: "valid_address (canon a) \<Longrightarrow> works (synced base p) (bridge_device_config a)"
  by (rule synced_works) (use device_config_steady in \<open>fastforce simp: works_def\<close>)

lemma with_state_synced:
  assumes b: "synced base p b" and call: "call_ok c" "c = MochadConnected \<longrightarrow> br_mochad_connected b"
  shows "\<exists>b'. with_state (sm_exec c) b = (Inr (), b') \<and> synced base p b' \<and>
     br_mochad_connected b' = br_mochad_connected b \<and> br_state b' = snd (sm_exec c (br_state b))"
proof -
  let ?m = "br_state b" and ?m' = "snd (sm_exec c (br_state b))" and ?up = "br_mochad_connected b"
  have inv: "sm_inv ?m" "keys_valid ?m" "pp_inv (br_parser b)" using b by (simp_all add: synced_def)
  have law: "lawful ?m (sm_exec c ?m)" by (rule lawful_exec [OF inv(1)])
  have "steady base p ?m' (br_parser b) ?up (lg_view (ledger_of ?m)) (Some (sm_available ?m)) (b\<lparr>br_state := ?m'\<rparr>)"
    using b by (simp add: synced_def steady_def settled_def ledger_of_def)
  from execute_actions_steady [OF this exec_fits [OF inv(1,2) call]] obtain b' where
    run: "execute_actions (fst (sm_exec c ?m)) (b\<lparr>br_state := ?m'\<rparr>) = (Inr (), b')"
      "steady base p ?m' (br_parser b) ?up (lg_view (fold book (fst (sm_exec c ?m)) (ledger_of ?m)))
        (fold book_av (fst (sm_exec c ?m)) (Some (sm_available ?m))) b'" by blast
  have "fold book (fst (sm_exec c ?m)) (ledger_of ?m) = ledger_of ?m'" using law by (simp add: lawful_def)
  then have "lg_view (fold book (fst (sm_exec c ?m)) (ledger_of ?m)) = known ?m'" by (simp add: ledger_of_def [of ?m'])
  with run(2) have "steady base p ?m' (br_parser b) ?up (known ?m') (Some (sm_available ?m')) b'"
    by (simp add: exec_availability [OF inv(1)])
  moreover from this have "br_state b' = ?m'" "br_parser b' = br_parser b" "br_mochad_connected b' = ?up"
    by (simp_all add: steady_def)
  ultimately have "synced base p b'"
    using law keys_valid_exec [OF inv(2) call(1)] inv(3) by (simp add: synced_def lawful_def)
  with run(1) \<open>br_mochad_connected b' = ?up\<close> \<open>br_state b' = ?m'\<close> show ?thesis
    by (simp add: with_state_def Let_def case_prod_unfold)
qed

subsection \<open>Callbacks\<close>

lemma files_steady:
  "works (steady base p m pp up v av) load_discovery_registry"
  "works (steady base p m pp up v av) (save_discovery_registry ts)"
  "works (steady base p m pp up v av) (write_health st)" "works (steady base p m pp up v av) write_current_health"
  by (simp_all add: works_def load_discovery_registry_def save_discovery_registry_def write_health_def
      write_current_health_def bread_def case_prod_unfold Let_def steady_def settled_def)

lemma cleanup_steady: "works (steady base p m pp up v av) (run_discovery_cleanup False)"
proof -
  have "\<not> cf_discovery_cleanup (br_config b)" if "steady base p m pp up v av b" for b
    using that by (simp add: steady_def settled_def)
  then show ?thesis
    unfolding run_discovery_cleanup_def Let_def
    by (auto intro!: steady.works_control discovery_steady files_steady)
qed

lemma respond_steady: "works (steady base p m pp up v av) (respond cm su msg pl)"
  unfolding works_def respond_def
proof (intro allI impI)
  fix b assume "steady base p m pp up v av b"
  then have "steady base p m pp up (lg_view (empty_ledger\<lparr>lg_view := v\<rparr>)) av b" by simp
  from execute_action_steady [OF this, of "PublishBridgeResponseAction cm su msg pl False"]
  show "\<exists>r b'. execute_action (PublishBridgeResponseAction cm su msg pl False) b = (Inr r, b') \<and> steady base p m pp up v av b'"
    by simp
qed

lemma request_steady:
  assumes "x = RequestStatusAction \<or> x = SendMochadCommandAction l"
  shows "works (steady base p m pp True v av) (execute_action x)"
  unfolding works_def
proof (intro allI impI)
  fix b assume "steady base p m pp True v av b"
  then have "steady base p m pp True (lg_view (empty_ledger\<lparr>lg_view := v\<rparr>)) av b" by simp
  from execute_action_steady [OF this, of x] assms
  show "\<exists>r b'. execute_action x b = (Inr r, b') \<and> steady base p m pp True v av b'" by auto
qed

lemma handle_bridge_command_steady: "works (steady base p m pp up v av) (handle_bridge_command cm)"
  unfolding handle_bridge_command_def
proof (rule steady.works_bread)
  fix b assume b: "steady base p m pp up v av b"
  have off: "\<not> cf_enable_maintenance_buttons (br_config b)" using b by (simp add: steady_def settled_def)
  have sync: "works (steady base p m pp up v av) (execute_action RequestStatusAction)" if "br_mochad_connected b"
    using request_steady b that by (auto simp: steady_def)
  show "works (steady base p m pp up v av)
    (if cm \<in> {BC_PRUNE_DISCOVERY, BC_RESET_DISCOVERY} \<and> \<not> cf_enable_maintenance_buttons (br_config b)
     then respond (Some cm) False
       ''Maintenance command disabled; set ENABLE_MAINTENANCE_BUTTONS=true to enable it.'' []
     else (case cm of
       BC_PING \<Rightarrow> respond (Some cm) True ''pong'' []
     | BC_STATUS \<Rightarrow>
         respond (Some cm) True ''Bridge status returned.'' (bridge_status_payload None None None b)
     | BC_SYNC \<Rightarrow>
         if \<not> br_mochad_connected b
         then respond (Some cm) False ''Cannot sync because mochad is not connected.'' []
         else bbind (bcatch_os (bseq (execute_action RequestStatusAction) (bret None)) (\<lambda>e. bret (Some e))) (\<lambda>failed.
           case failed of
             Some e \<Rightarrow> respond (Some cm) False (''Status sync request failed: '' @ exn_text e) []
           | None \<Rightarrow> respond (Some cm) True ''Status sync requested from mochad.'' [])
     | BC_REDISCOVER \<Rightarrow>
         bbind publish_current_discovery (\<lambda>published.
         bbind desired_discovery_topics (\<lambda>desired.
         bseq (save_discovery_registry desired)
           (respond (Some cm) True ''Discovery messages republished.'' [(''published'', JInt (int published))])))
     | BC_PRUNE_DISCOVERY \<Rightarrow>
         bbind (run_discovery_cleanup True) (respond_result cm ''Discovery prune completed.'')
     | BC_RESET_DISCOVERY \<Rightarrow>
         bbind reset_discovery (respond_result cm ''Discovery reset completed.'')))"
    using off sync
    by (cases cm) (auto intro!: steady.works_control respond_steady discovery_steady files_steady split: option.splits)
qed

lemma sm_exec_fun [simp]:
  "sm_exec (Apply now ev) = sm_apply now ev" "sm_exec (Request now a c) = optimistic_update now a c"
  "sm_exec MqttConnected = sm_mqtt_connect" "sm_exec MochadConnected = sm_mochad_connect"
  "sm_exec MochadDisconnected = sm_mochad_disconnect"
  by (simp_all add: fun_eq_iff)

lemma with_state_works:
  "call_ok c \<Longrightarrow> c \<noteq> MochadConnected \<Longrightarrow> works (synced base p) (with_state (sm_exec c))"
  unfolding works_def using with_state_synced by blast

lemma on_mqtt_command_synced: "works (synced base p) (on_mqtt_command dv payload topic)"
proof -
  have "works (synced base p) (with_state (optimistic_update now a c))" "works (synced base p) (bridge_device_config a)"
    if "normalize_address dv = Inr a" "encode_rf_command a c = Inr l" for now a c l
    using that with_state_works [of "Request now a c"] synced_valid_config [of a]
    by (simp_all add: encode_rf_command_spec)
  moreover have "works (synced base p) (bridge_device_config a)" if "normalize_address dv = Inr a" for a
    using that synced_valid_config by (simp add: validation.norm_Inr_iff valid_address_canon)
  ultimately show ?thesis
    unfolding on_mqtt_command_def
    by (auto intro!: synced.works_control split: sum.splits option.splits)
qed

lemma on_mqtt_message_synced: "works (synced base p) (on_mqtt_message topic msg)"
  unfolding on_mqtt_message_def on_mqtt_bridge_command_def
  by (auto intro!: synced.works_control on_mqtt_command_synced synced_works [OF respond_steady]
      synced_works [OF handle_bridge_command_steady] split: mqtt_route.splits option.splits)

lemma diagnostic_line_steady: "works (steady base p m pp up v av) (handle_mochad_diagnostic_line ln)"
proof -
  have "steady base p m pp up v av (b\<lparr>br_diagnostics := d\<rparr>)" if "steady base p m pp up v av b" for b d
    using that by (simp add: steady_def settled_def)
  then show ?thesis
    unfolding handle_mochad_diagnostic_line_def handle_diagnostic_payload_def
    by (auto intro!: steady.works_control steady.works_bmodify publish_current_status_steady discovery_steady files_steady
        flush_steady split: option.splits json.splits)
qed

lemma event_line_synced:
  "works (synced base p) (bread (\<lambda>b. let (r, pp) = parse_line (br_now b) ln (br_parser b) in
      bseq (bmodify (\<lambda>b. b\<lparr>br_parser := pp\<rparr>)) (bbind (bresult r) (\<lambda>ev. with_state (sm_apply (br_now b) ev)))))"
  unfolding works_def bread_def
proof (intro allI impI)
  fix b assume b: "synced base p b"
  then have pp: "pp_inv (br_parser b)" by (simp add: synced_def)
  obtain ev pp' where parsed: "parse_line (br_now b) ln (br_parser b) = (Inr ev, pp')" "pp_inv pp'" "pred_option event_ok ev"
    using parse_line_total [OF pp, of "br_now b" ln] by auto
  have "synced base p (b\<lparr>br_parser := pp'\<rparr>)" using b parsed(2) by (simp add: synced_def steady_def settled_def)
  with with_state_synced [OF this, of "Apply (br_now b) ev"] parsed(3)
  show "\<exists>r b'. (let (r, pp) = parse_line (br_now b) ln (br_parser b) in
      bseq (bmodify (\<lambda>b. b\<lparr>br_parser := pp\<rparr>)) (bbind (bresult r) (\<lambda>ev. with_state (sm_apply (br_now b) ev)))) b = (Inr r, b') \<and>
      synced base p b'"
    by (auto simp: parsed(1) bseq_def bbind_def bmodify_def bresult_def)
qed

lemma on_mochad_line_synced: "works (synced base p) (on_mochad_line ln)"
  unfolding on_mochad_line_def Let_def
  by (rule synced.works_bbind [OF synced_works [OF diagnostic_line_steady]])
     (use event_line_synced in \<open>auto simp: synced.works_bret Let_def\<close>)

lemma request_mochad_diagnostics_steady: "works (steady base p m pp True v av) (request_mochad_diagnostics cs)"
  unfolding works_def
proof (intro allI impI)
  show "\<exists>r b'. request_mochad_diagnostics cs b = (Inr r, b') \<and> steady base p m pp True v av b'"
    if "steady base p m pp True v av b" for b
    using that
  proof (induction cs arbitrary: b)
    case (Cons c cs)
    from worksD [OF request_steady Cons.prems, of "SendMochadCommandAction c" c] obtain b' where
      "execute_action (SendMochadCommandAction c) b = (Inr (), b')" "steady base p m pp True v av b'" by auto
    with Cons.IH [of b'] show ?case by auto
  qed simp
qed

lemma mochad_up_synced: "works (synced base p) (handle MochadUp)"
  unfolding works_def
proof (intro allI impI)
  fix b assume "synced base p b"
  then have "synced base p (b\<lparr>br_mochad_connected := True\<rparr>)" by (simp add: synced_def steady_def settled_def)
  from with_state_synced [OF this, of MochadConnected] obtain b' where
    up: "with_state sm_mochad_connect (b\<lparr>br_mochad_connected := True\<rparr>) = (Inr (), b')" "synced base p b'" "br_mochad_connected b'"
    by auto
  have req: "works (steady base p (br_state b') (br_parser b') True (known (br_state b')) (Some (sm_available (br_state b'))))
      (bseq (request_mochad_diagnostics [''hello'', ''capabilities'', ''health'']) write_current_health)"
    by (intro steady.works_control request_mochad_diagnostics_steady files_steady)
  have "steady base p (br_state b') (br_parser b') True (known (br_state b')) (Some (sm_available (br_state b'))) b'"
    using up(2,3) by (simp add: synced_def)
  from worksD [OF req this] obtain b2 where
    tail: "bseq (request_mochad_diagnostics [''hello'', ''capabilities'', ''health'']) write_current_health b' = (Inr (), b2)"
      "steady base p (br_state b') (br_parser b') True (known (br_state b')) (Some (sm_available (br_state b'))) b2" by auto
  then have "synced base p b2" using up(2) by (auto simp: synced_def steady_def)
  with up(1) tail(1) show "\<exists>r b'. handle MochadUp b = (Inr r, b') \<and> synced base p b'"
    by (auto simp: on_mochad_connected_def bseq_def bbind_def bmodify_def)
qed

lemma mochad_down_synced: "works (synced base p) (handle MochadDown)"
proof -
  have "synced base p (b\<lparr>br_mochad_connected := False\<rparr>)" "synced base p (b\<lparr>br_diagnostics := d\<rparr>)" if "synced base p b" for b d
    using that by (simp_all add: synced_def steady_def settled_def)
  then show ?thesis
    using with_state_works [of MochadDisconnected]
    by (auto simp: on_mochad_disconnected_def
        intro!: synced.works_control synced.works_bmodify synced_works [OF files_steady(3)])
qed

subsection \<open>Connecting\<close>

definition ready :: "string \<Rightarrow> string \<Rightarrow> bridge \<Rightarrow> bool" where
  "ready base p b \<longleftrightarrow> settled base p b \<and> (\<forall>e. Some e \<notin> set (br_send_faults b)) \<and>
     sm_inv (br_state b) \<and> keys_valid (br_state b) \<and> pp_inv (br_parser b)"

lemma synced_ready: "synced base p b \<Longrightarrow> ready base p b"
  by (simp add: synced_def ready_def steady_def)

lemma mqtt_up_syncs:
  assumes "ready base p b"
  shows "\<exists>b'. handle MqttUp b = (Inr (), b') \<and> synced base p b' \<and> br_state b' = snd (sm_mqtt_connect (br_state b))"
proof -
  let ?b = "b\<lparr>br_mqtt_connected := True\<rparr>" and ?m = "br_state b" and ?up = "br_mochad_connected b"
  let ?acts = "fst (sm_mqtt_connect ?m)" and ?m' = "snd (sm_mqtt_connect ?m)"
  let ?l = "(ledger_of ?m)\<lparr>lg_view := Map.empty\<rparr>"
  have inv: "sm_inv ?m" "keys_valid ?m" "pp_inv (br_parser b)" using assms by (simp_all add: ready_def)
  have law: "lawful ?m (sm_mqtt_connect ?m)" using lawful_exec [OF inv(1), of MqttConnected] by simp
  have "steady base p ?m' (br_parser b) ?up (lg_view ?l) None (?b\<lparr>br_state := ?m'\<rparr>)"
    using assms by (simp add: ready_def steady_def settled_def shows_view_def)
  moreover have "list_all (act_fits ?up) ?acts" using exec_fits [OF inv(1,2), of MqttConnected ?up] by simp
  ultimately obtain b1 where run: "execute_actions ?acts (?b\<lparr>br_state := ?m'\<rparr>) = (Inr (), b1)"
      "steady base p ?m' (br_parser b) ?up (lg_view (fold book ?acts ?l)) (fold book_av ?acts None) b1"
    using execute_actions_steady by blast
  have "steady base p ?m' (br_parser b) ?up (known ?m') (Some (sm_available ?m')) b1"
    using run(2) connect_view [OF inv(1)] unfolding connect_availability [OF inv(1)]
    by (simp add: steady_def shows_view_def)
  moreover have "works (steady base p ?m' (br_parser b) ?up (known ?m') (Some (sm_available ?m')))
      (bseq publish_bridge_diagnostic_discovery (bseq (run_discovery_cleanup False) write_current_health))"
    by (intro steady.works_control discovery_steady cleanup_steady files_steady)
  ultimately obtain b2 where tail: "bseq publish_bridge_diagnostic_discovery
        (bseq (run_discovery_cleanup False) write_current_health) b1 = (Inr (), b2)"
      "steady base p ?m' (br_parser b) ?up (known ?m') (Some (sm_available ?m')) b2"
    by (auto dest!: worksD)
  have "synced base p b2"
    using tail(2) law inv(3) keys_valid_exec [OF inv(2), of MqttConnected] by (auto simp: synced_def steady_def lawful_def)
  moreover have "br_state b2 = ?m'" using tail(2) by (simp add: steady_def)
  moreover have "with_state sm_mqtt_connect ?b = (Inr (), b1)"
    using run(1) by (simp add: with_state_def Let_def case_prod_unfold)
  ultimately show ?thesis
    using tail(1) by (simp add: on_mqtt_connected_def bseq_def [of "bmodify _"] bseq_def [of "with_state _"] bbind_def bmodify_def)
qed

subsection \<open>Runs\<close>

text \<open>
  An orderly occurrence: no write to mochad fails, the MQTT connection stays, and a configuration that
  is reloaded has devices that can be announced.
\<close>

fun orderly :: "surroundings \<times> occurrence \<Rightarrow> bool" where
  "orderly (s, MqttDown) \<longleftrightarrow> False"
| "orderly (s, StopSignal) \<longleftrightarrow> False"
| "orderly (s, Turn due sg env) \<longleftrightarrow> (\<forall>e. Some e \<notin> set (su_send_faults s)) \<and>
     (case load_config env (su_files s) of Inl _ \<Rightarrow> True | Inr c \<Rightarrow> list_all (discoverable \<circ> snd) (cf_devices c))"
| "orderly (s, oc) \<longleftrightarrow> (\<forall>e. Some e \<notin> set (su_send_faults s))"

lemma apply_runtime_config_steady:
  assumes "list_all (discoverable \<circ> snd) (cf_devices c)"
  shows "works (steady base p m pp up v av) (apply_runtime_config c)"
proof -
  have "list_all (discoverable \<circ> snd) (allowed_devices cf (cf_devices c))" for cf
    using assms by (auto simp: allowed_devices_def list_all_iff)
  then have "steady base p m pp up v av (b\<lparr>br_config := (br_config b)\<lparr>cf_devices := cf_devices c,
      cf_use_friendly_names := cf_use_friendly_names c\<rparr>, br_devices := allowed_devices cf (cf_devices c)\<rparr>)"
    if "steady base p m pp up v av b" for b cf
    using that by (simp add: steady_def settled_def)
  then show ?thesis
    unfolding apply_runtime_config_def Let_def
    by (auto intro!: steady.works_control steady.works_bmodify discovery_steady cleanup_steady publish_current_status_steady)
qed

lemma turn_synced:
  assumes "case load_config env (br_files b) of Inl _ \<Rightarrow> True | Inr c \<Rightarrow> list_all (discoverable \<circ> snd) (cf_devices c)"
    and "synced base p b"
  shows "\<exists>r b'. handle (Turn due sg env) b = (Inr r, b') \<and> synced base p b'"
proof -
  have sign: "steady base p m pp up v av (b\<lparr>br_config_file_signature := sg\<rparr>)" if "steady base p m pp up v av b" for m pp up v av b
    using that by (simp add: steady_def settled_def)
  define reload where "reload = (case load_config env (br_files b) of
       Inl (ConfigError _) \<Rightarrow> bret ()
     | Inl e \<Rightarrow> braise e
     | Inr new_config \<Rightarrow>
         bseq (apply_runtime_config new_config) (bmodify (\<lambda>b. b\<lparr>br_config_file_signature := sg\<rparr>)))"
  have "works (steady base p m pp up v av) reload" for m pp up v av
    unfolding reload_def using assms(1) load_config_error [of env "br_files b"]
    by (cases "load_config env (br_files b)")
       (auto intro!: steady.works_control steady.works_bmodify apply_runtime_config_steady sign split: exn.splits)
  then have "works (synced base p) reload" by (rule synced_works)
  moreover have "check_config_file_reload False due sg env b = bret () b \<or> check_config_file_reload False due sg env b = reload b"
    unfolding check_config_file_reload_def bread_def reload_def by (simp split del: if_split add: if_distrib [of "\<lambda>f. f b"]) auto
  ultimately obtain b1 where b1: "check_config_file_reload False due sg env b = (Inr (), b1)" "synced base p b1"
    using assms(2) by (auto simp: bret_def dest!: worksD)
  have "works (synced base p) write_current_health" by (rule synced_works) (rule files_steady)
  with b1 assms(2) show ?thesis
    by (auto simp: run_turn_def bread_def bwhen_def bret_def bseq_def bbind_def dest!: worksD)
qed

lemma surround_ready:
  assumes "settled base p b" "sm_inv (br_state b)" "keys_valid (br_state b)" "pp_inv (br_parser b)"
    and "\<forall>e. Some e \<notin> set (su_send_faults s)"
  shows "ready base p (surround s b)"
  using assms by (simp add: ready_def settled_def surround_def)

lemma step_synced:
  assumes "synced base p b" "orderly so"
  shows "synced base p (step so b)"
proof -
  obtain s oc where so: "so = (s, oc)" by (cases so)
  have calm: "\<forall>e. Some e \<notin> set (su_send_faults s)" using assms(2) by (cases oc) (simp_all add: so)
  then have b: "synced base p (surround s b)"
    using assms(1) by (simp add: synced_def steady_def settled_def surround_def)
  have "\<exists>r b'. handle oc (surround s b) = (Inr r, b') \<and> synced base p b'"
  proof (cases oc)
    case MqttUp
    then show ?thesis using mqtt_up_syncs [OF synced_ready [OF b]] by blast
  next
    case (Turn due sg env)
    have "br_files (surround s b) = su_files s" by (simp add: surround_def)
    then show ?thesis unfolding Turn using assms(2) by (intro turn_synced b) (simp add: so Turn)
  next
    case (MqttMessage topic raw)
    then show ?thesis using worksD [OF on_mqtt_message_synced b] by simp
  next
    case (MochadLine l)
    then show ?thesis using worksD [OF on_mochad_line_synced b] by simp
  next
    case MochadUp
    show ?thesis unfolding MochadUp by (rule worksD [OF mochad_up_synced b])
  next
    case MochadDown
    show ?thesis unfolding MochadDown by (rule worksD [OF mochad_down_synced b])
  qed (use assms(2) in \<open>simp_all add: so\<close>)
  then show ?thesis by (auto simp: step_def so)
qed

lemma run_synced: "synced base p b \<Longrightarrow> list_all orderly sos \<Longrightarrow> synced base p (run_bridge sos b)"
  unfolding run_bridge_def by (induction sos arbitrary: b) (auto intro: step_synced)

text \<open>A reload changes neither the topics nor the switches of the configuration.\<close>

definition same_settings :: "config \<Rightarrow> discovery_manager \<Rightarrow> bridge \<Rightarrow> bool" where
  "same_settings c g b \<longleftrightarrow> br_discovery b = g \<and> cf_mqtt_base_topic (br_config b) = cf_mqtt_base_topic c \<and>
     cf_discovery_cleanup (br_config b) = cf_discovery_cleanup c \<and>
     cf_enable_maintenance_buttons (br_config b) = cf_enable_maintenance_buttons c"

interpretation settings: framed_property m0 "same_settings c g" for m0 c g
  by unfold_locales (auto simp: same_settings_def frame_view_def)

lemma run_settled:
  assumes "load_config env fs = Inr c" "clean_segment (cf_mqtt_base_topic c) = Inr base"
    and "clean_segment (cf_mqtt_discovery_prefix c) = Inr p" "CHR ''/'' \<notin> set p"
    and "\<not> cf_discovery_cleanup c" "\<not> cf_enable_maintenance_buttons c"
    and "list_all (discoverable \<circ> snd) (br_devices (run_bridge pre (new_bridge c sg env' fs')))"
  shows "settled base p (run_bridge pre (new_bridge c sg env' fs'))"
proof -
  let ?n = "new_bridge c sg env' fs'"
  have "bridge_inv (br_state ?n) ?n \<and> same_settings c (br_discovery ?n) ?n"
    using bridge_inv_new [OF assms(1)] by (simp add: same_settings_def new_bridge_fields)
  from settings.P_run [OF this, of pre]
  have inv: "bridge_inv (br_state ?n) (run_bridge pre ?n)" and sc: "same_settings c (br_discovery ?n) (run_bridge pre ?n)" by simp_all
  have "list_all queueable (br_queued_device_commands (run_bridge pre ?n))"
    using inv by (auto simp: bridge_inv_def list_all_iff may_send_def queueable_def encodable_def)
  with sc assms show ?thesis by (simp add: settled_def same_settings_def new_bridge_fields)
qed

lemma reaches_synced:
  assumes "load_config env fs = Inr c" "clean_segment (cf_mqtt_base_topic c) = Inr base"
    and "clean_segment (cf_mqtt_discovery_prefix c) = Inr p" "CHR ''/'' \<notin> set p"
    and "\<not> cf_discovery_cleanup c" "\<not> cf_enable_maintenance_buttons c"
    and "list_all (discoverable \<circ> snd) (br_devices (run_bridge pre (new_bridge c sg env' fs')))"
    and "orderly (s, MqttUp)" "list_all orderly sos"
  shows "synced base p (run_bridge (pre @ (s, MqttUp) # sos) (new_bridge c sg env' fs'))"
proof -
  let ?n = "new_bridge c sg env' fs'"
  have inv: "bridge_inv (br_state ?n) (run_bridge pre ?n)" by (rule run_inv [OF assms(1)])
  have "ready base p (surround s (run_bridge pre ?n))"
    using inv assms(8) by (intro surround_ready run_settled [OF assms(1-7)]) (simp_all add: bridge_inv_def)
  from mqtt_up_syncs [OF this] have "synced base p (step (s, MqttUp) (run_bridge pre ?n))"
    by (auto simp: step_def simp del: handle.simps)
  from run_synced [OF this assms(9)] show ?thesis by (simp add: run_bridge_def)
qed


lemma demo_settings:
  "case load_config demo_env demo_files of
     Inl _ \<Rightarrow> False
   | Inr c \<Rightarrow> clean_segment (cf_mqtt_base_topic c) = Inr ''x10'' \<and>
       clean_segment (cf_mqtt_discovery_prefix c) = Inr ''homeassistant'' \<and>
       \<not> cf_discovery_cleanup c \<and> \<not> cf_enable_maintenance_buttons c \<and>
       list_all (discoverable \<circ> snd) (allowed_devices c (cf_devices c)) \<and> map fst (allowed_devices c (cf_devices c)) = [''B2'', ''A1'']"
  by code_simp

lemma mqtt_up_keeps_state:
  assumes "ready base p (surround s b)" "sm_inv (br_state b)"
  shows "ds_current_state (dev (br_state (step (s, MqttUp) b)) k) = ds_current_state (dev (br_state b) k)"
proof -
  have "br_state (step (s, MqttUp) b) = snd (sm_mqtt_connect (br_state b))"
    using mqtt_up_syncs [OF assms(1)] by (auto simp: step_def surround_def simp del: handle.simps)
  with mqtt_connect_spec [OF assms(2)] show ?thesis by (auto simp: case_prod_unfold Let_def known_def fun_eq_iff)
qed

text \<open>A session that meets the conditions above, for examples.\<close>

lemma demo_session:
  obtains c where "load_config demo_env demo_files = Inr c"
    "clean_segment (cf_mqtt_base_topic c) = Inr ''x10''" "clean_segment (cf_mqtt_discovery_prefix c) = Inr ''homeassistant''"
    "CHR ''/'' \<notin> set ''homeassistant''" "\<not> cf_discovery_cleanup c" "\<not> cf_enable_maintenance_buttons c"
    "list_all (discoverable \<circ> snd) (br_devices (run_bridge demo_run (new_bridge c None demo_env demo_files)))"
    "orderly (calm, MqttUp)" "list_all orderly []"
    "ds_current_state (dev (br_state (run_bridge demo_run (new_bridge c None demo_env demo_files))) ''A1'') = Some OFF"
proof -
  obtain c where Inr: "load_config demo_env demo_files = Inr c"
    and off: "ds_current_state (dev (br_state (run_bridge demo_run (new_bridge c None demo_env demo_files))) ''A1'') = Some OFF"
    and devs: "br_devices (run_bridge demo_run (new_bridge c None demo_env demo_files)) = allowed_devices c (cf_devices c)"
    by (rule demo_reached)
  note s = demo_settings [unfolded Inr sum.case]
  note c = conjunct1 [OF s] s [THEN conjunct2, THEN conjunct1] s [THEN conjunct2, THEN conjunct2, THEN conjunct1]
    s [THEN conjunct2, THEN conjunct2, THEN conjunct2, THEN conjunct1]
    s [THEN conjunct2, THEN conjunct2, THEN conjunct2, THEN conjunct2, THEN conjunct1]
  show ?thesis
    by (rule that [OF Inr c(1,2) _ c(3,4) _ _ _ off]) (simp_all add: devs c(5) calm_def)
qed


end
