(* ===== verification/BridgeCommands.thy ===== *)
theory BridgeCommands
  imports BridgeBroker
begin

section \<open>A command from MQTT to the radio\<close>

text \<open>
  What becomes of a message on a device's command topic: the path through the routing of
  \<^verbatim>\<open>mqtt_client.py\<close>, \<^verbatim>\<open>_on_mqtt_command\<close>, the state manager and the actions down to the lines written to mochad.
\<close>

subsection \<open>Publishing leaves the wire alone\<close>

definition same_wire :: "bridge \<Rightarrow> bridge \<Rightarrow> bool" where
  "same_wire b0 b \<longleftrightarrow> br_sent b = br_sent b0 \<and> br_queued_device_commands b = br_queued_device_commands b0 \<and>
     br_dropped_device_commands b = br_dropped_device_commands b0 \<and> br_mochad_connected b = br_mochad_connected b0 \<and>
     br_diagnostics b = br_diagnostics b0 \<and> (\<forall>a. device_of b a = device_of b0 a)"

interpretation wire: kept_property "same_wire b0" for b0 .

lemma mqtt_out_wire: "keeps (same_wire b0) (mqtt_out r)"
  unfolding mqtt_out_def
  by (intro wire.keeps_control wire.keeps_bmodify) (simp add: same_wire_def device_of_def)

lemma device_config_wire: "keeps (same_wire b0) (bridge_device_config a)"
  unfolding keeps_def
proof (intro allI impI)
  fix b assume b: "same_wire b0 b"
  obtain ds where "bridge_device_config a b = (Inr (device_of b a), b\<lparr>br_devices := ds\<rparr>)"
      "\<forall>a. device_of (b\<lparr>br_devices := ds\<rparr>) a = device_of b a"
    using device_config_effect by blast
  with b show "same_wire b0 (snd (bridge_device_config a b))" by (simp add: same_wire_def)
qed

lemma publishing_wire:
  assumes "is_mqtt_publish x"
  shows "keeps (same_wire b0) (execute_action x)"
proof -
  have "keeps (same_wire b0) (perform x)"
    using assms by (cases x) (auto simp: publish_messages_def intro!: wire.keeps_control mqtt_out_wire device_config_wire)
  then show ?thesis
    unfolding execute_action_def
    by (intro wire.keeps_bread) (auto intro: wire.keeps_bmodify simp: same_wire_def device_of_def)
qed

lemma publications_wire: "list_all is_mqtt_publish acts \<Longrightarrow> keeps (same_wire b0) (execute_actions acts)"
  by (rule wire.keeps_execute_actions) (auto simp: list_all_iff intro: publishing_wire)

lemma same_wire_refl: "same_wire b b"
  by (simp add: same_wire_def)

subsection \<open>The actions of a request\<close>

definition takes_command :: "state_manager \<Rightarrow> string \<Rightarrow> command \<Rightarrow> bool" where
  "takes_command m a c \<longleftrightarrow> address_allowed m a \<and> c \<in> dc_supported_commands (config_of m (canon a))"

lemma config_of_ensure [simp]: "config_of (ensure_device a m) = config_of m"
  by (auto simp: fun_eq_iff config_of_def ensure_device_def Let_def split: option.splits)

lemma request_actions:
  assumes "self_named m"
  shows "if takes_command m a c
    then \<exists>pre post. fst (optimistic_update now a c m) = pre @ SendDeviceCommandAction (canon a) c # post \<and>
      list_all is_mqtt_publish pre \<and> list_all is_mqtt_publish post
    else fst (optimistic_update now a c m) = []"
proof -
  let ?m = "ensure_device a m"
  have name: "ds_address (dev ?m (canon a)) = canon a" using assms by simp
  have pubs: "list_all is_mqtt_publish (fst (discovery_actions k m'))" "list_all is_mqtt_publish (fst (set_device_state k c now r cp m'))"
    for k m' r cp by (simp_all add: discovery_actions_def set_device_state_def Let_def)
  show ?thesis
  proof (cases "takes_command m a c")
    case True
    let ?m1 = "stat (\<lambda>s. s\<lparr>st_commands_sent := Suc (st_commands_sent s)\<rparr>)
      (put_dev (canon a) (\<lambda>s. s\<lparr>ds_pending_command := Some c\<rparr>) ?m)"
    have "fst (optimistic_update now a c m) = fst (discovery_actions (canon a) ?m1) @ SendDeviceCommandAction (canon a) c #
        (if \<not> dc_stateful (config_of m (canon a))
         then [PublishCommandEventAction (canon a) (command_event_payload now (canon a) c) False]
         else PublishAttributesAction (canon a) [(''last_command_sent'', JStr (command_name c)),
                (''optimistic'', JBool (sm_optimistic_updates (snd (discovery_actions (canon a) ?m1))))] True #
              (if sm_optimistic_updates (snd (discovery_actions (canon a) ?m1))
               then fst (set_device_state (canon a) c now True False (snd (discovery_actions (canon a) ?m1))) else []))"
      using True by (simp add: optimistic_update_def takes_command_def Let_def name case_prod_unfold)
    with pubs True show ?thesis by (auto intro!: exI)
  next
    case False
    then show ?thesis by (auto simp: optimistic_update_def takes_command_def Let_def name)
  qed
qed

subsection \<open>Their effect\<close>

lemma execute_publications_append:
  "list_all is_mqtt_publish xs \<Longrightarrow> execute_actions xs b = (Inr u, b') \<Longrightarrow> execute_actions (xs @ ys) b = execute_actions ys b'"
proof (induction xs arbitrary: b)
  case (Cons x xs)
  have "\<not> stops_on_failure x" using Cons.prems(1) by (cases x) simp_all
  with Cons show ?case by (auto split: prod.splits sum.splits if_splits)
qed simp

definition command_effect :: "bridge \<Rightarrow> address \<times> command \<Rightarrow> bridge \<Rightarrow> bool" where
  "command_effect b x b' \<longleftrightarrow>
     (let q = br_queued_device_commands b in
      if device_command_queue_reason b = None
      then br_sent b' = br_sent b @ radio_lines b x \<and> br_queued_device_commands b' = q
      else br_sent b' = br_sent b \<and> br_queued_device_commands b' = (if 100 \<le> length q then tl q else q) @ [x])"

lemma same_wire_reason: "same_wire b b' \<Longrightarrow> device_command_queue_reason b' = device_command_queue_reason b"
  by (simp add: same_wire_def device_command_queue_reason_def)

lemma command_effect_wire:
  assumes "same_wire b b1" "command_effect b1 x b2" "same_wire b2 b'"
  shows "command_effect b x b'"
proof -
  have "radio_lines b1 = radio_lines b" by (rule radio_lines_cong) (use assms(1) in \<open>simp add: same_wire_def\<close>)
  then show ?thesis
    using assms same_wire_reason [OF assms(1)] by (simp add: command_effect_def same_wire_def Let_def)
qed

lemma send_action_effect:
  assumes "steady base p m pp up v av b" "queueable x"
  shows "\<exists>b'. execute_action (SendDeviceCommandAction (fst x) (snd x)) b = (Inr (), b') \<and> command_effect b x b'"
proof (cases "device_command_queue_reason b")
  case None
  then have "br_mochad_connected b" by (auto simp: device_command_queue_reason_def Let_def split: if_splits)
  from send_device_command_effect [OF this assms(2)] obtain k r fs ds where
    eff: "send_device_command x b = (r, b\<lparr>br_devices := ds, br_sent := br_sent b @ take k (radio_lines b x), br_send_faults := fs\<rparr>)"
      "r = Inr () \<and> length (radio_lines b x) \<le> k \<or>
       k < length (radio_lines b x) \<and> (\<exists>e. r = Inl (OSError e) \<and> Some e \<in> set (br_send_faults b))" by blast
  have "\<forall>e. Some e \<notin> set (br_send_faults b)" using assms(1) by (simp add: steady_def)
  with eff(2) have r: "r = Inr ()" "length (radio_lines b x) \<le> k" by auto
  have "execute_action (SendDeviceCommandAction (fst x) (snd x)) b = send_device_command x b"
    by (simp add: execute_action_def bread_def None)
  with eff(1) r None show ?thesis by (simp add: command_effect_def)
next
  case (Some reason)
  have "can_report b" using topics_ok(1) [OF steady_base [OF assms(1)]] by (auto simp: can_report_def)
  from queue_device_command_effect [OF this, of x] obtain ms' where
    "queue_device_command x b = (Inr (), (enqueue x b)\<lparr>br_published := br_published b @ ms'\<rparr>)" by blast
  moreover have "execute_action (SendDeviceCommandAction (fst x) (snd x)) b = queue_device_command x b"
    by (simp add: execute_action_def bread_def Some)
  ultimately show ?thesis
    using Some by (simp add: command_effect_def enqueue_def Let_def MAX_QUEUED_DEVICE_COMMANDS_def)
qed

lemma request_effect:
  assumes "synced base p b" "valid_address a" "c \<in> {ON, OFF, DIM, BRIGHT}"
  shows "\<exists>b'. with_state (optimistic_update now a c) b = (Inr (), b') \<and>
     (if takes_command (br_state b) a c then command_effect b (a, c) b' else same_wire b b')"
proof -
  let ?m = "br_state b" and ?r = "optimistic_update now a c (br_state b)" and ?up = "br_mochad_connected b"
  let ?b = "b\<lparr>br_state := snd ?r\<rparr>"
  have inv: "sm_inv ?m" "keys_valid ?m" using assms(1) by (simp_all add: synced_def)
  have call: "call_ok (Request now a c)" using assms(2,3) valid_address_canon by (auto simp: encodable_def)
  from with_state_synced [OF assms(1) call] obtain b' where
    b': "with_state (optimistic_update now a c) b = (Inr (), b')" by auto
  then have run: "execute_actions (fst ?r) ?b = (Inr (), b')" by (simp add: with_state_def case_prod_unfold Let_def)
  have wire: "same_wire b ?b" by (simp add: same_wire_def device_of_def)
  note acts = request_actions [OF sm_inv_self_named [OF inv(1)], of a c now]
  show ?thesis
  proof (cases "takes_command ?m a c")
    case False
    with acts run wire b' show ?thesis by simp
  next
    case True
    with acts valid_address_canon [OF assms(2)] obtain pre post where
      split: "fst ?r = pre @ SendDeviceCommandAction a c # post" "list_all is_mqtt_publish pre" "list_all is_mqtt_publish post"
      by auto
    have "steady base p (snd ?r) (br_parser b) ?up (lg_view (ledger_of ?m)) (Some (sm_available ?m)) ?b"
      using assms(1) by (simp add: synced_def steady_def settled_def ledger_of_def)
    moreover have "list_all (act_fits ?up) pre"
      using exec_fits [OF inv call, of ?up] split(1) by simp
    ultimately obtain b1 where b1: "execute_actions pre ?b = (Inr (), b1)"
        "steady base p (snd ?r) (br_parser b) ?up (lg_view (fold book pre (ledger_of ?m))) (fold book_av pre (Some (sm_available ?m))) b1"
      using execute_actions_steady by blast
    have w1: "same_wire b b1" by (rule keepsD [OF publications_wire [OF split(2)] wire b1(1)])
    have "queueable (a, c)" using assms(2,3) by (simp add: queueable_def)
    from send_action_effect [OF b1(2) this] obtain b2 where
      b2: "execute_action (SendDeviceCommandAction a c) b1 = (Inr (), b2)" "command_effect b1 (a, c) b2" by auto
    have "execute_actions post b2 = (Inr (), b')"
      using run execute_publications_append [OF split(2) b1(1)] b2(1) by (simp add: split(1))
    then have "same_wire b2 b'" by (rule keepsD [OF publications_wire [OF split(3)] same_wire_refl])
    with command_effect_wire [OF w1 b2(2)] b' True show ?thesis by simp
  qed
qed

lemma command_payloads: "parse_command_payload payload = Some c \<Longrightarrow> c \<in> {ON, OFF, DIM, BRIGHT}"
  by (auto simp: parse_command_payload_def COMMAND_PAYLOADS_def split: if_splits)

lemma on_mqtt_command_effect:
  assumes "synced base p b" "parse_command_topic t (cf_mqtt_base_topic (br_config b)) = Inr a" "valid_address a"
    and "parse_command_payload payload = Some c"
  shows "\<exists>b'. on_mqtt_command a payload t b = (Inr (), b') \<and>
     (if c \<in> dc_supported_commands (device_of b a) \<and> takes_command (br_state b) a c
      then command_effect b (a, c) b' else same_wire b b')"
proof -
  have a: "canon a = a" "normalize_address a = Inr a"
    using assms(3) valid_address_canon validation.norm_Inr_iff by blast+
  have c: "c \<in> {ON, OFF, DIM, BRIGHT}" by (rule command_payloads [OF assms(4)])
  then have enc: "\<exists>l. encode_rf_command a c = Inr l" using assms(3) a(1) by (auto simp: encode_rf_command_spec encodable_def)
  obtain ds where cfg: "bridge_device_config a b = (Inr (device_of b a), b\<lparr>br_devices := ds\<rparr>)"
      "\<forall>a. device_of (b\<lparr>br_devices := ds\<rparr>) a = device_of b a"
    using device_config_effect by blast
  let ?b = "b\<lparr>br_devices := ds\<rparr>"
  have wire: "same_wire b ?b" using cfg(2) by (simp add: same_wire_def)
  have "synced base p ?b" using worksD [OF synced_valid_config assms(1), of a] assms(3) a(1) cfg(1) by auto
  from request_effect [OF this assms(3) c, of "br_now b"] obtain b' where
    b': "with_state (optimistic_update (br_now b) a c) ?b = (Inr (), b')"
      "if takes_command (br_state b) a c then command_effect ?b (a, c) b' else same_wire ?b b'" by auto
  have run: "on_mqtt_command a payload t b =
      (if c \<in> dc_supported_commands (device_of b a) then (Inr (), b') else (Inr (), ?b))"
    using assms(2,4) a(2) enc b'(1) cfg(1) by (auto simp: on_mqtt_command_def bread_def bbind_def bret_def)
  have trans: "same_wire b b'" if "same_wire ?b b'" using wire that by (simp add: same_wire_def)
  show ?thesis
    unfolding run using b'(2) wire trans command_effect_wire [OF wire _ same_wire_refl] by (auto split: if_splits)
qed

text \<open>
  C2. From Home Assistant to the radio.  In any run of a bridge as in the claim on the broker, with MQTT
  connected and a base topic of one level, a message with a command word on a device's command topic is handled without an
  exception, and: a command for a house code that is not allowed, or that the device does not support by
  the bridge's table or the state manager's, changes neither what is sent nor the queue; any other command is written to mochad
  at once, as often as the device's configuration says, when mochad is ready; and otherwise it waits last in
  the queue, which gives up its oldest entry when it holds a hundred.
\<close>

theorem mqtt_command_sent_or_queued:
  assumes "load_config env fs = Inr c" "clean_segment (cf_mqtt_base_topic c) = Inr base" "CHR ''/'' \<notin> set base"
    and "clean_segment (cf_mqtt_discovery_prefix c) = Inr p" "CHR ''/'' \<notin> set p"
    and "\<not> cf_discovery_cleanup c" "\<not> cf_enable_maintenance_buttons c"
    and "list_all (discoverable \<circ> snd) (br_devices (run_bridge pre (new_bridge c sg env' fs')))"
    and "orderly (s, MqttUp)" "list_all orderly sos"
    and "b = run_bridge (pre @ (s, MqttUp) # sos) (new_bridge c sg env' fs')"
    and "topic_command a (cf_mqtt_base_topic (br_config b)) = Inr t" "parse_command_payload (strip raw) = Some cmd"
  shows "\<exists>b'. handle (MqttMessage t raw) b = (Inr (), b') \<and>
     (let q = br_queued_device_commands b in
      if \<not> address_allowed (br_state b) (canon a) \<or> cmd \<notin> dc_supported_commands (device_of b (canon a)) \<or>
         cmd \<notin> dc_supported_commands (config_of (br_state b) (canon a))
      then br_sent b' = br_sent b \<and> br_queued_device_commands b' = q
      else if device_command_queue_reason b = None
      then br_sent b' = br_sent b @
             replicate (nat (if cmd \<in> {ON, OFF} then dc_command_repeats (device_of b (canon a)) else 1))
               (''rf '' @ canon a @ '' '' @ lower (command_name cmd) @ [CHR 0x0A]) \<and>
           br_queued_device_commands b' = q
      else br_sent b' = br_sent b \<and>
           br_queued_device_commands b' = (if 100 \<le> length q then tl q else q) @ [(canon a, cmd)])"
proof -
  let ?base = "cf_mqtt_base_topic (br_config b)"
  have synced: "synced base p b" unfolding assms(11) by (rule reaches_synced [OF assms(1,2,4-10)])
  then have b: "clean_segment ?base = Inr base" by (simp add: synced_def steady_def settled_def)
  then have slash: "CHR ''/'' \<notin> set (strip_by is_slash (strip ?base))" using assms(3) by (simp add: clean_segment_Inr)
  from topic_command_parts [OF assms(12) slash] obtain b0 where
    parts: "clean_segment ?base = Inr b0" "valid_address (canon a)" "topic_parts t = [b0, canon a, ''command'']" by blast
  have topic: "parse_command_topic t ?base = Inr (canon a)"
    unfolding parse_command_topic_Inr
  proof (intro exI conjI)
    show "topic_address (canon a) = Inr (canon a)"
      by (simp only: topic_address_spec valid_address_canon [OF parts(2)] parts(2) if_True)
  qed (rule parts)+
  have "on_message ?base t raw = CommandMessage (canon a) (strip raw) t"
    by (rule on_message_routes [OF slash, THEN conjunct1, THEN mp, OF assms(12)])
  then have "handle (MqttMessage t raw) b = on_mqtt_command (canon a) (strip raw) t b"
    by (simp only: handle.simps on_mqtt_message_def bread_def mqtt_route.case)
  with on_mqtt_command_effect [OF synced topic parts(2) assms(13)] obtain b' where
    "handle (MqttMessage t raw) b = (Inr (), b')"
    "if cmd \<in> dc_supported_commands (device_of b (canon a)) \<and> takes_command (br_state b) (canon a) cmd
      then command_effect b (canon a, cmd) b' else same_wire b b'" by auto
  then show ?thesis
    using valid_address_canon [OF parts(2)]
    by (intro exI [of _ b']) (auto simp: takes_command_def command_effect_def same_wire_def radio_lines_def Let_def split: if_splits)
qed

theorem mqtt_command_sent_or_queued_witness:
  "\<exists>c b b'. load_config demo_env demo_files = Inr c \<and>
     b = run_bridge (demo_run @ [(calm, MqttUp)]) (new_bridge c None demo_env demo_files) \<and>
     handle (MqttMessage ''x10/A1/command'' '' on '') b = (Inr (), b') \<and>
     (br_queued_device_commands b' = br_queued_device_commands b \<or> br_sent b' = br_sent b)"
proof -
  obtain c where c: "load_config demo_env demo_files = Inr c"
      "clean_segment (cf_mqtt_base_topic c) = Inr ''x10''" "clean_segment (cf_mqtt_discovery_prefix c) = Inr ''homeassistant''"
      "CHR ''/'' \<notin> set ''homeassistant''" "\<not> cf_discovery_cleanup c" "\<not> cf_enable_maintenance_buttons c"
      "list_all (discoverable \<circ> snd) (br_devices (run_bridge demo_run (new_bridge c None demo_env demo_files)))"
      "orderly (calm, MqttUp)" "list_all orderly []"
    by (rule demo_session)
  let ?b = "run_bridge (demo_run @ (calm, MqttUp) # []) (new_bridge c None demo_env demo_files)"
  have slash: "CHR ''/'' \<notin> set ''x10''" by simp
  have "synced ''x10'' ''homeassistant'' ?b" by (rule reaches_synced [OF c])
  then have "clean_segment (cf_mqtt_base_topic (br_config ?b)) = Inr ''x10''" by (simp add: synced_def steady_def settled_def)
  moreover have "clean_segment ''x10'' = Inr ''x10''" "topic_command ''A1'' ''x10'' = Inr ''x10/A1/command''" by code_simp+
  ultimately have t: "topic_command ''A1'' (cf_mqtt_base_topic (br_config ?b)) = Inr ''x10/A1/command''"
    by (simp add: topic_command_def device_topic_def)
  have payload: "parse_command_payload (strip '' on '') = Some ON" by code_simp
  from mqtt_command_sent_or_queued [OF c(1,2) slash c(3-9) refl t payload]
  obtain b' where b': "handle (MqttMessage ''x10/A1/command'' '' on '') ?b = (Inr (), b')"
    "br_queued_device_commands b' = br_queued_device_commands ?b \<or> br_sent b' = br_sent ?b"
    unfolding Let_def by (auto simp del: handle.simps split: if_splits)
  show ?thesis by (intro exI [of _ c] exI [of _ ?b] exI [of _ b'] conjI c(1) refl b')
qed

end
