(* ===== verification/BridgeEvents.thy ===== *)
theory BridgeEvents
  imports BridgeCommands
begin

section \<open>An event from mochad to the broker\<close>

text \<open>
  What becomes of a line mochad prints for a device: the path through \<^verbatim>\<open>_on_mochad_line\<close>, the parser, the
  state manager and the actions up to the retained message that Home Assistant reads.
\<close>

subsection \<open>The line\<close>

lemma event_line_plain:
  assumes "timestamp_text ts" "command_text cmd"
  shows "strip_by is_crlf (event_line ts d t kw a cmd) = event_line ts d t kw a cmd"
    and "\<not> startswith (event_line ts d t kw a cmd) ''{''"
proof -
  let ?l = "event_line ts d t kw a cmd"
  obtain x rest where ts: "ts = x # rest" "is_digit x" using assms(1) by (rule timestamp_textE) auto
  have "hd ?l = x" "last ?l = last cmd" "?l \<noteq> []"
    using ts assms(2) by (simp_all add: event_line_def command_text_def)
  moreover have "\<not> is_crlf x" "x \<noteq> CHR ''{''" using ts(2) by (auto simp: is_crlf_def is_digit_code)
  moreover have "\<not> is_crlf (last cmd)" using assms(2) by (auto simp: command_text_def is_crlf_def is_space_code)
  ultimately show "strip_by is_crlf ?l = ?l" by (intro strip_by_id) simp
  show "\<not> startswith ?l ''{''" using \<open>x \<noteq> CHR ''{''\<close> ts(1) by (simp add: event_line_def startswith_def)
qed

text \<open>The words mochad prints for the commands that carry a state, and the state that is published.\<close>

definition state_words :: "(string \<times> string) list" where
  "state_words = [(''On'', ''ON''), (''Off'', ''OFF''), (''Dim'', ''DIM''), (''Bright'', ''ON'')]"

lemma state_words_ok:
  "list_all (\<lambda>(w, s). command_text w \<and> command_of_token (normalize_token w) \<in> STATE_COMMANDS \<and>
     command_name (authoritative_state (command_of_token (normalize_token w))) = s) state_words"
  by code_simp

subsection \<open>Its effect\<close>

lemma event_line_handled:
  assumes "timestamp_text ts" "d \<in> {''Tx'', ''Rx''}" "t \<in> {''RF'', ''PL''}" "valid_address a" "command_text cmd"
    and "synced base p b"
  shows "\<exists>b' e. handle (MochadLine (event_line ts d t ''HouseUnit:'' a cmd)) b = (Inr (), b') \<and> synced base p b' \<and>
     de_address e = a \<and> de_command e = command_of_token (normalize_token cmd) \<and>
     br_state b' = snd (apply_device_event e (br_state b))"
proof -
  let ?l = "event_line ts d t ''HouseUnit:'' a cmd"
  let ?e = "\<lparr>de_timestamp = br_now b, de_direction = direction_of d, de_transport = transport_of t,
     de_command = command_of_token (normalize_token cmd), de_address = a\<rparr>"
  note plain = event_line_plain [OF assms(1,5), of d t "''HouseUnit:''" a]
  obtain pp where parsed: "parse_line (br_now b) ?l (br_parser b) = (Inr (Some (DeviceEvent ?e)), pp)"
    using device_line_parsed [OF assms(1-5)] by blast
  have inv: "pp_inv (br_parser b)" using assms(6) by (simp add: synced_def)
  have ok: "pp_inv pp" "event_ok (DeviceEvent ?e)" using parse_line_total [OF inv, of "br_now b" ?l] parsed by auto
  have "synced base p (b\<lparr>br_parser := pp\<rparr>)" using assms(6) ok(1) by (simp add: synced_def steady_def settled_def)
  from with_state_synced [OF this, of "Apply (br_now b) (Some (DeviceEvent ?e))"] ok(2) obtain b' where
    b': "with_state (sm_apply (br_now b) (Some (DeviceEvent ?e))) (b\<lparr>br_parser := pp\<rparr>) = (Inr (), b')"
      "synced base p b'" "br_state b' = snd (apply_device_event ?e (br_state b))" by auto
  have "handle (MochadLine ?l) b = (Inr (), b')"
    using plain parsed b'(1)
    by (simp add: on_mochad_line_def Let_def handle_mochad_diagnostic_line_def bbind_def bret_def bread_def bseq_def bmodify_def
        bresult_def del: sm_apply.simps)
  with b'(2,3) show ?thesis by (intro exI [of _ b'] exI [of _ ?e]) simp
qed

text \<open>
  C3. From the radio to Home Assistant.  In any run of a bridge as in the claim on the broker, with MQTT
  connected: when mochad prints that a device of an allowed house was switched on or off, dimmed or
  brightened, on either transport and in either direction, the line is handled without an exception and
  afterwards the retained message on that device's state topic is the new state (\<^verbatim>\<open>ON\<close> for brightened),
  if the device keeps state.  The states known of all other devices stay as they were.
\<close>

theorem device_line_shown:
  assumes "load_config env fs = Inr c" "clean_segment (cf_mqtt_base_topic c) = Inr base"
    and "clean_segment (cf_mqtt_discovery_prefix c) = Inr p" "CHR ''/'' \<notin> set p"
    and "\<not> cf_discovery_cleanup c" "\<not> cf_enable_maintenance_buttons c"
    and "list_all (discoverable \<circ> snd) (br_devices (run_bridge pre (new_bridge c sg env' fs')))"
    and "orderly (s, MqttUp)" "list_all orderly sos"
    and "b = run_bridge (pre @ (s, MqttUp) # sos) (new_bridge c sg env' fs')"
    and "timestamp_text ts" "d \<in> {''Tx'', ''Rx''}" "t \<in> {''RF'', ''PL''}" "valid_address a"
    and "(wd, shown) \<in> set [(''On'', ''ON''), (''Off'', ''OFF''), (''Dim'', ''DIM''), (''Bright'', ''ON'')]"
    and "address_allowed (br_state b) a" "dc_stateful (config_of (br_state b) a)"
  shows "\<exists>b' topic. handle (MochadLine (event_line ts d t ''HouseUnit:'' a wd)) b = (Inr (), b') \<and>
     topic_state a (cf_mqtt_base_topic c) = Inr topic \<and> retained (br_published b') topic = Some shown \<and>
     (\<forall>k. k \<noteq> a \<longrightarrow> ds_current_state (dev (br_state b') k) = ds_current_state (dev (br_state b) k))"
proof -
  note wd = bspec [OF state_words_ok [unfolded list_all_iff] assms(15) [folded state_words_def], unfolded prod.case]
  note w = conjunct1 [OF wd] conjunct1 [OF conjunct2 [OF wd]] conjunct2 [OF conjunct2 [OF wd]]
  have synced: "synced base p b" unfolding assms(10) by (rule reaches_synced [OF assms(1-9)])
  then have inv: "sm_inv (br_state b)" by (simp add: synced_def)
  obtain b' e where b': "handle (MochadLine (event_line ts d t ''HouseUnit:'' a wd)) b = (Inr (), b')" "synced base p b'"
      "de_address e = a" "de_command e = command_of_token (normalize_token wd)"
      "br_state b' = snd (apply_device_event e (br_state b))"
    using event_line_handled [OF assms(11-14) w(1) synced] by blast
  have a: "canon a = a" using assms(14) by (rule valid_address_canon)
  have known: "known (br_state b') = (known (br_state b))(a := Some (authoritative_state (de_command e)))"
    using device_event_spec [OF inv, of e] assms(16,17) w(2) b'(3-5) a by (simp add: case_prod_unfold Let_def)
  have view: "shows_view base (known (br_state b')) (Some (sm_available (br_state b'))) (br_published b')"
    using b'(2) by (simp add: synced_def steady_def)
  have "retained (br_published b') (state_topic base a) = Some shown"
    using view unfolding known shows_view_def b'(4) w(3) [symmetric] by simp
  moreover have "topic_state a (cf_mqtt_base_topic c) = Inr (state_topic base a)"
    using topics_ok(4) [OF assms(2)] assms(14) by blast
  moreover have "ds_current_state (dev (br_state b') k) = ds_current_state (dev (br_state b) k)" if "k \<noteq> a" for k
    using fun_cong [OF known, of k] that by (simp add: known_def)
  ultimately show ?thesis using b'(1) by blast
qed

lemma demo_lamp:
  "case load_config demo_env demo_files of
     Inl _ \<Rightarrow> False
   | Inr c \<Rightarrow> (let m = br_state (new_bridge c None demo_env demo_files) in
       address_allowed m ''A1'' \<and> dc_stateful (config_of m ''A1''))"
  by code_simp

theorem device_line_shown_witness:
  "\<exists>c b' topic. load_config demo_env demo_files = Inr c \<and>
     handle (MochadLine (event_line ''07/11 12:00:02'' ''Rx'' ''RF'' ''HouseUnit:'' ''A1'' ''Bright''))
       (run_bridge (demo_run @ [(calm, MqttUp)]) (new_bridge c None demo_env demo_files)) = (Inr (), b') \<and>
     topic_state ''A1'' (cf_mqtt_base_topic c) = Inr topic \<and> retained (br_published b') topic = Some ''ON''"
proof -
  obtain c where c: "load_config demo_env demo_files = Inr c"
      "clean_segment (cf_mqtt_base_topic c) = Inr ''x10''" "clean_segment (cf_mqtt_discovery_prefix c) = Inr ''homeassistant''"
      "CHR ''/'' \<notin> set ''homeassistant''" "\<not> cf_discovery_cleanup c" "\<not> cf_enable_maintenance_buttons c"
      "list_all (discoverable \<circ> snd) (br_devices (run_bridge demo_run (new_bridge c None demo_env demo_files)))"
      "orderly (calm, MqttUp)" "list_all orderly []"
    by (rule demo_session)
  let ?n = "new_bridge c None demo_env demo_files"
  let ?b = "run_bridge (demo_run @ (calm, MqttUp) # []) ?n"
  have "same_config (br_state ?n) (br_state ?b)" using run_inv [OF c(1)] by (simp add: bridge_inv_def)
  note reads = same_config_reads [OF this]
  have lamp: "address_allowed (br_state ?b) ''A1''" "dc_stateful (config_of (br_state ?b) ''A1'')"
    using demo_lamp [unfolded c(1) sum.case Let_def] unfolding reads by (rule conjunct1, rule conjunct2)
  have h: "timestamp_text ''07/11 12:00:02''" "''Rx'' \<in> {''Tx'', ''Rx''}" "''RF'' \<in> {''RF'', ''PL''}" "valid_address ''A1''"
    "(''Bright'', ''ON'') \<in> set [(''On'', ''ON''), (''Off'', ''OFF''), (''Dim'', ''DIM''), (''Bright'', ''ON'')]" by code_simp+
  from device_line_shown [OF c refl h lamp] obtain b' topic where
    "handle (MochadLine (event_line ''07/11 12:00:02'' ''Rx'' ''RF'' ''HouseUnit:'' ''A1'' ''Bright'')) ?b = (Inr (), b')"
    "topic_state ''A1'' (cf_mqtt_base_topic c) = Inr topic" "retained (br_published b') topic = Some ''ON''"
    by (elim exE conjE)
  with c(1) show ?thesis by (intro exI conjI)
qed

end
