(* ===== verification/HealthCheck.thy ===== *)
theory HealthCheck
  imports Complex_Main Bridge
begin

section \<open>The health check of the container (\<^verbatim>\<open>healthcheck.py\<close>)\<close>

text \<open>
  The script the container engine runs beside the bridge: it reads the heartbeat the bridge writes.
  \<open>now\<close> is \<^verbatim>\<open>time.time()\<close>.  The difference of the two times is computed exactly; the rounding of
  binary floating point, far below a microsecond at present times, is left out.
\<close>

subsection \<open>Definitions\<close>

definition HC_DEFAULT_HEALTH_FILE :: string where
  "HC_DEFAULT_HEALTH_FILE = ''/config/mqtt-mochad-bridge.health''"

definition DEFAULT_MAX_AGE_SECONDS :: string where
  "DEFAULT_MAX_AGE_SECONDS = ''30.0''"

definition decimal_value :: "bool \<Rightarrow> nat \<Rightarrow> int \<Rightarrow> rat" where
  "decimal_value neg m e =
     (if neg then - 1 else 1) * (if 0 \<le> e then of_nat m * 10 ^ nat e else of_nat m / 10 ^ nat (- e))"

text \<open>\<^verbatim>\<open>now - timestamp > max_age\<close>, with the infinities and not-a-number.\<close>

fun older_than :: "rat \<Rightarrow> py_float \<Rightarrow> py_float \<Rightarrow> bool" where
  "older_than now NaN mx = False"
| "older_than now ts NaN = False"
| "older_than now (Infinite neg) mx = (neg \<and> mx \<noteq> Infinite False)"
| "older_than now (Decimal neg m e) (Infinite neg') = neg'"
| "older_than now (Decimal neg m e) (Decimal neg' m' e') =
     (now - decimal_value neg m e > decimal_value neg' m' e')"

text \<open>The exit code, or the exception that leaves the script.\<close>

definition healthcheck_main :: "environment \<Rightarrow> rat \<Rightarrow> file_system \<Rightarrow> nat result" where
  "healthcheck_main env now fs =
     (let health_file = (case env ''BRIDGE_HEALTH_FILE'' of Some p \<Rightarrow> p | None \<Rightarrow> HC_DEFAULT_HEALTH_FILE);
          age_text = (case env ''BRIDGE_HEALTH_MAX_AGE_SECONDS'' of Some t \<Rightarrow> t | None \<Rightarrow> DEFAULT_MAX_AGE_SECONDS) in
      case py_float_of age_text of
        None \<Rightarrow> Inl (ValueError (''could not convert string to float: '' @ py_repr_str age_text))
      | Some max_age \<Rightarrow>
          (case fs_read health_file fs of
             Inl _ \<Rightarrow> Inr 1
           | Inr raw \<Rightarrow>
               (case split_ws (strip raw) of
                  [status, timestamp] \<Rightarrow>
                    if status \<notin> {''starting'', ''running''} then Inr 1
                    else (case py_float_of timestamp of
                      None \<Rightarrow> Inr 1
                    | Some ts \<Rightarrow> if older_than now ts max_age then Inr 1 else Inr 0)
                | _ \<Rightarrow> Inr 1)))"

subsection \<open>The heartbeat is read back\<close>

text \<open>\<^verbatim>\<open>f"{t:.3f}"\<close> for a time of \<open>n\<close> milliseconds.\<close>

definition millis_text :: "nat \<Rightarrow> string" where
  "millis_text n = nat_str (n div 1000) @ ''.'' @
     [digit_char (n div 100 mod 10), digit_char (n div 10 mod 10), digit_char (n mod 10)]"

lemma millis_chars: "c \<in> set (millis_text n) \<Longrightarrow> is_digit c \<or> c = CHR ''.''"
  using nat_str_digits [of "n div 1000"] by (auto simp: millis_text_def is_digit_digit_char)

lemma lower_char_digit: "is_digit c \<Longrightarrow> lower_char c = c"
  by (auto simp: char_eq_code lower_char_code is_digit_code)

lemma millis_digits: "digits_val (nat_str (n div 1000) @
     [digit_char (n div 100 mod 10), digit_char (n div 10 mod 10), digit_char (n mod 10)]) = n"
proof -
  have e: "10 * (n div 10) + n mod 10 = n" "10 * (n div 100) + n div 10 mod 10 = n div 10"
    "10 * (n div 1000) + n div 100 mod 10 = n div 100"
    using mult_div_mod_eq [of 10 n] mult_div_mod_eq [of 10 "n div 10"] mult_div_mod_eq [of 10 "n div 100"]
    by (simp_all only: div_mult2_eq [symmetric]) simp_all
  have "digits_val (((nat_str (n div 1000) @ [digit_char (n div 100 mod 10)]) @ [digit_char (n div 10 mod 10)]) @ [digit_char (n mod 10)]) = n"
    unfolding digits_val_snoc digits_val_nat_str digit_val_digit_char mod_mod_trivial
    by (simp only: e)
  then show ?thesis by simp
qed

lemma py_float_millis: "py_float_of (millis_text n) = Some (Decimal False n (- 3))"
proof -
  let ?i = "nat_str (n div 1000)"
  let ?f = "[digit_char (n div 100 mod 10), digit_char (n div 10 mod 10), digit_char (n mod 10)]"
  have odd: "\<not> is_digit CHR ''_''" "\<not> is_digit CHR ''e''" "\<not> is_digit CHR ''i''" "\<not> is_digit CHR ''n''"
    "\<not> is_digit CHR ''-''" "\<not> is_digit CHR ''+''" "\<not> is_digit CHR ''.''" by code_simp+
  have dot: "\<not> is_space CHR ''.''" "lower_char CHR ''.'' = CHR ''.''" by code_simp+
  have plain: "\<not> is_space c" "lower_char c = c" "c \<noteq> CHR ''e''" if "c \<in> set (millis_text n)" for c
    using millis_chars [OF that] odd(2) dot by (auto simp: digit_not_space lower_char_digit)
  have norm: "lower (strip (millis_text n)) = millis_text n"
    using plain by (simp add: strip_no_space lower_def map_idI)
  obtain d t where d: "?i = d # t" "is_digit d" using nat_str_digits [of "n div 1000"] nat_str_ne [of "n div 1000"] by (cases ?i) auto
  then have head: "millis_text n = d # t @ ''.'' @ ?f" by (simp add: millis_text_def)
  have ne: "d \<noteq> CHR ''-''" "d \<noteq> CHR ''+''" "d \<noteq> CHR ''i''" "d \<noteq> CHR ''n''" using d(2) odd by auto
  have sign: "sign_of (millis_text n) = (False, millis_text n)" unfolding head using ne by (simp add: sign_of_def)
  have part: "digitpart s = Some s" if "s \<noteq> []" "\<forall>c \<in> set s. is_digit c" for s
  proof -
    have "CHR ''_'' \<notin> set s" using that(2) odd(1) by blast
    with that show ?thesis by (simp add: digitpart_def split_on_none list_all_iff)
  qed
  have digits: "\<forall>c \<in> set ?i. is_digit c" "\<forall>c \<in> set ?f. is_digit c" "?i \<noteq> []" "?f \<noteq> []"
    using nat_str_digits nat_str_ne by auto
  have "split_on CHR ''.'' (millis_text n) = [?i, ?f]"
  proof -
    have "CHR ''.'' \<notin> set ?i" "CHR ''.'' \<notin> set ?f" using digits odd(7) by blast+
    then show ?thesis unfolding millis_text_def by (simp add: split_on_append split_on_none)
  qed
  then have "py_mantissa (millis_text n) = Some (?i, ?f)"
    using part [OF digits(3,1)] part [OF digits(4,2)] digits(3) by (simp add: py_mantissa_def Let_def)
  moreover have "split_on CHR ''e'' (millis_text n) = [millis_text n]" using plain(3) by (intro split_on_none) blast
  moreover have "millis_text n \<noteq> ''inf''" "millis_text n \<noteq> ''infinity''" "millis_text n \<noteq> ''nan''" unfolding head using ne by auto
  ultimately show ?thesis
    unfolding py_float_of_def norm sign Let_def using millis_digits [of n] by simp
qed

text \<open>
  C31. The heartbeat the bridge writes is what the health check accepts: with both using the same file,
  the check after the heartbeat succeeds exactly when the status written is \<^verbatim>\<open>running\<close> or \<^verbatim>\<open>starting\<close> and
  the heartbeat is at most thirty seconds old; after a shutdown (\<^verbatim>\<open>stopped\<close>) it fails at once.
\<close>

theorem heartbeat_checked:
  assumes "br_time3 b = millis_text n" "status \<in> {''running'', ''starting'', ''stopped''}"
    and "fs_write_fault (br_files b) = None" "fs_read_fault (br_files b) = None"
    and "br_health_file b = (case env ''BRIDGE_HEALTH_FILE'' of Some p \<Rightarrow> p | None \<Rightarrow> DEFAULT_HEALTH_FILE)"
    and "env ''BRIDGE_HEALTH_MAX_AGE_SECONDS'' = None"
  shows "healthcheck_main env now (br_files (snd (write_health status b))) =
    Inr (if status \<noteq> ''stopped'' \<and> now - of_nat n / 1000 \<le> 30 then 0 else 1)"
proof -
  let ?line = "status @ '' '' @ millis_text n @ [CHR 0x0A]"
  have path: "(case env ''BRIDGE_HEALTH_FILE'' of Some p \<Rightarrow> p | None \<Rightarrow> HC_DEFAULT_HEALTH_FILE) = br_health_file b"
    using assms(5) by (simp add: HC_DEFAULT_HEALTH_FILE_def DEFAULT_HEALTH_FILE_def split: option.splits)
  have read: "fs_read (br_health_file b) (br_files (snd (write_health status b))) = Inr ?line"
    using assms(1,3,4) by (simp add: write_health_def fs_write_def fs_read_def update_conv')
  have words: "status \<noteq> [] \<and> (\<forall>c \<in> set status. \<not> is_space c)" "status \<notin> {''starting'', ''running''} \<longleftrightarrow> status = ''stopped''"
  proof -
    have ok: "list_all (\<lambda>s. s \<noteq> [] \<and> list_all (\<lambda>c. \<not> is_space c) s) [''running'', ''starting'', ''stopped'']" by code_simp
    have "status \<in> set [''running'', ''starting'', ''stopped'']" using assms(2) by simp
    with ok show "status \<noteq> [] \<and> (\<forall>c \<in> set status. \<not> is_space c)" unfolding list_all_iff by blast
    show "status \<notin> {''starting'', ''running''} \<longleftrightarrow> status = ''stopped''" using assms(2) by auto
  qed
  have dot: "\<not> is_space CHR ''.''" by code_simp
  have stamp: "millis_text n \<noteq> []" "\<forall>c \<in> set (millis_text n). \<not> is_space c"
  proof -
    show "millis_text n \<noteq> []" by (simp add: millis_text_def)
    show "\<forall>c \<in> set (millis_text n). \<not> is_space c" using millis_chars [of _ n] dot digit_not_space by blast
  qed
  have edges: "\<not> is_space (hd (status @ '' '' @ millis_text n))" "\<not> is_space (last (status @ '' '' @ millis_text n))"
    using words(1) stamp by (auto simp: hd_append)
  have nl: "is_space CHR 0x0A" by code_simp
  have "strip ?line = rstrip_by is_space ((status @ '' '' @ millis_text n) @ [CHR 0x0A])"
    using words(1) by (simp add: strip_def strip_by_def lstrip_by_id hd_append)
  also have "\<dots> = rstrip_by is_space (status @ '' '' @ millis_text n)" using nl by (simp add: rstrip_by_def)
  finally have "strip ?line = status @ '' '' @ millis_text n" using rstrip_by_id [of "status @ '' '' @ millis_text n" is_space] edges(2) by (simp only: simp_thms)
  then have split: "split_ws (strip ?line) = [status, millis_text n]"
    using split_ws_join [of "[status, millis_text n]"] words(1) stamp by simp
  have max: "py_float_of DEFAULT_MAX_AGE_SECONDS = Some (Decimal False 300 (- 1))" by code_simp
  show ?thesis
    unfolding healthcheck_main_def Let_def path assms(6) option.case max read sum.case split list.case words(2) py_float_millis
    by (simp add: decimal_value_def)
qed

definition demo_surround :: "string \<Rightarrow> bridge \<Rightarrow> bridge" where
  "demo_surround t b = b\<lparr>br_time3 := t, br_files := \<lparr>fs_files = [], fs_read_fault = None, fs_write_fault = None, fs_replace_fault = None\<rparr>,
     br_health_file := ''/tmp/h''\<rparr>"

theorem heartbeat_checked_witness:
  "\<forall>b. healthcheck_main (map_of [(''BRIDGE_HEALTH_FILE'', ''/tmp/h'')]) 1030
     (br_files (snd (write_health ''running'' (demo_surround ''1000.250'' b)))) = Inr 0"
proof
  fix b
  let ?b = "demo_surround ''1000.250'' b"
  have "br_time3 ?b = millis_text 1000250"
  proof -
    have "millis_text 1000250 = ''1000.250''" by (simp add: millis_text_def nat_str.simps digit_char_def)
    then show ?thesis by (simp add: demo_surround_def)
  qed
  from heartbeat_checked [OF this, of "''running''" "map_of [(''BRIDGE_HEALTH_FILE'', ''/tmp/h'')]" 1030]
  show "healthcheck_main (map_of [(''BRIDGE_HEALTH_FILE'', ''/tmp/h'')]) 1030 (br_files (snd (write_health ''running'' ?b))) = Inr 0"
    by (simp add: demo_surround_def)
qed

end
