(* ===== verification/DiscoveryCleanup.thy ===== *)
theory DiscoveryCleanup
  imports "HOL-Library.Multiset" Discovery MqttClient
begin

section \<open>The discovery cleanup tool (\<^verbatim>\<open>tools/ha_mqtt_discovery_cleanup.py\<close>)\<close>

text \<open>
  A stand-alone helper that reads the retained discovery messages of a broker, picks those this
  bridge owns and, on request, clears them.  The payload of a message is its decoded text; what the
  broker delivers is an argument, printing and the waiting times are left out.
\<close>

subsection \<open>Recognising messages\<close>

definition CLEANUP_DEVICE_IDENTIFIER :: string where
  "CLEANUP_DEVICE_IDENTIFIER = ''mqtt_mochad_bridge''"

definition BRIDGE_UNIQUE_ID_PREFIX :: string where
  "BRIDGE_UNIQUE_ID_PREFIX = ''mqtt_mochad_bridge_''"

definition X10_UNIQUE_ID_RE :: rx where
  "X10_UNIQUE_ID_RE = seqs [word ''x10_'', Cls (chr_range CHR ''A'' CHR ''P''), unit_rx, Eol]"

record cleanup_config =
  cg_topic :: string
  cg_payload :: "(string \<times> json) list"

definition parse_discovery_payload :: "string \<Rightarrow> (string \<times> json) list option" where
  "parse_discovery_payload raw =
     (let t = strip raw in
      if t = [] then None
      else case loads t of Some (JObj kvs) \<Rightarrow> Some kvs | _ \<Rightarrow> None)"

definition is_discovery_config_topic :: "string \<Rightarrow> string \<Rightarrow> bool" where
  "is_discovery_config_topic topic discovery_prefix =
     (let pre = strip_by is_slash discovery_prefix;
          parts = split_on CHR ''/'' (strip_by is_slash topic) in
      length parts = 4 \<and> parts ! 0 = pre \<and> last parts = ''config'')"

definition topic_has_bridge_owned_object_id :: "string \<Rightarrow> string \<Rightarrow> bool" where
  "topic_has_bridge_owned_object_id topic discovery_prefix =
     (if \<not> is_discovery_config_topic topic discovery_prefix then False
      else
        let object_id = split_on CHR ''/'' (strip_by is_slash topic) ! 2 in
        re_fullmatch X10_UNIQUE_ID_RE object_id \<noteq> None \<or> startswith object_id BRIDGE_UNIQUE_ID_PREFIX)"

definition payload_has_bridge_identifier :: "(string \<times> json) list \<Rightarrow> bool" where
  "payload_has_bridge_identifier payload =
     (case obj_get payload ''device'' of
        JObj device \<Rightarrow>
          (case obj_get device ''identifiers'' of
             JStr s \<Rightarrow> s = CLEANUP_DEVICE_IDENTIFIER
           | JArr xs \<Rightarrow> JStr CLEANUP_DEVICE_IDENTIFIER \<in> set xs
           | _ \<Rightarrow> False)
      | _ \<Rightarrow> False)"

definition is_bridge_owned_discovery :: "string \<Rightarrow> (string \<times> json) list \<Rightarrow> string \<Rightarrow> bool" where
  "is_bridge_owned_discovery topic payload discovery_prefix =
     (if \<not> is_discovery_config_topic topic discovery_prefix then False
      else if (case obj_get payload ''unique_id'' of
                 JStr u \<Rightarrow> re_fullmatch X10_UNIQUE_ID_RE u \<noteq> None \<or> startswith u BRIDGE_UNIQUE_ID_PREFIX
               | _ \<Rightarrow> False) then True
      else if topic_has_bridge_owned_object_id topic discovery_prefix then True
      else payload_has_bridge_identifier payload)"

text \<open>The pattern of \<^verbatim>\<open>--match-topic\<close> as a regular expression.\<close>

definition pattern_rx :: "string \<Rightarrow> rx" where
  "pattern_rx pattern = seqs (map (\<lambda>c.
     if c = CHR ''+'' then plus (Cls (\<lambda>d. d \<noteq> CHR ''/''))
     else if c = CHR ''#'' then Star rx_dot
     else Cls (\<lambda>d. d = c)) pattern)"

definition topic_matches_pattern :: "string \<Rightarrow> string \<Rightarrow> bool" where
  "topic_matches_pattern topic pattern =
     (let topic = strip_by is_slash topic; pattern = strip_by is_slash pattern in
      if pattern = [] then False else re_fullmatch (pattern_rx pattern) topic \<noteq> None)"

definition is_cleanup_target :: "string \<Rightarrow> (string \<times> json) list \<Rightarrow> string \<Rightarrow> string option \<Rightarrow> bool" where
  "is_cleanup_target topic payload discovery_prefix match_topic =
     (if (case match_topic of Some t \<Rightarrow> t \<noteq> [] \<and> topic_matches_pattern topic t | None \<Rightarrow> False)
      then is_discovery_config_topic topic discovery_prefix
      else is_bridge_owned_discovery topic payload discovery_prefix)"

subsection \<open>The client\<close>

record cleanup_client =
  cc_discovery_prefix :: string
  cc_match_topic :: "string option"
  cc_apply :: bool
  cc_connected :: bool
  cc_subscriptions :: "string list"
  cc_configs :: "(string \<times> cleanup_config) list"

definition new_cleanup_client :: "string \<Rightarrow> string option \<Rightarrow> bool \<Rightarrow> cleanup_client" where
  "new_cleanup_client discovery_prefix match_topic apply_changes =
     \<lparr>cc_discovery_prefix = discovery_prefix, cc_match_topic = match_topic, cc_apply = apply_changes,
      cc_connected = False, cc_subscriptions = [], cc_configs = []\<rparr>"

text \<open>\<open>reason\<close> is the number of the reason code, if it has one.\<close>

definition cleanup_on_connect :: "int option \<Rightarrow> cleanup_client \<Rightarrow> cleanup_client" where
  "cleanup_on_connect reason c =
     (if reason \<noteq> Some 0 then c
      else c\<lparr>cc_subscriptions := cc_subscriptions c @ [strip_by is_slash (cc_discovery_prefix c) @ ''/#''],
             cc_connected := True\<rparr>)"

definition cleanup_on_message :: "bool \<times> string \<times> string \<Rightarrow> cleanup_client \<Rightarrow> cleanup_client" where
  "cleanup_on_message = (\<lambda>(retain, topic, raw) c.
     if \<not> retain then c
     else case parse_discovery_payload raw of
       None \<Rightarrow> c
     | Some payload \<Rightarrow>
         if \<not> is_cleanup_target topic payload (cc_discovery_prefix c) (cc_match_topic c) then c
         else c\<lparr>cc_configs := AList.update topic \<lparr>cg_topic = topic, cg_payload = payload\<rparr> (cc_configs c)\<rparr>)"

text \<open>The exit code and the messages published, for what the broker answers and delivers.\<close>

definition cleanup_run ::
  "cleanup_client \<Rightarrow> int option \<Rightarrow> (bool \<times> string \<times> string) list \<Rightarrow> nat \<times> mqtt_message list" where
  "cleanup_run c reason delivered =
     (let c = cleanup_on_connect reason c in
      if \<not> cc_connected c then (1, [])
      else
        let c = fold cleanup_on_message delivered c;
            matches = sort_key cg_topic (map snd (cc_configs c)) in
        (0, if cc_apply c
            then map (\<lambda>g. \<lparr>mm_topic = cg_topic g, mm_payload = [], mm_retain = True, mm_qos = 0\<rparr>) matches
            else []))"

subsection \<open>The payloads of the bridge\<close>

lemma device_block_ok: "json_ok (device_block g diag)" "json_ok (origin_block g diag)"
proof -
  have set_if_ok: "json_ok (JObj (set_if v k f d))" if "json_ok (JObj d)" for v k f d
    using that by (auto simp: set_if_def distinct_update list_all_iff dest!: set_update_entry split: option.splits)
  show "json_ok (device_block g diag)"
    unfolding device_block_def by (intro set_if_ok) simp
  show "json_ok (origin_block g diag)" by (simp add: origin_block_def)
qed

definition own_payload :: "discovery_message \<Rightarrow> bool" where
  "own_payload m \<longleftrightarrow> (\<exists>pl. dm_payload m = JObj pl) \<and> json_ok (dm_payload m)"

lemma device_payload_ok:
  assumes "discovery_messages g d diag = Inr msgs" "m \<in> set msgs"
  shows "own_payload m"
proof -
  obtain pl where pl: "discovery_payload g d diag = Inr pl" "dm_payload m = JObj pl"
    using assms by (auto simp: discovery_messages_def rbind_eq_Inr)
  from pl(1) have "json_ok (JObj pl)"
    by (auto simp: discovery_payload_def button_payload_def rbind_eq_Inr device_block_ok split: if_splits)
  with pl(2) show ?thesis by (simp add: own_payload_def)
qed

lemma sensor_payload_ok:
  assumes "bridge_sensor_message g diag c i n extra = Inr m"
    and "extra = [(''value_template'', JStr t)] \<or> extra = connectivity_fields t"
  shows "own_payload m"
  using assms(2,1)
  by (elim disjE) (auto simp: bridge_sensor_message_def rbind_eq_Inr own_payload_def device_block_ok connectivity_fields_def)

lemma button_payload_ok: "bridge_command_button_message g diag cmd i n = Inr m \<Longrightarrow> own_payload m"
  by (auto simp: bridge_command_button_message_def rbind_eq_Inr own_payload_def device_block_ok)

lemma bridge_payload_ok:
  assumes "bridge_diagnostic_messages g diag = Inr msgs" "m \<in> set msgs"
  shows "own_payload m"
proof -
  have "\<forall>m \<in> set ms'. Inr m \<in> set rs" if "map_result id rs = Inr ms'" for rs :: "discovery_message result list" and ms'
    using that by (induction rs arbitrary: ms') (auto simp: rbind_eq_Inr)
  then have m: "Inr m \<in> set (bridge_message_results g diag)"
    using assms by (auto simp: bridge_diagnostic_messages_def rbind_eq_Inr)
  have sensor: "own_payload m" if "Inr m = bridge_sensor_message g diag c i n [(''value_template'', JStr t)]" for c i n t
    using sensor_payload_ok [OF that [symmetric]] by blast
  have connectivity: "own_payload m" if "Inr m = bridge_sensor_message g diag c i n (connectivity_fields t)" for c i n t
    using sensor_payload_ok [OF that [symmetric]] by blast
  have button: "own_payload m" if "Inr m = bridge_command_button_message g diag cmd i n" for cmd i n
    using button_payload_ok [OF that [symmetric]] .
  show ?thesis
    using m unfolding bridge_message_results_def bridge_status_sensor_message_def bridge_connectivity_sensor_message_def
      bridge_usb_sensor_message_def bridge_value_sensor_message_def
    by (cases "dg_enable_maintenance_buttons g"; simp only: if_True if_False set_append Un_iff list.set insert_iff empty_iff append_Nil2)
       (elim disjE FalseE; (erule button | erule sensor | erule connectivity))+
qed

subsection \<open>The topics of the bridge\<close>

lemma config_topic_parts:
  assumes "clean p" "CHR ''/'' \<notin> set p" "CHR ''/'' \<notin> set c" "CHR ''/'' \<notin> set i"
  shows "split_on CHR ''/'' (strip_by is_slash (topic_join [p, c, i, ''config''])) = [p, c, i, ''config'']"
proof -
  let ?t = "topic_join [p, c, i, ''config'']"
  have t: "?t = p @ CHR ''/'' # c @ CHR ''/'' # i @ CHR ''/'' # ''config''" by (simp add: topic_join_def)
  have "hd ?t = hd p" "last ?t = CHR ''g''" using assms(1) by (simp_all add: t clean_def hd_append)
  then have "strip_by is_slash ?t = ?t" using assms(1) by (intro strip_by_id) (simp add: clean_def is_slash_def)
  then show ?thesis using assms(2-4) by (simp add: t split_on_append split_on_none)
qed

lemma x10_unique_id: "valid_address a \<Longrightarrow> re_fullmatch X10_UNIQUE_ID_RE (''x10_'' @ a) \<noteq> None"
proof -
  assume "valid_address a"
  then obtain h u where a: "a = h # u" "house_char h" "unit_text u" by (auto simp: valid_address_def split: list.splits)
  have "rmatch (Cat (Cls (chr_range CHR ''A'' CHR ''P'')) (Cat unit_rx Eol)) a [] []"
    using fullmatch_house_unit(3) [of a "chr_range CHR ''A'' CHR ''P''" "[]"] a house_char_range by auto
  then have "rmatch X10_UNIQUE_ID_RE (''x10_'' @ a) [] []"
    by (simp add: X10_UNIQUE_ID_RE_def word_def rmatch_simps)
  then show ?thesis by (auto simp: re_fullmatch_None)
qed

definition own_topic :: "string \<Rightarrow> string \<Rightarrow> bool" where
  "own_topic p t \<longleftrightarrow> (\<exists>c i. t = topic_join [p, c, i, ''config''] \<and> CHR ''/'' \<notin> set c \<and> CHR ''/'' \<notin> set i \<and>
     (re_fullmatch X10_UNIQUE_ID_RE i \<noteq> None \<or> startswith i BRIDGE_UNIQUE_ID_PREFIX))"

lemma device_topic_own:
  assumes "discovery_messages g d diag = Inr msgs" "m \<in> set msgs" "clean_segment (dg_discovery_prefix g) = Inr p"
  shows "own_topic p (dm_topic m)"
proof -
  from assms have v: "valid_address (canon (dc_address d))"
    and t: "dm_topic m = topic_join [p, entity_type_segment (dc_entity_type d), ''x10_'' @ canon (dc_address d), ''config'']"
    by (auto simp: discovery_messages_def topic_discovery_def topic_unique_id_def topic_address_spec rbind_eq_Inr split: if_splits)
  have "CHR ''/'' \<notin> set (entity_type_segment x)" for x by (cases x) simp_all
  moreover have "CHR ''/'' \<notin> set (''x10_'' @ canon (dc_address d))" using valid_address_no_slash [OF v] by auto
  ultimately show ?thesis unfolding own_topic_def t using x10_unique_id [OF v] by blast
qed

lemma bridge_topic_own:
  assumes "bridge_diagnostic_messages g diag = Inr msgs" "m \<in> set msgs"
    and "clean_segment (dg_discovery_prefix g) = Inr p" "clean_segment (dg_base_topic g) = Inr b"
  shows "own_topic p (dm_topic m)"
proof -
  have ids: "list_all (\<lambda>(c, i). CHR ''/'' \<notin> set c \<and> CHR ''/'' \<notin> set i \<and> startswith i BRIDGE_UNIQUE_ID_PREFIX) (bridge_entities True)"
    by code_simp
  have "set (bridge_entities mt) \<subseteq> set (bridge_entities True)" for mt by (cases mt) (simp_all add: bridge_entities_def)
  moreover have "dm_topic m \<in> set (map (bridge_entity_topic p) (bridge_entities (dg_enable_maintenance_buttons g)))"
    using bridge_messages_built [OF assms(3,4), of diag] assms(1,2) by (metis image_eqI list.set_map sum.inject(2))
  ultimately obtain e where e: "e \<in> set (bridge_entities True)" "dm_topic m = bridge_entity_topic p e" by fastforce
  moreover obtain c i where "e = (c, i)" by (cases e)
  ultimately show ?thesis using ids unfolding own_topic_def list_all_iff by (fastforce simp: bridge_entity_topic_def)
qed

lemma own_topic_target:
  assumes "own_topic p t" "clean_segment raw = Inr p" "CHR ''/'' \<notin> set p" "strip_by is_slash pre = p"
  shows "is_cleanup_target t pl pre None"
proof -
  from assms(1) obtain c i where t: "t = topic_join [p, c, i, ''config'']" "CHR ''/'' \<notin> set c" "CHR ''/'' \<notin> set i"
    "re_fullmatch X10_UNIQUE_ID_RE i \<noteq> None \<or> startswith i BRIDGE_UNIQUE_ID_PREFIX" by (auto simp: own_topic_def)
  have parts: "split_on CHR ''/'' (strip_by is_slash t) = [p, c, i, ''config'']"
    unfolding t(1) by (rule config_topic_parts [OF clean_segment_clean [OF assms(2)] assms(3) t(2,3)])
  show ?thesis
    using t(4) assms(4)
    by (simp add: is_cleanup_target_def is_bridge_owned_discovery_def topic_has_bridge_owned_object_id_def
        is_discovery_config_topic_def parts)
qed

subsection \<open>What is cleared\<close>

definition targets :: "cleanup_client \<Rightarrow> (bool \<times> string \<times> string) list \<Rightarrow> string set" where
  "targets c delivered = {t. \<exists>raw pl. (True, t, raw) \<in> set delivered \<and> parse_discovery_payload raw = Some pl \<and>
     is_cleanup_target t pl (cc_discovery_prefix c) (cc_match_topic c)}"

definition filed :: "(string \<times> cleanup_config) list \<Rightarrow> bool" where
  "filed cs \<longleftrightarrow> distinct (map fst cs) \<and> (\<forall>(t, g) \<in> set cs. cg_topic g = t)"

lemma filed_update: "filed cs \<Longrightarrow> filed (AList.update t \<lparr>cg_topic = t, cg_payload = pl\<rparr> cs)"
  by (auto simp: filed_def distinct_update dest!: set_update_entry)

lemma cleanup_on_message_keeps:
  "cc_discovery_prefix (cleanup_on_message d c) = cc_discovery_prefix c"
  "cc_match_topic (cleanup_on_message d c) = cc_match_topic c"
  "cc_apply (cleanup_on_message d c) = cc_apply c"
  "targets (cleanup_on_message d c) ds = targets c ds"
  by (auto simp: cleanup_on_message_def targets_def split: prod.splits option.splits)

lemma cleanup_on_message_configs:
  "fst ` set (cc_configs (cleanup_on_message d c)) = fst ` set (cc_configs c) \<union> targets c [d]"
  by (auto simp: cleanup_on_message_def targets_def dom_update split: prod.splits option.splits)

lemma cleanup_collects:
  "fst ` set (cc_configs (fold cleanup_on_message ds c)) = fst ` set (cc_configs c) \<union> targets c ds"
  "cc_apply (fold cleanup_on_message ds c) = cc_apply c"
  "filed (cc_configs c) \<Longrightarrow> filed (cc_configs (fold cleanup_on_message ds c))"
proof (induction ds arbitrary: c)
  case Nil
  { case 1 show ?case by (simp add: targets_def) }
  { case 2 show ?case by simp }
  { case 3 then show ?case by simp }
next
  case (Cons d ds)
  { case 1
    have "targets c (d # ds) = targets c [d] \<union> targets c ds" by (auto simp: targets_def)
    then show ?case using Cons.IH(1) by (simp add: cleanup_on_message_configs cleanup_on_message_keeps Un_assoc) }
  { case 2 show ?case using Cons.IH(2) by (simp add: cleanup_on_message_keeps) }
  { case 3
    then have "filed (cc_configs (cleanup_on_message d c))"
      by (auto simp: cleanup_on_message_def filed_update split: prod.splits option.splits)
    then show ?case using Cons.IH(3) by simp }
qed

lemma own_payload_parsed:
  assumes "own_payload m"
  shows "parse_discovery_payload (serialize_payload (dm_payload m)) \<noteq> None"
proof -
  from assms obtain kvs where m: "dm_payload m = JObj kvs" "json_ok (JObj kvs)" by (auto simp: own_payload_def)
  let ?t = "dumps_compact (JObj kvs)"
  have "?t \<noteq> []" "hd ?t = CHR ''{''" "last ?t = CHR ''}''" by (simp_all add: dumps_compact_def)
  then have "strip ?t = ?t" by (intro strip_id) (simp add: is_space_code)
  with \<open>?t \<noteq> []\<close> show ?thesis
    using loads_dumps_compact [OF m(2)] by (simp add: parse_discovery_payload_def serialize_payload_def m(1))
qed

lemma sorted_values: "mset (map f (sort_key g (map snd cs))) = mset (map (f \<circ> snd) cs)"
proof -
  have "mset (map f (sort_key g (map snd cs))) = mset (map f (map snd cs))" by (simp only: mset_map mset_sort)
  then show ?thesis by (simp only: map_map)
qed

lemma cleanup_run_applied:
  assumes "cc_configs c = []" "cc_apply c"
  shows "\<exists>out. cleanup_run c (Some 0) delivered = (0, out) \<and> mm_topic ` set out = targets c delivered \<and>
     distinct (map mm_topic out) \<and> (\<forall>x \<in> set out. mm_payload x = [] \<and> mm_retain x)"
proof -
  let ?c = "cleanup_on_connect (Some 0) c"
  let ?c' = "fold cleanup_on_message delivered ?c"
  let ?clear = "\<lambda>g. \<lparr>mm_topic = cg_topic g, mm_payload = [], mm_retain = True, mm_qos = 0\<rparr>"
  let ?out = "map ?clear (sort_key cg_topic (map snd (cc_configs ?c')))"
  have c: "cc_configs ?c = []" "cc_apply ?c" "cc_connected ?c" "targets ?c delivered = targets c delivered"
    using assms by (simp_all add: cleanup_on_connect_def targets_def)
  have run: "cleanup_run c (Some 0) delivered = (0, ?out)"
    by (simp add: cleanup_run_def Let_def cleanup_collects(2) c(2,3))
  have filed: "filed (cc_configs ?c')" by (rule cleanup_collects(3)) (simp add: c(1) filed_def)
  then have topics: "map (cg_topic \<circ> snd) (cc_configs ?c') = map fst (cc_configs ?c')"
    by (auto simp: filed_def)
  have "map mm_topic ?out = map cg_topic (sort_key cg_topic (map snd (cc_configs ?c')))" by simp
  then have same: "mset (map mm_topic ?out) = mset (map fst (cc_configs ?c'))"
    using sorted_values [of cg_topic cg_topic "cc_configs ?c'"] topics by (simp only:)
  have "distinct (map mm_topic ?out)"
    using mset_eq_imp_distinct_iff [OF same] filed by (simp only: filed_def)
  moreover have "set (map mm_topic ?out) = fst ` set (cc_configs ?c')"
    using mset_eq_setD [OF same] by (simp only: list.set_map)
  moreover have "fst ` set (cc_configs ?c') = targets c delivered"
    by (simp add: cleanup_collects(1) c(1,4))
  moreover have "\<forall>x \<in> set ?out. mm_payload x = [] \<and> mm_retain x" by simp
  ultimately show ?thesis unfolding run by (intro exI [of _ ?out]) (simp only: list.set_map simp_thms)
qed



end
