(* ===== verification/CleanupMain.thy ===== *)
theory CleanupMain
  imports DiscoveryCleanup MqttSession
begin

section \<open>A session of the cleanup tool (\<^verbatim>\<open>tools/ha_mqtt_discovery_cleanup.py\<close>)\<close>

text \<open>
  What the cleanup tool does around the selection of the messages: its options and their defaults from
  the environment, the calls it makes on the paho client and what it prints, in order.  How argparse cuts
  the command line into options is left out: the options are given as values, in their order.  What
  the broker does is an argument: the exception of \<^verbatim>\<open>connect\<close>, the reason code of the answer if one comes in
  time, the messages delivered while the tool waits.

  \<open>session_runs\<close> shows that a session computes what \<open>cleanup_run\<close> computes, and
  \<open>session_hides_password\<close> that nothing it prints depends on the password.
\<close>

subsection \<open>Reason codes\<close>

text \<open>The tool has its own copies of two functions of \<^verbatim>\<open>mqtt_client.py\<close>.\<close>

definition tool_reason_as_int :: "reason_object option \<Rightarrow> int option" where
  "tool_reason_as_int r = (case r of
     None \<Rightarrow> None
   | Some x \<Rightarrow> if ro_int x \<noteq> None then ro_int x
       else (case ro_value x of None \<Rightarrow> None | Some v \<Rightarrow> v))"

definition tool_reason_label :: "reason_object option \<Rightarrow> string" where
  "tool_reason_label r = (case r of
     None \<Rightarrow> ''unknown''
   | Some x \<Rightarrow>
       (case find opt_truthy (ro_getters x @ [ro_name x]) of
          Some (Some name) \<Rightarrow> name
        | _ \<Rightarrow> ro_str x))"

lemma tool_reasons: "tool_reason_as_int = reason_code_as_int" "tool_reason_label = reason_code_label"
proof -
  show "tool_reason_as_int = reason_code_as_int"
    by (rule ext) (auto simp: tool_reason_as_int_def reason_code_as_int_def split: option.splits)
  have "find P xs = (case filter P xs of [] \<Rightarrow> None | x # _ \<Rightarrow> Some x)" for P and xs :: "string option list"
    by (induction xs) auto
  moreover have "filter opt_truthy xs \<noteq> None # ys" for xs ys
  proof
    assume "filter opt_truthy xs = None # ys"
    then have "None \<in> set (filter opt_truthy xs)" by (simp only: list.set_intros)
    then show False by (simp add: opt_truthy_def)
  qed
  ultimately show "tool_reason_label = reason_code_label"
    by (intro ext) (auto simp: tool_reason_label_def reason_code_label_def opt_truthy_def [of "ro_name _"] split: option.splits list.splits)
qed

subsection \<open>Options\<close>

datatype cleanup_option =
    OptHost string
  | OptPort string
  | OptUsername string
  | OptPassword string
  | OptPrefix string
  | OptMatchTopic string
  | OptWait string
  | OptDryRun
  | OptApply

record cleanup_args =
  ca_host :: string
  ca_port :: int
  ca_username :: "string option"
  ca_password :: "string option"
  ca_prefix :: string
  ca_match_topic :: "string option"
  ca_wait :: py_float
  ca_dry_run :: bool
  ca_apply :: bool

text \<open>A usage error of argparse ends the program with code 2.\<close>

datatype 'a parsed = Parsed 'a | UsageError | ParseRaises exn

definition getenv :: "environment \<Rightarrow> string \<Rightarrow> string \<Rightarrow> string" where
  "getenv env name dflt = (case env name of Some v \<Rightarrow> v | None \<Rightarrow> dflt)"

fun take_option :: "cleanup_option \<Rightarrow> cleanup_args \<Rightarrow> cleanup_args option" where
  "take_option (OptHost v) a = Some (a\<lparr>ca_host := v\<rparr>)"
| "take_option (OptPort v) a = map_option (\<lambda>n. a\<lparr>ca_port := n\<rparr>) (py_int v)"
| "take_option (OptUsername v) a = Some (a\<lparr>ca_username := Some v\<rparr>)"
| "take_option (OptPassword v) a = Some (a\<lparr>ca_password := Some v\<rparr>)"
| "take_option (OptPrefix v) a = Some (a\<lparr>ca_prefix := v\<rparr>)"
| "take_option (OptMatchTopic v) a = Some (a\<lparr>ca_match_topic := Some v\<rparr>)"
| "take_option (OptWait v) a = map_option (\<lambda>f. a\<lparr>ca_wait := f\<rparr>) (py_float_of v)"
| "take_option OptDryRun a = (if ca_apply a then None else Some (a\<lparr>ca_dry_run := True\<rparr>))"
| "take_option OptApply a = (if ca_dry_run a then None else Some (a\<lparr>ca_apply := True\<rparr>))"

fun take_options :: "cleanup_option list \<Rightarrow> cleanup_args \<Rightarrow> cleanup_args option" where
  "take_options [] a = Some a"
| "take_options (x # xs) a = (case take_option x a of None \<Rightarrow> None | Some a' \<Rightarrow> take_options xs a')"

definition cleanup_parse_args :: "environment \<Rightarrow> cleanup_option list \<Rightarrow> cleanup_args parsed" where
  "cleanup_parse_args env opts =
     (let port = getenv env ''MQTT_PORT'' ''1883'' in
      case py_int port of
        None \<Rightarrow> ParseRaises (ValueError (''invalid literal for int() with base 10: '' @ py_repr_str port))
      | Some n \<Rightarrow>
          (case take_options opts
             \<lparr>ca_host = getenv env ''MQTT_HOST'' ''mosquitto'', ca_port = n, ca_username = env ''MQTT_USERNAME'',
              ca_password = env ''MQTT_PASSWORD'', ca_prefix = getenv env ''MQTT_DISCOVERY_PREFIX'' ''homeassistant'',
              ca_match_topic = None, ca_wait = Decimal False 30 (- 1), ca_dry_run = False, ca_apply = False\<rparr> of
             None \<Rightarrow> UsageError
           | Some a \<Rightarrow> Parsed a))"

subsection \<open>The session\<close>

datatype cleanup_effect =
    Out string
  | Err string
  | SetCredentials string "string option"
  | ConnectTo string int nat
  | StartLoop
  | SubscribeTo string
  | Publish mqtt_message
  | StopLoop
  | CloseConnection

text \<open>\<^verbatim>\<open>config.payload.get(key, "")\<close> in an f-string\<close>

definition shown_field :: "(string \<times> json) list \<Rightarrow> string \<Rightarrow> string" where
  "shown_field payload k = (case map_of payload k of None \<Rightarrow> [] | Some v \<Rightarrow> py_str v)"

definition print_matches :: "cleanup_config list \<Rightarrow> cleanup_effect list" where
  "print_matches matches =
     Out (''Found '' @ nat_str (length matches) @ '' matching discovery config(s).'') #
     map (\<lambda>g. Out (''- '' @ cg_topic g @ '' unique_id='' @ shown_field (cg_payload g) ''unique_id'' @
       '' name='' @ shown_field (cg_payload g) ''name'')) matches"

definition clear_message :: "cleanup_config \<Rightarrow> mqtt_message" where
  "clear_message g = \<lparr>mm_topic = cg_topic g, mm_payload = [], mm_retain = True, mm_qos = 0\<rparr>"

text \<open>What \<^verbatim>\<open>_on_connect\<close> prints and calls, for an answer with this reason code.\<close>

definition on_connect_effects :: "reason_object option \<Rightarrow> cleanup_client \<Rightarrow> cleanup_effect list" where
  "on_connect_effects reason c =
     (if tool_reason_as_int reason \<noteq> Some 0
      then [Err (''FAIL MQTT connection refused reason='' @ tool_reason_label reason)]
      else [SubscribeTo (strip_by is_slash (cc_discovery_prefix c) @ ''/#'')])"

text \<open>
  The part of \<^verbatim>\<open>run\<close> under \<^verbatim>\<open>try\<close>; \<open>answer\<close> is the reason code of the broker's answer, if one comes, and
  \<open>pause\<close> what \<^verbatim>\<open>time.sleep\<close> raises, as it does for a negative time.
\<close>

definition cleanup_body ::
  "cleanup_client \<Rightarrow> reason_object option option \<Rightarrow> exn option \<Rightarrow> (bool \<times> string \<times> string) list \<Rightarrow>
   nat result \<times> cleanup_effect list" where
  "cleanup_body c answer pause delivered =
     (let answered = (case answer of None \<Rightarrow> [] | Some r \<Rightarrow> on_connect_effects r c);
          c = (case answer of None \<Rightarrow> c | Some r \<Rightarrow> cleanup_on_connect (tool_reason_as_int r) c) in
      if \<not> cc_connected c then (Inr 1, answered @ [Err ''FAIL MQTT connection timed out''])
      else case pause of
        Some e \<Rightarrow> (Inl e, answered)
      | None \<Rightarrow>
          let c = fold cleanup_on_message delivered c;
              matches = sort_key cg_topic (map snd (cc_configs c)) in
          (Inr 0, answered @ print_matches matches @
            (if cc_apply c
             then map (Publish \<circ> clear_message) matches @
               [Out (''Cleared '' @ nat_str (length matches) @ '' retained discovery config(s).'')]
             else [Out ''Dry run only. Re-run with --apply to clear these topics.''])))"

text \<open>What precedes the \<^verbatim>\<open>try\<close>, then its body, then the \<^verbatim>\<open>finally\<close>.\<close>

definition cleanup_session ::
  "cleanup_args \<Rightarrow> exn option \<Rightarrow> reason_object option option \<Rightarrow> exn option \<Rightarrow> (bool \<times> string \<times> string) list \<Rightarrow>
   nat result \<times> cleanup_effect list" where
  "cleanup_session a fault answer pause delivered =
     (let c = new_cleanup_client (ca_prefix a) (ca_match_topic a) (ca_apply a);
          before = (if opt_truthy (ca_username a) then [SetCredentials (the (ca_username a)) (ca_password a)] else []) @
            [Out (''Connecting to MQTT '' @ ca_host a @ '':'' @ int_str (ca_port a) @ '' username_configured='' @
               py_repr (JBool (opt_truthy (ca_username a)))),
             ConnectTo (ca_host a) (ca_port a) 60] in
      case fault of
        Some e \<Rightarrow> (Inl e, before)
      | None \<Rightarrow>
          let (code, effects) = cleanup_body c answer pause delivered in
          (code, before @ [StartLoop] @ effects @ [CloseConnection, StopLoop]))"

definition cleanup_main ::
  "environment \<Rightarrow> cleanup_option list \<Rightarrow> exn option \<Rightarrow> reason_object option option \<Rightarrow> exn option \<Rightarrow>
   (bool \<times> string \<times> string) list \<Rightarrow> nat result \<times> cleanup_effect list" where
  "cleanup_main env opts fault answer pause delivered =
     (case cleanup_parse_args env opts of
        Parsed a \<Rightarrow> cleanup_session a fault answer pause delivered
      | UsageError \<Rightarrow> (Inr 2, [])
      | ParseRaises e \<Rightarrow> (Inl e, []))"

subsection \<open>What a session does\<close>

fun published :: "cleanup_effect list \<Rightarrow> mqtt_message list" where
  "published [] = []"
| "published (Publish m # es) = m # published es"
| "published (_ # es) = published es"

fun printed :: "cleanup_effect list \<Rightarrow> cleanup_effect list" where
  "printed [] = []"
| "printed (Out t # es) = Out t # printed es"
| "printed (Err t # es) = Err t # printed es"
| "printed (_ # es) = printed es"

lemma effects_append [simp]: "published (xs @ ys) = published xs @ published ys" "printed (xs @ ys) = printed xs @ printed ys"
  by (induction xs rule: published.induct; simp) (induction xs rule: printed.induct; simp)

lemma published_simps [simp]:
  "published (map (\<lambda>x. Publish (f x)) xs) = map f xs" "published (map (\<lambda>x. Out (g x)) xs) = []"
  by (induction xs) simp_all

lemma session_runs:
  "(case cleanup_session a None (Some r) None delivered of (code, effects) \<Rightarrow> (code, published effects)) =
   (case cleanup_run (new_cleanup_client (ca_prefix a) (ca_match_topic a) (ca_apply a)) (reason_code_as_int r) delivered of
      (code, out) \<Rightarrow> (Inr code, out))"
  by (simp add: cleanup_session_def cleanup_body_def cleanup_run_def on_connect_effects_def print_matches_def Let_def
      clear_message_def tool_reasons comp_def)

lemma session_closes:
  "\<exists>before. snd (cleanup_session a None answer pause delivered) = before @ [CloseConnection, StopLoop]"
  by (simp add: cleanup_session_def Let_def case_prod_unfold)

lemma session_hides_password:
  "fst (cleanup_session (a\<lparr>ca_password := pw\<rparr>) fault answer pause delivered) = fst (cleanup_session a fault answer pause delivered)"
  "printed (snd (cleanup_session (a\<lparr>ca_password := pw\<rparr>) fault answer pause delivered)) =
     printed (snd (cleanup_session a fault answer pause delivered))"
  by (simp_all add: cleanup_session_def Let_def case_prod_unfold split: option.splits)

text \<open>Without \<^verbatim>\<open>--apply\<close> nothing is published, and \<^verbatim>\<open>--apply\<close> together with \<^verbatim>\<open>--dry-run\<close> is refused.\<close>

lemma take_options_mode:
  assumes "take_options opts a = Some a'" "\<not> (ca_apply a \<and> ca_dry_run a)"
  shows "\<not> (ca_apply a' \<and> ca_dry_run a')" "ca_apply a' \<longleftrightarrow> ca_apply a \<or> OptApply \<in> set opts"
    "ca_dry_run a' \<longleftrightarrow> ca_dry_run a \<or> OptDryRun \<in> set opts"
  using assms
proof (induction opts arbitrary: a)
  case (Cons x xs)
  { case 1 with Cons.IH(1) show ?case by (cases x) (auto split: if_splits option.splits) }
  { case 2 with Cons.IH(2) show ?case by (cases x) (auto split: if_splits option.splits) }
  { case 3 with Cons.IH(3) show ?case by (cases x) (auto split: if_splits option.splits) }
qed simp_all

text \<open>
  The cleanup tool publishes nothing unless it is told to: a run without \<^verbatim>\<open>--apply\<close>, or with
  \<^verbatim>\<open>--dry-run\<close> beside it, never publishes a message, whatever the environment, the other options and the
  broker are.
\<close>

lemma cleanup_dry_run:
  assumes "OptApply \<notin> set opts \<or> OptDryRun \<in> set opts"
  shows "published (snd (cleanup_main env opts fault answer pause delivered)) = []"
proof (cases "cleanup_parse_args env opts")
  case (Parsed a)
  then obtain a0 where a0: "take_options opts a0 = Some a" "\<not> ca_apply a0" "\<not> ca_dry_run a0"
    by (auto simp: cleanup_parse_args_def Let_def split: option.splits)
  then have "\<not> ca_apply a" using assms take_options_mode [OF a0(1)] by auto
  moreover have "cc_apply (fold cleanup_on_message delivered c) = cc_apply c" for c by (rule cleanup_collects(2))
  ultimately have "published (snd (cleanup_body (new_cleanup_client (ca_prefix a) (ca_match_topic a) (ca_apply a)) answer pause delivered)) = []"
    by (auto simp: cleanup_body_def new_cleanup_client_def cleanup_on_connect_def on_connect_effects_def print_matches_def Let_def
        split: option.splits)
  then show ?thesis
    by (simp add: cleanup_main_def Parsed cleanup_session_def Let_def case_prod_unfold split: option.splits)
qed (simp_all add: cleanup_main_def)

lemma cleanup_dry_run_witness:
  "published (snd (cleanup_main Map.empty [OptHost ''broker'', OptDryRun, OptPort ''1884''] None
     (Some (Some \<lparr>ro_int = Some 0, ro_value = None, ro_getters = [], ro_name = None, ro_str = ''Success''\<rparr>)) None
     [(True, ''homeassistant/switch/x10_A1/config'', ''{}'')])) = []"
proof -
  have "OptApply \<notin> set [OptHost ''broker'', OptDryRun, OptPort ''1884''] \<or> OptDryRun \<in> set [OptHost ''broker'', OptDryRun, OptPort ''1884'']"
    by simp
  then show ?thesis by (rule cleanup_dry_run)
qed

end
