(* ===== verification/BridgeMain.thy ===== *)
theory BridgeMain
  imports BridgeRuns MqttSession
begin

section \<open>The entry point and the main loop (\<^verbatim>\<open>mqtt_mochad_bridge.py\<close>, \<^verbatim>\<open>Bridge.run\<close>)\<close>

text \<open>
  \<^verbatim>\<open>main\<close> composes the components: it loads the configuration, sets up logging, constructs the bridge
  with its clients, starts it and enters the loop of \<^verbatim>\<open>run_forever\<close>.  The loop runs in the main thread,
  where Python also runs the handler of a signal, between two statements of the loop.  The theory
  therefore splits a turn of the loop, which the runs of \<open>Bridge\<close> take as one occurrence, into its
  statements: \<open>advance\<close> executes the next one, \<open>shutdown_signal\<close> is the handler, and the callbacks of
  the two clients come in between.  \<open>turn_statements\<close> shows that the statements of an uninterrupted turn
  do what the occurrence \<open>Turn\<close> does.

  The library \<^verbatim>\<open>ssl\<close>, what \<^verbatim>\<open>connect_async\<close> raises and what \<^verbatim>\<open>stat\<close> says of the configuration file are
  parameters.  A signal inside a statement, or before the loop is entered, is left out, and so is the
  thread of the mochad client, which has a theory of its own.
\<close>

subsection \<open>Start\<close>

text \<open>
  \<^verbatim>\<open>getattr(logging, config.log_level.upper())\<close> and \<^verbatim>\<open>basicConfig\<close> with it.  Two upper-case names of the
  module are no levels: the root logger refuses their values (the text of the second refusal is
  shortened).
\<close>

definition logging_levels :: "(string \<times> int) list" where
  "logging_levels = [(''CRITICAL'', 50), (''FATAL'', 50), (''ERROR'', 40), (''WARNING'', 30), (''WARN'', 30),
     (''INFO'', 20), (''DEBUG'', 10), (''NOTSET'', 0)]"

definition configure_logging :: "config \<Rightarrow> int result" where
  "configure_logging c =
     (let n = upper (cf_log_level c) in
      case map_of logging_levels n of
        Some level \<Rightarrow> Inr level
      | None \<Rightarrow>
          if n = ''BASIC_FORMAT'' then Inl (ValueError (''Unknown level: '' @ quoted ''%(levelname)s:%(name)s:%(message)s''))
          else if n = ''_STYLES'' then Inl (TypeError ''Level not an integer or a valid string'')
          else Inl (AttributeError (''module '' @ quoted ''logging'' @ '' has no attribute '' @ quoted n)))"

definition read_config_file_signature :: "string option \<Rightarrow> (string \<Rightarrow> (int \<times> int) option) \<Rightarrow> (int \<times> int) option" where
  "read_config_file_signature path fstat = (if opt_truthy path then fstat (the path) else None)"

text \<open>\<^verbatim>\<open>Bridge(config)\<close> with the client it constructs; an exception of the client leaves no file behind.\<close>

definition create_bridge ::
  "ssl_library \<Rightarrow> config \<Rightarrow> (string \<Rightarrow> (int \<times> int) option) \<Rightarrow> environment \<Rightarrow> file_system \<Rightarrow> (bridge \<times> mqtt_client) result" where
  "create_bridge lib c fstat env fs =
     rbind (new_mqtt_client lib (cf_mqtt_host c) (cf_mqtt_port c) (cf_mqtt_username c) (cf_mqtt_password c)
         (cf_mqtt_base_topic c) (cf_mqtt_tls c)) (\<lambda>mq.
       Inr (new_bridge c (read_config_file_signature (cf_config_file c) fstat) env fs,
            set_disconnect_callback (set_connect_callback mq)))"

text \<open>The statements of the loop: its condition, the reload, the heartbeat, the pause; or how it ended.\<close>

datatype loop_point = LoopTest | Reloading | Reporting | Sleeping | Finished "unit result"

record process =
  pr_bridge :: bridge
  pr_mqtt :: mqtt_client
  pr_point :: loop_point

definition start_process :: "exn option \<Rightarrow> bridge \<times> mqtt_client \<Rightarrow> process result" where
  "start_process fault = (\<lambda>(b, mq).
     case mq_connect fault mq of
       (Inl e, _) \<Rightarrow> Inl e
     | (Inr _, mq') \<Rightarrow>
         (case start b of
            (Inl e, _) \<Rightarrow> Inl e
          | (Inr _, b') \<Rightarrow> Inr \<lparr>pr_bridge = b', pr_mqtt = mq', pr_point = LoopTest\<rparr>))"

definition bridge_main ::
  "ssl_library \<Rightarrow> exn option \<Rightarrow> (string \<Rightarrow> (int \<times> int) option) \<Rightarrow> environment \<Rightarrow> file_system \<Rightarrow> process result" where
  "bridge_main lib fault fstat env fs =
     rbind (load_config env fs) (\<lambda>c.
     rbind (configure_logging c) (\<lambda>_.
     rbind (create_bridge lib c fstat env fs) (start_process fault)))"

subsection \<open>The loop\<close>

definition advance :: "bool \<Rightarrow> (string \<Rightarrow> (int \<times> int) option) \<Rightarrow> environment \<Rightarrow> process \<Rightarrow> process" where
  "advance due fstat env p =
     (let b = pr_bridge p in
      case pr_point p of
        LoopTest \<Rightarrow> p\<lparr>pr_point := (if br_running b then Reloading else Finished (Inr ()))\<rparr>
      | Reloading \<Rightarrow>
          (case check_config_file_reload False due (read_config_file_signature (cf_config_file (br_config b)) fstat) env b of
             (Inl e, b') \<Rightarrow> p\<lparr>pr_bridge := b', pr_point := Finished (Inl e)\<rparr>
           | (Inr _, b') \<Rightarrow> p\<lparr>pr_bridge := b', pr_point := Reporting\<rparr>)
      | Reporting \<Rightarrow> p\<lparr>pr_bridge := snd (write_current_health b), pr_point := Sleeping\<rparr>
      | Sleeping \<Rightarrow> p\<lparr>pr_point := LoopTest\<rparr>
      | Finished r \<Rightarrow> p)"

text \<open>\<^verbatim>\<open>_handle_shutdown_signal\<close>: an exception of the handler leaves the loop.\<close>

definition shutdown_signal :: "process \<Rightarrow> process" where
  "shutdown_signal p =
     (case pr_point p of
        Finished r \<Rightarrow> p
      | _ \<Rightarrow>
          (case stop (pr_bridge p) of
             (Inl e, b') \<Rightarrow> p\<lparr>pr_bridge := b', pr_point := Finished (Inl e)\<rparr>
           | (Inr _, b') \<Rightarrow> p\<lparr>pr_bridge := b', pr_mqtt := snd (mq_disconnect (pr_mqtt p))\<rparr>))"

datatype process_event =
    Advance bool "string \<Rightarrow> (int \<times> int) option" environment
  | Signal
  | Callback occurrence

fun is_callback :: "occurrence \<Rightarrow> bool" where
  "is_callback (Turn _ _ _) = False"
| "is_callback StopSignal = False"
| "is_callback _ = True"

fun process_step :: "process_event \<Rightarrow> process \<Rightarrow> process" where
  "process_step (Advance due fstat env) p = advance due fstat env p"
| "process_step Signal p = shutdown_signal p"
| "process_step (Callback oc) p =
     (if is_callback oc then p\<lparr>pr_bridge := snd (handle oc (pr_bridge p))\<rparr> else p)"

definition process_in :: "surroundings \<Rightarrow> process \<Rightarrow> process" where
  "process_in s p = p\<lparr>pr_bridge := surround s (pr_bridge p)\<rparr>"

definition run_process :: "(surroundings \<times> process_event) list \<Rightarrow> process \<Rightarrow> process" where
  "run_process evs p = fold (\<lambda>(s, e) p. process_step e (process_in s p)) evs p"

subsection \<open>A turn of the loop\<close>

lemma write_health_ok: "fst (write_health st b) = Inr ()" "fst (write_current_health b) = Inr ()"
  by (simp_all add: write_health_def write_current_health_def bread_def)

text \<open>The statements of an uninterrupted turn do what the occurrence \<open>Turn\<close> does.\<close>

lemma turn_statements:
  assumes "pr_point p = LoopTest" "br_running (pr_bridge p)"
    and "turn = handle (Turn due (read_config_file_signature (cf_config_file (br_config (pr_bridge p))) fstat) env) (pr_bridge p)"
  shows "(advance due fstat env ^^ 4) p =
    p\<lparr>pr_bridge := snd turn, pr_point := (case fst turn of Inl e \<Rightarrow> Finished (Inl e) | Inr _ \<Rightarrow> LoopTest)\<rparr>"
proof -
  let ?r = "check_config_file_reload False due (read_config_file_signature (cf_config_file (br_config (pr_bridge p))) fstat) env (pr_bridge p)"
  have four: "(f ^^ 4) x = f (f (f (f x)))" for f :: "process \<Rightarrow> process" and x
    by (simp add: numeral_eq_Suc)
  obtain r b' where r: "?r = (r, b')" by fastforce
  show ?thesis
  proof (cases r)
    case (Inl e)
    then have "turn = (Inl e, b')"
      using assms r by (simp add: run_turn_def bread_def bwhen_def bseq_def bbind_def)
    then show ?thesis unfolding four by (simp add: advance_def assms(1,2) r Inl)
  next
    case (Inr u)
    then have "turn = write_current_health b'"
      using assms r by (simp add: run_turn_def bread_def [of _ "pr_bridge p"] bwhen_def bseq_def bbind_def)
    then show ?thesis unfolding four by (simp add: advance_def assms(1,2) r Inr write_health_ok)
  qed
qed

subsection \<open>What every process keeps\<close>

lemma run_process_simps:
  "run_process [] p = p"
  "run_process ((s, e) # evs) p = run_process evs (process_step e (process_in s p))"
  by (simp_all add: run_process_def)

context run_property
begin

lemma P_advance: "P (pr_bridge p) \<Longrightarrow> P (pr_bridge (advance due fstat env p))"
proof -
  assume P: "P (pr_bridge p)"
  let ?sg = "read_config_file_signature (cf_config_file (br_config (pr_bridge p))) fstat"
  obtain r b' where r: "check_config_file_reload False due ?sg env (pr_bridge p) = (r, b')" by fastforce
  then have "P b'" by (rule keepsD [OF keeps_check_config_file_reload P])
  moreover have "P (snd (write_current_health (pr_bridge p)))"
    using keeps_write_current_health P by (simp add: keeps_def)
  ultimately show ?thesis using P r by (simp add: advance_def Let_def split: loop_point.splits sum.splits)
qed

lemma P_shutdown_signal: "P (pr_bridge p) \<Longrightarrow> P (pr_bridge (shutdown_signal p))"
proof -
  assume P: "P (pr_bridge p)"
  obtain r b' where r: "stop (pr_bridge p) = (r, b')" by fastforce
  then have "P b'" by (rule keepsD [OF keeps_stop P])
  with P r show ?thesis by (simp add: shutdown_signal_def split: loop_point.splits sum.splits)
qed

lemma P_process_step: "P (pr_bridge p) \<Longrightarrow> P (pr_bridge (process_step e p))"
  using keeps_handle P_advance P_shutdown_signal by (cases e) (simp_all add: keeps_def)

lemma P_run_process: "P (pr_bridge p) \<Longrightarrow> P (pr_bridge (run_process evs p))"
proof (induction evs arbitrary: p)
  case (Cons x evs)
  obtain s e where x: "x = (s, e)" by (cases x)
  have "P (pr_bridge (process_in s p))" using P_surround [OF Cons.prems] by (simp add: process_in_def)
  then show ?case unfolding x run_process_simps by (intro Cons.IH P_process_step)
qed (simp add: run_process_simps)

end

lemma bridge_main_Inr:
  assumes "bridge_main lib fault fstat env fs = Inr p"
  shows "pr_point p = LoopTest" "br_running (pr_bridge p)" "\<exists>m0. bridge_inv m0 (pr_bridge p)"
proof -
  obtain c b mq where c: "load_config env fs = Inr c" and b: "b = new_bridge c (read_config_file_signature (cf_config_file c) fstat) env fs"
    and p: "start_process fault (b, mq) = Inr p"
    using assms by (auto simp: bridge_main_def create_bridge_def rbind_eq_Inr)
  define b' where "b' = snd (start b)"
  have b': "start b = (Inr (), b')" "br_running b'" "b' = b\<lparr>br_running := True, br_files := br_files b'\<rparr>"
    by (simp_all add: b'_def start_def bseq_def bbind_def bmodify_def write_health_def)
  obtain r mq' where "mq_connect fault mq = (r, mq')" by fastforce
  with p b'(1) have p': "p = \<lparr>pr_bridge = b', pr_mqtt = mq', pr_point = LoopTest\<rparr>"
    by (simp add: start_process_def split: sum.splits)
  with b'(2) show "pr_point p = LoopTest" "br_running (pr_bridge p)" by simp_all
  have "bridge_inv (br_state b) b" unfolding b by (rule bridge_inv_new [OF c])
  then have "bridge_inv (br_state b) (b\<lparr>br_running := True, br_files := br_files b'\<rparr>)" by (simp add: bridge_inv_def)
  then have "bridge_inv (br_state b) (pr_bridge p)" unfolding p' process.select_convs b'(3) [symmetric] .
  then show "\<exists>m0. bridge_inv m0 (pr_bridge p)" ..
qed

subsection \<open>Shutdown\<close>

text \<open>Nothing starts a stopped bridge again.\<close>

interpretation stopped: framed_property m0 "\<lambda>b. \<not> br_running b" for m0
  by unfold_locales (auto simp: frame_view_def)

fun is_advance :: "process_event \<Rightarrow> bool" where
  "is_advance (Advance _ _ _) = True"
| "is_advance _ = False"

text \<open>The statements a stopped loop still executes.\<close>

fun left :: "loop_point \<Rightarrow> nat" where
  "left Reloading = 4"
| "left Reporting = 3"
| "left Sleeping = 2"
| "left LoopTest = 1"
| "left (Finished _) = 0"

lemma left_0: "left pt = 0 \<longleftrightarrow> (\<exists>r. pt = Finished r)"
  by (cases pt) auto

lemma left_step:
  assumes "\<not> br_running (pr_bridge p)"
  shows "left (pr_point (process_step e (process_in s p))) \<le> left (pr_point p) - (if is_advance e then 1 else 0)"
proof (cases e)
  case (Advance due fstat env)
  with assms show ?thesis
    by (cases "pr_point p") (auto simp: advance_def process_in_def surround_def Let_def split: prod.splits sum.splits)
next
  case Signal
  then show ?thesis
    by (cases "pr_point p") (auto simp: shutdown_signal_def process_in_def split: prod.splits sum.splits)
qed (simp add: process_in_def)

lemma stopped_loop_ends:
  assumes "bridge_inv m0 (pr_bridge p)" "\<not> br_running (pr_bridge p)"
  shows "left (pr_point (run_process evs p)) \<le> left (pr_point p) - length (filter is_advance (map snd evs))"
  using assms
proof (induction evs arbitrary: p)
  case (Cons x evs)
  obtain s e where x: "x = (s, e)" by (cases x)
  let ?p = "process_step e (process_in s p)"
  have "bridge_inv m0 (pr_bridge ?p) \<and> \<not> br_running (pr_bridge ?p)"
    using Cons.prems by (intro stopped.P_process_step) (simp add: process_in_def stopped.P_surround)
  then have "left (pr_point (run_process evs ?p)) \<le> left (pr_point ?p) - length (filter is_advance (map snd evs))"
    using Cons.IH by blast
  with left_step [OF Cons.prems(2), of e s] show ?case unfolding x run_process_simps by (cases "is_advance e") simp_all
qed (simp add: run_process_simps)

lemma signal_stops:
  "(\<exists>r. pr_point (shutdown_signal p) = Finished r) \<or> \<not> br_running (pr_bridge (shutdown_signal p))"
proof -
  have "\<not> br_running (snd (stop b))" for b
    by (auto simp: stop_def publish_shutdown_status_def bseq_def bbind_def bmodify_def bread_def bret_def mqtt_out_def
        bresult_def write_health_def Let_def split: sum.splits prod.splits)
  then have "stop b = (r, b') \<Longrightarrow> \<not> br_running b'" for b r b' by (metis snd_conv)
  then show ?thesis
    by (cases "pr_point p") (auto simp: shutdown_signal_def split: prod.splits sum.splits)
qed

lemma finished_stays: "pr_point p = Finished r \<Longrightarrow> pr_point (run_process evs p) = Finished r"
proof (induction evs arbitrary: p)
  case (Cons x evs)
  obtain s e where x: "x = (s, e)" by (cases x)
  have "pr_point (process_step e (process_in s p)) = Finished r"
    using Cons.prems by (cases e) (simp_all add: advance_def shutdown_signal_def process_in_def)
  with Cons.IH x show ?case by (simp add: run_process_def)
qed (simp add: run_process_def)

text \<open>
  C13. A shutdown signal ends the process: however the process started by \<^verbatim>\<open>main\<close> ran before, once the
  signal has been handled the main thread leaves its loop after at most four more statements, whatever the
  callbacks of the clients do meanwhile; nothing sets the bridge running again.
\<close>

theorem shutdown_ends_loop:
  assumes "bridge_main lib fault fstat env fs = Inr p" "4 \<le> length (filter is_advance (map snd post))"
  shows "\<exists>r. pr_point (run_process (pre @ (s, Signal) # post) p) = Finished r"
proof -
  let ?q = "shutdown_signal (process_in s (run_process pre p))"
  have split: "run_process (pre @ (s, Signal) # post) p = run_process post ?q"
    by (simp add: run_process_def)
  obtain m0 where "bridge_inv m0 (pr_bridge p)" using bridge_main_Inr(3) [OF assms(1)] ..
  then have "bridge_inv m0 (pr_bridge (process_in s (run_process pre p)))"
    using safe.P_surround safe.P_run_process by (simp add: process_in_def)
  then have inv: "bridge_inv m0 (pr_bridge ?q)" by (rule safe.P_shutdown_signal)
  show ?thesis unfolding split
  proof (cases "\<exists>r. pr_point ?q = Finished r")
    case True
    then show "\<exists>r. pr_point (run_process post ?q) = Finished r" using finished_stays by blast
  next
    case False
    then have "\<not> br_running (pr_bridge ?q)" using signal_stops by blast
    from stopped_loop_ends [OF inv this, of post] assms(2) have "left (pr_point (run_process post ?q)) \<le> left (pr_point ?q) - 4"
      by linarith
    then have "left (pr_point (run_process post ?q)) = 0" by (cases "pr_point ?q") auto
    then show "\<exists>r. pr_point (run_process post ?q) = Finished r" by (simp add: left_0)
  qed
qed

lemma stop_done:
  assumes "stop b = (Inr (), b')"
  shows "\<not> br_running b'" "br_state b' = br_state b" "br_health_file b' = br_health_file b" "br_time3 b' = br_time3 b"
    "br_config b' = br_config b"
    "br_files b' = snd (fs_write (br_health_file b) (''stopped'' @ '' '' @ br_time3 b @ [CHR 0x0A]) (br_files b))"
proof -
  let ?b = "b\<lparr>br_running := False, br_stopping := True, br_mochad_connected := False\<rparr>"
  obtain r b1 where r: "publish_shutdown_status ?b = (r, b1)" by fastforce
  then have b1: "\<not> br_running b1" "br_state b1 = br_state b" "br_health_file b1 = br_health_file b" "br_time3 b1 = br_time3 b"
    "br_config b1 = br_config b" "br_files b1 = br_files b"
    by (auto simp: publish_shutdown_status_def bread_def bret_def bseq_def bbind_def bmodify_def mqtt_out_def bresult_def Let_def
        split: if_splits sum.splits)
  have "stop b = (case r of Inl e \<Rightarrow> (Inl e, b1) | Inr _ \<Rightarrow> write_health ''stopped'' b1)"
    by (simp add: stop_def bseq_def bbind_def bmodify_def r)
  with assms have "b' = snd (write_health ''stopped'' b1)" by (cases r) auto
  with b1 show "\<not> br_running b'" "br_state b' = br_state b" "br_health_file b' = br_health_file b" "br_time3 b' = br_time3 b"
    "br_config b' = br_config b"
    "br_files b' = snd (fs_write (br_health_file b) (''stopped'' @ '' '' @ br_time3 b @ [CHR 0x0A]) (br_files b))"
    by (simp_all add: write_health_def)
qed


definition no_stat :: "string \<Rightarrow> (int \<times> int) option" where
  "no_stat path = None"

lemma demo_start:
  "case bridge_main demo_ssl None no_stat demo_env demo_files of
     Inl _ \<Rightarrow> False
   | Inr p \<Rightarrow>
       let p = advance False no_stat demo_env p in
       pr_point p = Reloading \<and> fst (stop (pr_bridge p)) = Inr () \<and> fs_write_fault (br_files (pr_bridge p)) = None \<and>
       \<not> bridge_available (br_state (pr_bridge p)) \<and> br_health_file (pr_bridge p) = DEFAULT_HEALTH_FILE \<and> br_time3 (pr_bridge p) = []"
  by code_simp

lemma demo_started:
  obtains p q b' where "bridge_main demo_ssl None no_stat demo_env demo_files = Inr p" "q = advance False no_stat demo_env p"
    "pr_point q = Reloading" "stop (pr_bridge q) = (Inr (), b')" "fs_write_fault (br_files (pr_bridge q)) = None"
    "\<not> bridge_available (br_state (pr_bridge q))" "br_health_file (pr_bridge q) = DEFAULT_HEALTH_FILE" "br_time3 (pr_bridge q) = []"
proof (cases "bridge_main demo_ssl None no_stat demo_env demo_files")
  case (Inl e)
  with demo_start show ?thesis by (simp only: sum.case)
next
  case (Inr p)
  note d = demo_start [unfolded Inr sum.case Let_def]
  have "stop (pr_bridge (advance False no_stat demo_env p)) = (Inr (), snd (stop (pr_bridge (advance False no_stat demo_env p))))"
    using d by (simp add: prod_eq_iff)
  with d show ?thesis by (elim conjE) (rule that [OF Inr refl])
qed

theorem shutdown_ends_loop_witness:
  "\<exists>p r. bridge_main demo_ssl None no_stat demo_env demo_files = Inr p \<and>
     pr_point (run_process ([(calm, Advance False no_stat demo_env)] @ (calm, Signal) #
       (calm, Callback MqttUp) # replicate 4 (calm, Advance False no_stat demo_env)) p) = Finished r"
proof -
  obtain p where p: "bridge_main demo_ssl None no_stat demo_env demo_files = Inr p" by (rule demo_started)
  have "4 \<le> length (filter is_advance (map snd ((calm, Callback MqttUp) # replicate 4 (calm, Advance False no_stat demo_env))))"
    by simp
  from shutdown_ends_loop [OF p this] p show ?thesis by blast
qed


end
