(* ===== verification/MochadTools.thy ===== *)
theory MochadTools
  imports MochadClient MqttClient
begin

section \<open>The maintenance tools (\<^verbatim>\<open>tools/check_mochad_tcp.py\<close>, \<^verbatim>\<open>mochad_status.py\<close>, \<^verbatim>\<open>watch_mochad.py\<close>)\<close>

text \<open>
  Three scripts that talk to mochad from a terminal.  What the socket does is an argument: the exception
  of the connection or of a write, if any, and the outcomes of the reads in order.  The result is how the script
  ends and what it writes to the terminal, standard output and standard error in one text.  A script that has used up its outcomes is
  still waiting.
\<close>

subsection \<open>Definitions\<close>

datatype tool_recv = Chunk string | Raises exn | Interrupt

datatype tool_end = Exit nat | Waiting | Uncaught exn | KeyboardInterrupt

definition endpoint :: "string \<Rightarrow> int \<Rightarrow> string" where
  "endpoint host port = host @ '':'' @ int_str port"

text \<open>\<^verbatim>\<open>except OSError as exc\<close> around the body of each script.\<close>

definition tool_failed :: "string \<Rightarrow> exn \<Rightarrow> tool_end \<times> string" where
  "tool_failed what e =
     (if is_OSError e then (Exit 1, ''FAIL '' @ what @ '': '' @ exn_text e @ [CHR 0x0A]) else (Uncaught e, []))"

definition check_mochad_tcp_main :: "string \<Rightarrow> int \<Rightarrow> exn option \<Rightarrow> tool_end \<times> string" where
  "check_mochad_tcp_main host port connect =
     (case connect of
        None \<Rightarrow> (Exit 0, ''PASS connected to '' @ endpoint host port @ [CHR 0x0A])
      | Some e \<Rightarrow> tool_failed (''could not connect to '' @ endpoint host port) e)"

definition wrote :: "string \<Rightarrow> tool_end \<times> string \<Rightarrow> tool_end \<times> string" where
  "wrote s = (\<lambda>(r, out). (r, s @ out))"

fun status_loop :: "string \<Rightarrow> tool_recv list \<Rightarrow> tool_end \<times> string" where
  "status_loop what [] = (Waiting, [])"
| "status_loop what (Raises e # rs) = tool_failed what e"
| "status_loop what (Interrupt # rs) = (KeyboardInterrupt, [])"
| "status_loop what (Chunk data # rs) =
     (if data = [] then (Exit 0, [])
      else wrote data (if contains data ''End status'' then (Exit 0, []) else status_loop what rs))"

text \<open>The second component is what is sent to mochad.\<close>

definition mochad_status_main ::
  "string \<Rightarrow> int \<Rightarrow> exn option \<Rightarrow> exn option \<Rightarrow> tool_recv list \<Rightarrow> (tool_end \<times> string) \<times> string list" where
  "mochad_status_main host port connect send rs =
     (let what = ''status request failed for '' @ endpoint host port in
      case connect of
        Some e \<Rightarrow> (tool_failed what e, [])
      | None \<Rightarrow>
          (case send of
             Some e \<Rightarrow> (tool_failed what e, [])
           | None \<Rightarrow> (status_loop what rs, [''st'' @ [CHR 0x0A]])))"

text \<open>The lines complete so far, without the carriage return of each, and the rest.\<close>

definition watch_lines :: "string \<Rightarrow> string \<Rightarrow> string list \<times> string" where
  "watch_lines buffer chunk =
     (let parts = split_on CHR 0x0A (buffer @ chunk) in
      (map (rstrip_by (\<lambda>c. c = CHR 0x0D)) (butlast parts), last parts))"

text \<open>\<open>clock n\<close> is the time read for the \<open>n\<close>-th line.\<close>

definition stamp_lines :: "(nat \<Rightarrow> string) \<Rightarrow> nat \<Rightarrow> string list \<Rightarrow> string" where
  "stamp_lines clock n ls = concat (map (\<lambda>(i, l). clock i @ '' '' @ l @ [CHR 0x0A]) (zip [n..<n + length ls] ls))"

fun watch_loop :: "string \<Rightarrow> (nat \<Rightarrow> string) \<Rightarrow> nat \<Rightarrow> string \<Rightarrow> tool_recv list \<Rightarrow> tool_end \<times> string" where
  "watch_loop what clock n buffer [] = (Waiting, [])"
| "watch_loop what clock n buffer (Raises e # rs) = tool_failed what e"
| "watch_loop what clock n buffer (Interrupt # rs) = (Exit 0, [CHR 0x0A] @ ''Stopped.'' @ [CHR 0x0A])"
| "watch_loop what clock n buffer (Chunk data # rs) =
     (if data = [] then (Exit 1, ''mochad closed the connection.'' @ [CHR 0x0A])
      else let (ls, rest) = watch_lines buffer data in
        wrote (stamp_lines clock n ls) (watch_loop what clock (n + length ls) rest rs))"

definition watch_mochad_main ::
  "string \<Rightarrow> int \<Rightarrow> bool \<Rightarrow> (nat \<Rightarrow> string) \<Rightarrow> exn option \<Rightarrow> exn option \<Rightarrow> tool_recv list \<Rightarrow> tool_end \<times> string" where
  "watch_mochad_main host port status clock connect send rs =
     (let what = ''could not read from '' @ endpoint host port in
      wrote (''Connecting to mochad at '' @ endpoint host port @ ''...'' @ [CHR 0x0A])
        (case connect of
           Some e \<Rightarrow> tool_failed what e
         | None \<Rightarrow>
             wrote (''Connected. Press X10 remote buttons now. Ctrl-C to stop.'' @ [CHR 0x0A])
               (case (if status then send else None) of
                  Some e \<Rightarrow> tool_failed what e
                | None \<Rightarrow>
                    wrote (if status then ''Sent st status request.'' @ [CHR 0x0A] else [])
                      (watch_loop what clock 0 [] rs))))"

subsection \<open>The watcher does not depend on the reads\<close>


lemma split_on_extend:
  "split_on c (s @ t) = butlast (split_on c s) @ split_on c (last (split_on c s) @ t)"
proof (induction s)
  case (Cons x s)
  obtain q qs where q: "split_on c s = q # qs" by (cases "split_on c s") simp_all
  show ?case
  proof (cases "x = c")
    case True
    with Cons q show ?thesis by (simp add: split_on_def)
  next
    case False
    have step: "split_on c (x # u) = (x # hd (split_on c u)) # tl (split_on c u)" for u
      using False split_on_ne [of c u] by (cases "split_on c u") (simp_all add: split_on_def)
    show ?thesis
    proof (cases "qs = []")
      case True
      with Cons q show ?thesis by (simp add: step)
    next
      case False
      with Cons q show ?thesis by (simp add: step)
    qed
  qed
qed (simp add: split_on_def)

text \<open>The watcher splits the stream by the contract of the client's own reader.\<close>

interpretation watch: stream_splitter watch_lines "\<lambda>b. CHR 0x0A \<notin> set b"
proof
  show "CHR 0x0A \<notin> set b \<Longrightarrow> watch_lines b [] = ([], b)" for b
    by (simp add: watch_lines_def split_on_none)
  show "watch_lines b (xs @ ys) =
      (let (os, b') = watch_lines b xs; (os', b'') = watch_lines b' ys in (os @ os', b''))" for b xs ys
    using split_on_extend [of "CHR 0x0A" "b @ xs" ys] by (simp add: watch_lines_def Let_def butlast_append)
qed

lemma stamp_lines_append:
  "stamp_lines clock n (xs @ ys) = stamp_lines clock n xs @ stamp_lines clock (n + length xs) ys"
proof -
  have "[n..<n + length (xs @ ys)] = [n..<n + length xs] @ [n + length xs..<n + length xs + length ys]"
    using upt_add_eq_append [of n "n + length xs" "length ys"] by (simp add: add.assoc)
  then show ?thesis by (simp add: stamp_lines_def)
qed

lemma wrote_append [simp]: "wrote s (wrote t r) = wrote (s @ t) r"
  by (simp add: wrote_def case_prod_unfold)

lemma watch_loop_feed:
  "[] \<notin> set css \<Longrightarrow> watch_loop what clock n b (map Chunk css @ rs) =
     (let (ls, rest) = watch.feed_all b css in wrote (stamp_lines clock n ls) (watch_loop what clock (n + length ls) rest rs))"
proof (induction css arbitrary: n b)
  case Nil
  show ?case by (simp add: stamp_lines_def wrote_def)
next
  case (Cons c css)
  then have "c \<noteq> []" "[] \<notin> set css" by auto
  with Cons.IH show ?case
    by (simp add: case_prod_unfold Let_def stamp_lines_append add.assoc)
qed

text \<open>
  What the watcher prints depends on the bytes only, not on how they arrive.
\<close>

lemma watch_tool_chunking:
  assumes "[] \<notin> set css" "[] \<notin> set dss" "concat css = concat dss"
  shows "watch_mochad_main host port status clock connect send (map Chunk css @ rs) =
    watch_mochad_main host port status clock connect send (map Chunk dss @ rs)"
proof -
  have "watch.feed_all [] css = watch.feed_all [] dss" by (rule watch.feed_all_rechunk [OF _ assms(3)]) simp
  then have "watch_loop what clock 0 [] (map Chunk css @ rs) = watch_loop what clock 0 [] (map Chunk dss @ rs)" for what
    unfolding watch_loop_feed [OF assms(1)] watch_loop_feed [OF assms(2)] by simp
  then show ?thesis by (simp only: watch_mochad_main_def)
qed

subsection \<open>The end of a status request\<close>

lemma status_loop_exit:
  "[] \<notin> set css \<Longrightarrow> is_OSError e \<Longrightarrow> fst (status_loop what (map Chunk css @ [Raises e])) =
     Exit (if \<exists>c \<in> set css. contains c ''End status'' then 0 else 1)"
  by (induction css) (auto simp: tool_failed_def wrote_def case_prod_unfold)



end
