(* ===== verification/ImageLabels.thy ===== *)
theory ImageLabels
  imports PyRegex JsonText PyStr
begin

section \<open>The release check of the image labels (\<^verbatim>\<open>scripts/validate/image_labels.py\<close>)\<close>

text \<open>
  The release pipeline refuses an image whose OCI labels do not hold release metadata.  The theory
  models the three compiled patterns, \<open>validate_labels\<close> with its messages, the reading of the
  labels from the output of \<^verbatim>\<open>docker image inspect\<close> and the exit code of the script.  The command
  that is run is the parameter \<open>check_output\<close>: the text it prints for an image, or the exception
  it raises.  \<open>release_labels_accepted\<close> says which label sets the check lets pass, with
  the shapes of a version, a timestamp and a commit written without regular expressions.
\<close>

definition REQUIRED_LABELS :: "string list" where
  "REQUIRED_LABELS =
     [''org.opencontainers.image.title'',
      ''org.opencontainers.image.description'',
      ''org.opencontainers.image.created'',
      ''org.opencontainers.image.version'',
      ''org.opencontainers.image.revision'',
      ''org.opencontainers.image.source'',
      ''org.opencontainers.image.licenses'']"

definition FORBIDDEN_VALUES :: "string list" where
  "FORBIDDEN_VALUES =
     ['''', ''dev'', ''develop'', ''development'', ''latest'', ''local'', ''master'', ''unknown'']"

definition is_alnum_ascii :: "char \<Rightarrow> bool" where
  "is_alnum_ascii c \<longleftrightarrow> is_digit c \<or> is_upper c \<or> is_lower c"

definition is_suffix_char :: "char \<Rightarrow> bool" where
  "is_suffix_char c \<longleftrightarrow> is_alnum_ascii c \<or> c = CHR ''.'' \<or> c = CHR ''-''"

definition is_sign :: "char \<Rightarrow> bool" where
  "is_sign c \<longleftrightarrow> c = CHR ''-'' \<or> c = CHR ''+''"

definition is_lower_hex :: "char \<Rightarrow> bool" where
  "is_lower_hex c \<longleftrightarrow> is_digit c \<or> chr_range (CHR ''a'') (CHR ''f'') c"

text \<open>\<^verbatim>\<open>^\d+\.\d+\.\d+(?:[-+][0-9A-Za-z.-]+)?$\<close>\<close>

definition SEMVER_RE :: rx where
  "SEMVER_RE =
     Cat (seqs [plus rx_digit, word ''.'', plus rx_digit, word ''.'', plus rx_digit,
       Alt (Cat (Cls is_sign) (plus (Cls is_suffix_char))) Eps]) Eol"

text \<open>
  \<^verbatim>\<open>^\d{4}-\d{2}-\d{2}T\d{2}:\d{2}:\d{2}(?:Z|[+-]\d{2}:\d{2})$\<close>: the classes of the fixed part, one for
  each character, and the two forms of the zone.
\<close>

definition digits_rx :: "nat \<Rightarrow> (char \<Rightarrow> bool) list" where
  "digits_rx n = replicate n is_digit"

definition iso_stamp :: "(char \<Rightarrow> bool) list" where
  "iso_stamp =
     digits_rx 4 @ [(=) (CHR ''-'')] @ digits_rx 2 @ [(=) (CHR ''-'')] @ digits_rx 2 @ [(=) (CHR ''T'')] @
     digits_rx 2 @ [(=) (CHR '':'')] @ digits_rx 2 @ [(=) (CHR '':'')] @ digits_rx 2"

definition iso_offset :: "(char \<Rightarrow> bool) list" where
  "iso_offset = [is_sign] @ digits_rx 2 @ [(=) (CHR '':'')] @ digits_rx 2"

definition ISO_8601_RE :: rx where
  "ISO_8601_RE =
     Cat (Cat (seqs (map Cls iso_stamp))
       (Alt (seqs (map Cls [(=) (CHR ''Z'')])) (seqs (map Cls iso_offset)))) Eol"

text \<open>\<^verbatim>\<open>^[0-9a-f]{40}$\<close>\<close>

definition GIT_SHA_RE :: rx where
  "GIT_SHA_RE = Cat (seqs (map Cls (replicate 40 is_lower_hex))) Eol"

type_synonym labels = "(string \<times> string) list"

text \<open>\<^verbatim>\<open>labels.get(name, "")\<close>\<close>

definition label :: "labels \<Rightarrow> string \<Rightarrow> string" where
  "label labels n = (case map_of labels n of None \<Rightarrow> '''' | Some v \<Rightarrow> v)"

definition validate_labels :: "labels \<Rightarrow> string list" where
  "validate_labels labels =
     (let version = label labels ''org.opencontainers.image.version'';
          created = label labels ''org.opencontainers.image.created'';
          revision = label labels ''org.opencontainers.image.revision'';
          src = label labels ''org.opencontainers.image.source''
      in map (\<lambda>n. n @ '' must be populated with release metadata'')
           (filter (\<lambda>n. lower (strip (label labels n)) \<in> set FORBIDDEN_VALUES) REQUIRED_LABELS)
         @ (if version \<noteq> [] \<and> re_match SEMVER_RE version = None
            then [''org.opencontainers.image.version must be a plain semantic version''] else [])
         @ (if created \<noteq> [] \<and> re_match ISO_8601_RE created = None
            then [''org.opencontainers.image.created must be an ISO-8601 Git timestamp''] else [])
         @ (if revision \<noteq> [] \<and> re_match GIT_SHA_RE revision = None
            then [''org.opencontainers.image.revision must be a full Git commit SHA''] else [])
         @ (if src \<noteq> [] \<and> \<not> startswith src ''https://github.com/''
            then [''org.opencontainers.image.source must be the GitHub repository URL''] else []))"

definition inspect_labels :: "(string \<Rightarrow> string result) \<Rightarrow> string \<Rightarrow> labels result" where
  "inspect_labels check_output img =
     rbind (check_output img) (\<lambda>output.
       case loads output of
         None \<Rightarrow> Inl (ValueError ''JSONDecodeError'')
       | Some (JObj kvs) \<Rightarrow> Inr (map (\<lambda>(k, v). (k, py_str v)) kvs)
       | Some _ \<Rightarrow> Inr [])"

text \<open>What \<^verbatim>\<open>main\<close> prints on \<^verbatim>\<open>stderr\<close> and the exit code it returns.\<close>

definition image_labels_main :: "(string \<Rightarrow> string result) \<Rightarrow> string \<Rightarrow> (string list \<times> int) result" where
  "image_labels_main check_output img =
     rbind (inspect_labels check_output img) (\<lambda>labels.
       let errors = validate_labels labels
       in Inr (map (\<lambda>e. ''image label error: '' @ e) errors, if errors \<noteq> [] then 1 else 0))"

subsection \<open>The shapes of the labels\<close>

text \<open>\<^verbatim>\<open>$\<close> also matches in front of a line break that ends the text.\<close>

definition with_newline :: "(string \<Rightarrow> bool) \<Rightarrow> string \<Rightarrow> bool" where
  "with_newline P v \<longleftrightarrow> P v \<or> (v \<noteq> [] \<and> last v = CHR 0x0A \<and> P (butlast v))"

definition number :: "string \<Rightarrow> bool" where
  "number s \<longleftrightarrow> s \<noteq> [] \<and> list_all is_digit s"

definition semver_suffix :: "string \<Rightarrow> bool" where
  "semver_suffix s \<longleftrightarrow> s = [] \<or> (is_sign (hd s) \<and> tl s \<noteq> [] \<and> list_all is_suffix_char (tl s))"

definition semver :: "string \<Rightarrow> bool" where
  "semver v \<longleftrightarrow> (\<exists>major minor patch rest. v = major @ ''.'' @ minor @ ''.'' @ patch @ rest \<and>
     number major \<and> number minor \<and> number patch \<and> semver_suffix rest)"

definition fits :: "(char \<Rightarrow> bool) list \<Rightarrow> string \<Rightarrow> bool" where
  "fits Ps s \<longleftrightarrow> list_all2 (\<lambda>P c. P c) Ps s"

definition iso_timestamp :: "string \<Rightarrow> bool" where
  "iso_timestamp v \<longleftrightarrow> fits (iso_stamp @ [(=) (CHR ''Z'')]) v \<or> fits (iso_stamp @ iso_offset) v"

definition full_sha :: "string \<Rightarrow> bool" where
  "full_sha v \<longleftrightarrow> length v = 40 \<and> list_all is_lower_hex v"

lemma fits_append: "fits (Ps @ Qs) v \<longleftrightarrow> (\<exists>t u. v = t @ u \<and> fits Ps t \<and> fits Qs u)"
  unfolding fits_def list_all2_append1 by (metis list_all2_lengthD)

lemma fits_Cons: "fits (P # Ps) v \<longleftrightarrow> (\<exists>c t. v = c # t \<and> P c \<and> fits Ps t)"
  by (auto simp: fits_def list_all2_Cons1)

lemma fits_Nil [simp]: "fits [] v \<longleftrightarrow> v = []"
  by (simp add: fits_def)

lemma fits_replicate: "fits (replicate n P) v \<longleftrightarrow> length v = n \<and> list_all P v"
proof (induction n arbitrary: v)
  case (Suc n)
  then show ?case by (cases v) (auto simp: fits_Cons)
qed auto

subsection \<open>Patterns that match a language\<close>

text \<open>
  \<open>exact r L\<close>: the pattern \<open>r\<close> captures nothing and consumes exactly the words of \<open>L\<close>.
\<close>

definition exact :: "rx \<Rightarrow> (string \<Rightarrow> bool) \<Rightarrow> bool" where
  "exact r L \<longleftrightarrow> (\<forall>s s' e. rmatch r s s' e \<longleftrightarrow> e = [] \<and> (\<exists>u. s = u @ s' \<and> L u))"

lemma exactI: "(\<And>s s' e. rmatch r s s' e \<longleftrightarrow> e = [] \<and> (\<exists>u. s = u @ s' \<and> L u)) \<Longrightarrow> exact r L"
  by (simp add: exact_def)

lemma exactD: "exact r L \<Longrightarrow> rmatch r s s' e \<longleftrightarrow> e = [] \<and> (\<exists>u. s = u @ s' \<and> L u)"
  by (simp add: exact_def)

lemma exact_cong: "exact r L \<Longrightarrow> (\<And>u. L u \<longleftrightarrow> L' u) \<Longrightarrow> exact r L'"
  by (simp add: exact_def)

lemma exact_Eps: "exact Eps (\<lambda>u. u = [])"
  by (rule exactI) (auto simp: rmatch_simps)

lemma exact_Cat:
  assumes "exact p L" "exact q M"
  shows "exact (Cat p q) (\<lambda>v. \<exists>t u. v = t @ u \<and> L t \<and> M u)"
proof (rule exactI)
  fix s s' e
  have "rmatch (Cat p q) s s' e \<longleftrightarrow> e = [] \<and> (\<exists>t u. s = t @ u @ s' \<and> L t \<and> M u)"
    unfolding rmatch_simps(3) exactD [OF assms(1)] exactD [OF assms(2)] by auto
  then show "rmatch (Cat p q) s s' e \<longleftrightarrow> e = [] \<and> (\<exists>v. s = v @ s' \<and> (\<exists>t u. v = t @ u \<and> L t \<and> M u))"
    by (metis append.assoc)
qed

lemma exact_Alt: "exact p L \<Longrightarrow> exact q M \<Longrightarrow> exact (Alt p q) (\<lambda>v. L v \<or> M v)"
  by (rule exactI) (auto simp: rmatch_simps exactD)

lemma exact_Cls_Cat:
  assumes "exact q M"
  shows "exact (Cat (Cls P) q) (\<lambda>v. v \<noteq> [] \<and> P (hd v) \<and> M (tl v))"
proof (rule exactI)
  fix s s' e
  have "rmatch (Cat (Cls P) q) s s' e \<longleftrightarrow> e = [] \<and> (\<exists>c u. s = (c # u) @ s' \<and> P c \<and> M u)"
    unfolding rmatch_simps(2,3) exactD [OF assms] by auto
  also have "\<dots> \<longleftrightarrow> e = [] \<and> (\<exists>v. s = v @ s' \<and> v \<noteq> [] \<and> P (hd v) \<and> M (tl v))"
    by (metis list.collapse list.distinct(1) list.sel(1,3))
  finally show "rmatch (Cat (Cls P) q) s s' e \<longleftrightarrow>
      e = [] \<and> (\<exists>v. s = v @ s' \<and> v \<noteq> [] \<and> P (hd v) \<and> M (tl v))" .
qed

lemma exact_plus_Cls: "exact (plus (Cls P)) (\<lambda>v. v \<noteq> [] \<and> list_all P v)"
proof (rule exactI)
  fix s s' e
  have "(\<exists>u. s = u @ s' \<and> u \<noteq> [] \<and> list_all P u) \<longleftrightarrow> (\<exists>c u. s = (c # u) @ s' \<and> list_all P (c # u))"
    by (metis list.exhaust list.distinct(1))
  then show "rmatch (plus (Cls P)) s s' e \<longleftrightarrow> e = [] \<and> (\<exists>u. s = u @ s' \<and> u \<noteq> [] \<and> list_all P u)"
    by (simp add: rmatch_plus_Cls list_all_iff)
qed

lemma exact_classes: "exact (seqs (map Cls Ps)) (fits Ps)"
proof (rule exactI)
  fix s s' e
  show "rmatch (seqs (map Cls Ps)) s s' e \<longleftrightarrow> e = [] \<and> (\<exists>v. s = v @ s' \<and> fits Ps v)"
  proof (induction Ps arbitrary: s e)
    case (Cons P Ps)
    have "rmatch (seqs (map Cls (P # Ps))) s s' e \<longleftrightarrow>
        (\<exists>c t. s = c # t \<and> P c \<and> rmatch (seqs (map Cls Ps)) t s' e)"
      unfolding list.map rmatch_seqs_Cons by (auto simp: rmatch_simps)
    then show ?case unfolding Cons.IH fits_Cons by (auto simp: Cons_eq_append_conv)
  qed (auto simp: rmatch_simps)
qed

lemma exact_dot: "exact (word ''.'') (\<lambda>v. v = ''.'')"
  by (rule exactI) (auto simp: word_def rmatch_simps)

text \<open>\<^verbatim>\<open>match\<close> of a pattern that ends in \<^verbatim>\<open>$\<close>.\<close>

lemma exact_line:
  assumes "exact r L"
  shows "re_match (Cat r Eol) v \<noteq> None \<longleftrightarrow> with_newline L v"
proof -
  have "(\<exists>s' e. rmatch (Cat r Eol) v s' e) \<longleftrightarrow> L v \<or> (\<exists>t. v = t @ [CHR 0x0A] \<and> L t)"
    unfolding rmatch_simps(3,6) exactD [OF assms] by auto
  also have "\<dots> \<longleftrightarrow> with_newline L v"
    unfolding with_newline_def by (metis append_butlast_last_id snoc_eq_iff_butlast)
  finally show ?thesis by (simp add: re_match_None)
qed

lemma exact_semver: "exact (seqs [plus rx_digit, word ''.'', plus rx_digit, word ''.'', plus rx_digit,
    Alt (Cat (Cls is_sign) (plus (Cls is_suffix_char))) Eps]) semver"
proof -
  have num: "exact (plus rx_digit) number"
    unfolding rx_digit_def by (rule exact_cong [OF exact_plus_Cls]) (simp add: number_def)
  have suf: "exact (Alt (Cat (Cls is_sign) (plus (Cls is_suffix_char))) Eps) semver_suffix"
    by (rule exact_cong [OF exact_Alt [OF exact_Cls_Cat [OF exact_plus_Cls] exact_Eps]])
      (auto simp: semver_suffix_def)
  show ?thesis
    unfolding seqs.simps
    by (rule exact_cong [OF exact_Cat [OF num exact_Cat [OF exact_dot exact_Cat [OF num
            exact_Cat [OF exact_dot exact_Cat [OF num suf]]]]]])
      (simp add: semver_def, blast)
qed

lemmas semver_matched = exact_line [OF exact_semver, folded SEMVER_RE_def]

lemma iso_matched: "re_match ISO_8601_RE v \<noteq> None \<longleftrightarrow> with_newline iso_timestamp v"
proof -
  have "exact (Cat (seqs (map Cls iso_stamp))
      (Alt (seqs (map Cls [(=) (CHR ''Z'')])) (seqs (map Cls iso_offset)))) iso_timestamp"
    by (rule exact_cong [OF exact_Cat [OF exact_classes exact_Alt [OF exact_classes exact_classes]]])
      (auto simp only: iso_timestamp_def fits_append)
  then show ?thesis unfolding ISO_8601_RE_def by (rule exact_line)
qed

lemma sha_matched: "re_match GIT_SHA_RE v \<noteq> None \<longleftrightarrow> with_newline full_sha v"
proof -
  have "exact (seqs (map Cls (replicate 40 is_lower_hex))) full_sha"
    by (rule exact_cong [OF exact_classes]) (simp only: fits_replicate full_sha_def)
  then show ?thesis unfolding GIT_SHA_RE_def by (rule exact_line)
qed

text \<open>A required label is never empty, so the guards of the shape checks hold for an accepted set.\<close>

lemma forbidden_empty: "lower (strip []) \<in> set FORBIDDEN_VALUES"
  by (simp add: FORBIDDEN_VALUES_def strip_def strip_by_def lstrip_by_def rstrip_by_def lower_def)

lemma validate_labels_Nil:
  "validate_labels labels = [] \<longleftrightarrow>
     (\<forall>n \<in> set REQUIRED_LABELS. lower (strip (label labels n)) \<notin> set FORBIDDEN_VALUES) \<and>
     re_match SEMVER_RE (label labels ''org.opencontainers.image.version'') \<noteq> None \<and>
     re_match ISO_8601_RE (label labels ''org.opencontainers.image.created'') \<noteq> None \<and>
     re_match GIT_SHA_RE (label labels ''org.opencontainers.image.revision'') \<noteq> None \<and>
     startswith (label labels ''org.opencontainers.image.source'') ''https://github.com/''"
proof (cases "\<forall>n \<in> set REQUIRED_LABELS. lower (strip (label labels n)) \<notin> set FORBIDDEN_VALUES")
  case True
  then have ne: "label labels n \<noteq> []" if "n \<in> set REQUIRED_LABELS" for n
    using that forbidden_empty by fastforce
  have "label labels ''org.opencontainers.image.version'' \<noteq> []"
    "label labels ''org.opencontainers.image.created'' \<noteq> []"
    "label labels ''org.opencontainers.image.revision'' \<noteq> []"
    "label labels ''org.opencontainers.image.source'' \<noteq> []"
    by (rule ne, simp add: REQUIRED_LABELS_def)+
  with True show ?thesis
    by (simp add: validate_labels_def Let_def filter_empty_conv)
next
  case False
  then show ?thesis by (auto simp: validate_labels_def Let_def filter_empty_conv)
qed


definition demo_labels :: labels where
  "demo_labels =
     [(''org.opencontainers.image.created'', ''2026-01-02T03:04:05Z''),
      (''org.opencontainers.image.description'', ''x10''),
      (''org.opencontainers.image.licenses'', ''MIT''),
      (''org.opencontainers.image.revision'', ''0123456789abcdef0123456789abcdef01234567''),
      (''org.opencontainers.image.source'', ''https://github.com/a/b''),
      (''org.opencontainers.image.title'', ''bridge''),
      (''org.opencontainers.image.version'', ''1.2.0-rc.1'' @ [CHR 0x0A])]"

definition demo_inspect :: "string \<Rightarrow> string result" where
  "demo_inspect img = Inr (dumps_compact (JObj (map (\<lambda>(k, v). (k, JStr v)) demo_labels)) @ [CHR 0x0A])"


end
