(* ===== verification/Spec2Isabelle.thy ===== *)
theory Spec2Isabelle
  imports StatusBlock StateRuns DeviceRegistry MochadThreads Discovery DiscoveryRegistry MqttSession Config BridgeEvents HealthCheck CleanupMain BridgeMain MochadTools ImageLabels
begin

text \<open>
  \<^bold>\<open>A verification development for the MQTT mochad bridge.\<close>

  \<^bold>\<open>The program.\<close>  The bridge connects mochad, a TCP daemon that drives an X10 controller and
  reports what happens on the power line and by radio as lines of text, with an MQTT broker and Home
  Assistant.  Lines from mochad arrive through \<^verbatim>\<open>mochad_client.py\<close>, are parsed by \<^verbatim>\<open>protocol/\<close> into
  events, change the device states kept by \<^verbatim>\<open>state.py\<close>, which answers with actions, and these are
  carried out by \<^verbatim>\<open>bridge.py\<close>: messages published through \<^verbatim>\<open>mqtt_client.py\<close> on topics of \<^verbatim>\<open>topics.py\<close>,
  discovery messages built by \<^verbatim>\<open>discovery.py\<close>, commands sent to mochad.  Commands come back on MQTT, are
  checked against the configuration (\<^verbatim>\<open>config.py\<close>, \<^verbatim>\<open>device_registry.py\<close>), sent or queued, and recorded
  optimistically.  Two files carry state over a restart: the device list and the registry of
  published discovery topics (\<^verbatim>\<open>discovery_registry.py\<close>); a third is the heartbeat that
  \<^verbatim>\<open>healthcheck.py\<close> reads.

  \<^bold>\<open>Foundations.\<close>
  \<^item> \<^verbatim>\<open>Prelude\<close>: exceptions as the left side of a sum (\<open>result\<close>), Python's string methods, dictionaries
    as association lists in insertion order (locale \<open>ordered_dict\<close>, interpreted on the lists of the
    library), and the locale \<open>observed_system\<close> that relates a machine to an observer of its output.
  \<^item> \<^verbatim>\<open>PyRegex\<close>: regular expressions with groups, a relation that says what a match is and a backtracking
    matcher that finds Python's first match; the two are proved to agree, so that patterns are reasoned
    about by the relation and evaluated by the matcher.  A repetition is bounded by the length of the
    input, which is shown to be enough.
  \<^item> \<^verbatim>\<open>Json\<close>, \<^verbatim>\<open>JsonText\<close>, \<^verbatim>\<open>PyStr\<close>, \<^verbatim>\<open>PyNum\<close>, \<^verbatim>\<open>FileSystem\<close>: JSON values, \<^verbatim>\<open>json.dumps\<close> and \<^verbatim>\<open>json.loads\<close> (the
    reader has fuel twice the length of the text; reading back what any of the two layouts printed
    succeeds, locale \<open>json_layout\<close>), \<^verbatim>\<open>str()\<close>, \<^verbatim>\<open>int()\<close>, \<^verbatim>\<open>float()\<close>, and files with the errors of reading,
    writing and replacing.

  \<^bold>\<open>Data and protocol.\<close>
  \<^item> \<^verbatim>\<open>Models\<close> (\<^verbatim>\<open>models.py\<close>): enumerations as datatypes, data classes as records, the actions.
  \<^item> \<^verbatim>\<open>Validation\<close> (\<^verbatim>\<open>protocol/validation.py\<close>, \<^verbatim>\<open>X10Address\<close>): the locale \<open>address_normaliser\<close> is the contract
    of the four address normalisers of the source; each is an interpretation, so they agree.
  \<^item> \<^verbatim>\<open>Protocol\<close> (\<^verbatim>\<open>regex.py\<close>, \<^verbatim>\<open>mappings.py\<close>, \<^verbatim>\<open>encoder.py\<close>): patterns, tables, encoded commands.
  \<^item> \<^verbatim>\<open>StatusParser\<close>, \<^verbatim>\<open>LineParser\<close>, \<^verbatim>\<open>StatusBlock\<close> (\<^verbatim>\<open>status.py\<close>, \<^verbatim>\<open>parser.py\<close>): \<open>feed\<close> and \<open>parse_line\<close>.  Printed device
    and house lines are parsed back into their fields, no line raises, and a complete status
    response, interleaved with other traffic, yields exactly its bits as one snapshot.

  \<^bold>\<open>The state manager\<close> (\<^verbatim>\<open>state.py\<close>).  \<^verbatim>\<open>State\<close> has the record \<open>state_manager\<close> and one definition per method.
  \<^verbatim>\<open>StateLaws\<close> and \<^verbatim>\<open>StateRuns\<close> show, over every sequence of calls, the invariant, that only permitted
  actions are emitted, that the statistics count them, and that what was published last is what the
  manager knows.  \<^verbatim>\<open>StateSpec\<close> has the effect of each kind of event, \<^verbatim>\<open>StateKeys\<close> which devices appear.

  \<^bold>\<open>Configuration.\<close>  \<^verbatim>\<open>DeviceRegistry\<close> (\<^verbatim>\<open>device_registry.py\<close>) has the table of profiles; \<^verbatim>\<open>ConfigDevices\<close> and
  \<^verbatim>\<open>Config\<close> (\<^verbatim>\<open>config.py\<close>) the readers of devices, house codes and settings and the writer of the device
  file (locale \<open>device_reader\<close> for the three forms of the device list).  Devices that were accepted are well-formed and within
  bounds, and a written file is read back as the same devices.

  \<^bold>\<open>The clients.\<close>
  \<^item> \<^verbatim>\<open>Topics\<close> (\<^verbatim>\<open>topics.py\<close>), \<^verbatim>\<open>MqttClient\<close> and \<^verbatim>\<open>MqttSession\<close> (\<^verbatim>\<open>mqtt_client.py\<close>), \<^verbatim>\<open>MqttTls\<close> (\<^verbatim>\<open>mqtt_tls.py\<close>): topics and
    their parsers, payload texts, routing, the TLS context, and the client as the sequence of calls
    it makes to paho: configured before it connects, and one subscription through which every command
    reaches its handler.
  \<^item> \<^verbatim>\<open>MochadClient\<close> and \<^verbatim>\<open>MochadThreads\<close> (\<^verbatim>\<open>mochad_client.py\<close>): the splitting of the stream (locale
    \<open>stream_splitter\<close>) and an iteration of the connection as functions; the two threads as an \<open>inductive\<close>
    step relation over the flags, the socket and their program points (locale \<open>inductive_invariant\<close>,
    interpreted three times).  Sockets are released, the thread ends, and its callbacks refine the
    sequential iteration.  The bound of 4105 steps comes from \<^verbatim>\<open>recv(4096)\<close>.

  \<^bold>\<open>Discovery.\<close>  \<^verbatim>\<open>Discovery\<close> (\<^verbatim>\<open>discovery.py\<close>) builds and validates the messages, \<^verbatim>\<open>DiscoveryRegistry\<close>
  (\<^verbatim>\<open>discovery_registry.py\<close>) keeps the topics in a file: load after save gives them back, a broken file
  is moved aside to a free name (searched with fuel for one name more than there are files).
  \<^verbatim>\<open>DiscoveryCleanup\<close> (\<^verbatim>\<open>tools/ha_mqtt_discovery_cleanup.py\<close>) is shown to clear what the bridge published and
  nothing it does not recognise; \<^verbatim>\<open>CleanupMain\<close> has the tool's session around it: options, calls, output
  (nothing is published without \<^verbatim>\<open>--apply\<close>, and no output depends on the password).

  \<^bold>\<open>The bridge\<close> (\<^verbatim>\<open>bridge.py\<close>).  \<^verbatim>\<open>BridgeCore\<close> has the record \<open>bridge\<close>, the actions and the command queue,
  \<^verbatim>\<open>Bridge\<close> the callbacks, bridge commands, discovery, diagnostics, heartbeat, reload, start and stop.  A method
  returns a result and a new bridge, so that a raised exception keeps what was done before it.
  The queue is flushed with its length as fuel, one step per command, which is shown to be enough.
  \<^verbatim>\<open>BridgeLaws\<close> states once, as locales (\<open>kept_property\<close>, \<open>bridge_property\<close>, \<open>run_property\<close>), how a property of
  the state that every elementary effect keeps is kept by every method and run; \<^verbatim>\<open>BridgeRuns\<close>
  interprets them for the invariant and for the lines sent to mochad, and derives from them the locale
  \<open>framed_property\<close> for what no method touches; \<^verbatim>\<open>BridgeQueue\<close> (locale \<open>bounded_fifo\<close>) for
  the queue.  \<^verbatim>\<open>BridgeSync\<close> and \<^verbatim>\<open>BridgeBroker\<close> (locale \<open>total_property\<close>) add the broker, which keeps the last retained message
  of a topic: while MQTT is connected it shows for every known device the state the manager
  knows, as long as no write to mochad fails.  \<^verbatim>\<open>BridgeCommands\<close> follows a command message through all
  components to the lines sent or the queue, \<^verbatim>\<open>BridgeEvents\<close> a line of mochad through all components to
  the retained state on the broker.  \<^verbatim>\<open>HealthCheck\<close> (\<^verbatim>\<open>healthcheck.py\<close>) reads the heartbeat back.
  \<^verbatim>\<open>BridgeMain\<close> (\<^verbatim>\<open>mqtt_mochad_bridge.py\<close>, \<^verbatim>\<open>Bridge.run\<close>) composes configuration, logging level, clients and bridge
  and splits a turn of the main loop into its statements, between which callbacks and the shutdown signal
  come: an uninterrupted turn is the turn of \<^verbatim>\<open>Bridge\<close>, a signal ends the loop within four statements, and the
  heartbeat that remains is determined.

  \<^bold>\<open>Tools beside the bridge.\<close>  \<^verbatim>\<open>MochadTools\<close> has the scripts \<^verbatim>\<open>check_mochad_tcp.py\<close>, \<^verbatim>\<open>mochad_status.py\<close> and
  \<^verbatim>\<open>watch_mochad.py\<close> over the outcomes of a socket (the watcher is another interpretation of
  \<open>stream_splitter\<close>); \<^verbatim>\<open>ImageLabels\<close> has the release check \<^verbatim>\<open>image_labels.py\<close>, with what it accepts stated without
  regular expressions.

  \<^bold>\<open>Conventions.\<close>  A Python \<^verbatim>\<open>str\<close> is a list of characters below 256, Python's integers are \<open>int\<close> or
  \<open>nat\<close> where negative values cannot occur, a clock value is an argument.  Log output is not modelled, except
  that exception messages that reach a published payload are.

  \<^bold>\<open>Not modelled.\<close>  Log output; the construction of the paho client object; how argparse cuts a command
  line into options; the payload classes of \<^verbatim>\<open>models.py\<close>, the helper \<^verbatim>\<open>_slug\<close> of \<^verbatim>\<open>topics.py\<close> and the patterns of \<^verbatim>\<open>regex.py\<close>
  (\<^verbatim>\<open>HOUSE_STATUS_RE\<close>, \<^verbatim>\<open>RFSEC_RE\<close>, \<^verbatim>\<open>RFCAM_RE\<close>) that nothing uses; a signal that arrives inside a statement of
  the main loop.
  The paho library, the \<^verbatim>\<open>ssl\<close> module, the network and the clock are arguments.  Code points from 256
  on, and floating-point numbers in JSON documents beyond their text, are outside the model.
\<close>

end
